(* ===== verification/L402_Prelude.thy ===== *)
theory L402_Prelude
  imports Main "HOL-Library.Word" "HOL-Library.AList"
begin

text \<open>
  Shared vocabulary of the development.

  \<^item> Rust's unsigned integers are words (\<open>u64\<close>, \<open>u32\<close>, \<open>u16\<close>), its checked, saturating
    and rounding operations are definitions on them, read through \<open>unat\<close>.
  \<^item> A Rust computation returns \<open>Ok\<close>, \<open>Err\<close> or \<open>Panic\<close>. \<open>Panic\<close> is an arithmetic overflow
    of an unchecked operator in a build with overflow checks, an \<open>expect\<close> on \<open>None\<close>, or an
    index out of range. Where a theorem excludes \<open>Panic\<close>, the wrapping build agrees.
  \<^item> A Rust \<open>str\<close> is its sequence of UTF-8 bytes, a HOL \<open>string\<close>. The string operations of the
    standard library that the sources use are modelled on bytes; \<open>trim\<close> knows the Unicode white
    space, and lower-casing changes the ASCII letters (the only letters any caller compares).
\<close>

named_theorems u64_simps \<open>reading the word operations through unat\<close>
named_theorems str_simps \<open>the string operations on concatenations\<close>

type_synonym u64 = "64 word"
type_synonym u32 = "32 word"
type_synonym u16 = "16 word"

section \<open>Results\<close>

datatype ('a, 'e) rres = Ok 'a | Err 'e | Panic

fun rbind :: "('a, 'e) rres \<Rightarrow> ('a \<Rightarrow> ('b, 'e) rres) \<Rightarrow> ('b, 'e) rres" where
  "rbind (Ok x) f = f x"
| "rbind (Err e) f = Err e"
| "rbind Panic f = Panic"

fun map_err :: "('e \<Rightarrow> 'f) \<Rightarrow> ('a, 'e) rres \<Rightarrow> ('a, 'f) rres" where
  "map_err g (Ok x) = Ok x"
| "map_err g (Err e) = Err (g e)"
| "map_err g Panic = Panic"

definition ok_or :: "'e \<Rightarrow> 'a option \<Rightarrow> ('a, 'e) rres" where
  "ok_or e o1 = (case o1 of None \<Rightarrow> Err e | Some x \<Rightarrow> Ok x)"

lemma ok_or_simps [simp]:
  "ok_or e None = Err e" "ok_or e (Some x) = Ok x"
  by (simp_all add: ok_or_def)

lemma rbind_Ok_iff: "rbind m f = Ok y \<longleftrightarrow> (\<exists>x. m = Ok x \<and> f x = Ok y)"
  by (cases m) auto

lemma rbind_Panic_iff: "rbind m f = Panic \<longleftrightarrow> m = Panic \<or> (\<exists>x. m = Ok x \<and> f x = Panic)"
  by (cases m) auto

lemma map_err_Ok_iff [simp]: "map_err g m = Ok x \<longleftrightarrow> m = Ok x"
  by (cases m) auto

lemma map_err_Panic_iff [simp]: "map_err g m = Panic \<longleftrightarrow> m = Panic"
  by (cases m) auto

lemma ok_or_Ok_iff [simp]: "ok_or e v = Ok x \<longleftrightarrow> v = Some x"
  by (cases v) auto

lemma ok_or_not_Panic [simp]: "ok_or e v \<noteq> Panic"
  by (cases v) auto

section \<open>Unsigned 64-bit arithmetic\<close>

definition u64_max :: u64 where
  "u64_max = 18446744073709551615"

definition saturating_add :: "u64 \<Rightarrow> u64 \<Rightarrow> u64" where
  "saturating_add a b = (if unat a + unat b < 2 ^ 64 then a + b else u64_max)"

definition saturating_sub :: "u64 \<Rightarrow> u64 \<Rightarrow> u64" where
  "saturating_sub a b = (if b \<le> a then a - b else 0)"

definition saturating_mul :: "u64 \<Rightarrow> u64 \<Rightarrow> u64" where
  "saturating_mul a b = (if unat a * unat b < 2 ^ 64 then a * b else u64_max)"

definition checked_add :: "u64 \<Rightarrow> u64 \<Rightarrow> u64 option" where
  "checked_add a b = (if unat a + unat b < 2 ^ 64 then Some (a + b) else None)"

definition checked_sub :: "u64 \<Rightarrow> u64 \<Rightarrow> u64 option" where
  "checked_sub a b = (if b \<le> a then Some (a - b) else None)"

definition checked_mul :: "u64 \<Rightarrow> u64 \<Rightarrow> u64 option" where
  "checked_mul a b = (if unat a * unat b < 2 ^ 64 then Some (a * b) else None)"

text \<open>\<open>u64::div_ceil\<close>: quotient, plus one if there is a remainder.\<close>

definition div_ceil :: "u64 \<Rightarrow> u64 \<Rightarrow> u64" where
  "div_ceil a b = (if a mod b > 0 then a div b + 1 else a div b)"

text \<open>The unchecked \<open>+\<close> and \<open>*\<close> of Rust, and \<open>Iterator::sum\<close>, which panic on overflow.\<close>

definition add_u64 :: "u64 \<Rightarrow> u64 \<Rightarrow> (u64, 'e) rres" where
  "add_u64 a b = (if unat a + unat b < 2 ^ 64 then Ok (a + b) else Panic)"

definition mul_u64 :: "u64 \<Rightarrow> u64 \<Rightarrow> (u64, 'e) rres" where
  "mul_u64 a b = (if unat a * unat b < 2 ^ 64 then Ok (a * b) else Panic)"

fun sum_from :: "u64 \<Rightarrow> u64 list \<Rightarrow> (u64, 'e) rres" where
  "sum_from acc [] = Ok acc"
| "sum_from acc (x # xs) = rbind (add_u64 acc x) (\<lambda>acc'. sum_from acc' xs)"

definition sum_u64 :: "u64 list \<Rightarrow> (u64, 'e) rres" where
  "sum_u64 xs = sum_from 0 xs"

lemma unat_u64_less [simp]: "unat (x :: u64) < 18446744073709551616"
  using unsigned_less [of x, where 'a = nat] by simp

lemma unat_u64_le: "unat (x :: u64) \<le> 18446744073709551615"
  using unat_u64_less [of x] by linarith

lemma unat_of_nat_u64: "n < 2 ^ 64 \<Longrightarrow> unat (of_nat n :: u64) = n"
  by (simp add: unat_of_nat)

lemma fits_u64_iff: "n < 2 ^ 64 \<longleftrightarrow> (\<exists>v :: u64. unat v = n)"
proof
  assume "n < 2 ^ 64"
  then have "unat (of_nat n :: u64) = n" by (rule unat_of_nat_u64)
  then show "\<exists>v :: u64. unat v = n" ..
next
  assume "\<exists>v :: u64. unat v = n"
  then obtain v :: u64 where "unat v = n" ..
  then show "n < 2 ^ 64" using unat_u64_less [of v] by simp
qed

lemma unat_u64_max [simp, u64_simps]: "unat u64_max = 18446744073709551615"
  by (simp add: u64_max_def)

lemma u64_max_ge [simp]: "x \<le> u64_max"
  using unat_u64_le [of x] by (simp add: word_le_nat_alt)

lemma unat_add_u64_no_overflow:
  "unat (a :: u64) + unat b < 2 ^ 64 \<Longrightarrow> unat (a + b) = unat a + unat b"
  by (simp add: unat_word_ariths)

lemma unat_mul_u64_no_overflow:
  "unat (a :: u64) * unat b < 2 ^ 64 \<Longrightarrow> unat (a * b) = unat a * unat b"
  by (simp add: unat_word_ariths)

lemma unat_sub_u64: "b \<le> (a :: u64) \<Longrightarrow> unat (a - b) = unat a - unat b"
  by (rule unat_sub)

lemma unat_saturating_add [u64_simps]:
  "unat (saturating_add a b) = min (unat a + unat b) 18446744073709551615"
  using unat_add_u64_no_overflow [of a b] by (auto simp: saturating_add_def min_def)

lemma unat_saturating_sub [u64_simps]: "unat (saturating_sub a b) = unat a - unat b"
  by (auto simp: saturating_sub_def unat_sub word_le_nat_alt)

lemma unat_saturating_mul [u64_simps]:
  "unat (saturating_mul a b) = min (unat a * unat b) 18446744073709551615"
  using unat_mul_u64_no_overflow [of a b] by (auto simp: saturating_mul_def min_def)

lemma saturating_add_exact:
  "unat a + unat b < 2 ^ 64 \<Longrightarrow> saturating_add a b = a + b"
  by (simp add: saturating_add_def)

lemma checked_add_Some_iff:
  "checked_add a b = Some c \<longleftrightarrow> unat c = unat a + unat b"
  using unat_u64_less [of c]
  by (auto simp: checked_add_def unat_add_u64_no_overflow word_unat_eq_iff simp del: unat_u64_less)

lemma checked_add_None_iff: "checked_add a b = None \<longleftrightarrow> 2 ^ 64 \<le> unat a + unat b"
  by (auto simp: checked_add_def)

lemma checked_sub_Some_iff:
  "checked_sub a b = Some c \<longleftrightarrow> unat a = unat b + unat c"
  by (auto simp: checked_sub_def unat_sub word_le_nat_alt word_unat_eq_iff)

lemma checked_sub_None_iff: "checked_sub a b = None \<longleftrightarrow> unat a < unat b"
  by (auto simp: checked_sub_def word_le_nat_alt)

lemma checked_mul_Some_iff:
  "checked_mul a b = Some c \<longleftrightarrow> unat c = unat a * unat b"
  using unat_u64_less [of c]
  by (auto simp: checked_mul_def unat_mul_u64_no_overflow word_unat_eq_iff simp del: unat_u64_less)

lemma checked_mul_None_iff: "checked_mul a b = None \<longleftrightarrow> 2 ^ 64 \<le> unat a * unat b"
  by (auto simp: checked_mul_def)

lemma add_u64_Ok_iff: "add_u64 a b = Ok c \<longleftrightarrow> unat c = unat a + unat b"
  using unat_u64_less [of c]
  by (auto simp: add_u64_def unat_add_u64_no_overflow word_unat_eq_iff simp del: unat_u64_less)

lemma add_u64_not_Err [simp]: "add_u64 a b \<noteq> Err e"
  by (simp add: add_u64_def)

lemma mul_u64_Ok_iff: "mul_u64 a b = Ok c \<longleftrightarrow> unat c = unat a * unat b"
  using unat_u64_less [of c]
  by (auto simp: mul_u64_def unat_mul_u64_no_overflow word_unat_eq_iff simp del: unat_u64_less)

lemma sum_from_Ok_iff:
  "sum_from acc xs = Ok r \<longleftrightarrow> unat r = unat acc + sum_list (map unat xs)"
proof (induction xs arbitrary: acc)
  case Nil
  then show ?case by (auto simp: word_unat_eq_iff)
next
  case (Cons x xs)
  show ?case
  proof (cases "unat acc + unat x < 2 ^ 64")
    case True
    then show ?thesis by (simp add: add_u64_def Cons.IH unat_add_u64_no_overflow add.assoc)
  next
    case False
    then show ?thesis using unat_u64_less [of r] by (simp add: add_u64_def del: unat_u64_less)
  qed
qed

lemma sum_from_not_Err [simp]: "sum_from acc xs \<noteq> Err e"
  by (induction xs arbitrary: acc) (auto simp: add_u64_def)

lemma sum_u64_Ok_iff: "sum_u64 xs = Ok r \<longleftrightarrow> unat r = sum_list (map unat xs)"
  by (simp add: sum_u64_def sum_from_Ok_iff)

lemma sum_u64_fits:
  assumes "sum_list (map unat xs) < 2 ^ 64"
  obtains r where "sum_u64 xs = Ok r" and "unat r = sum_list (map unat xs)"
proof -
  have "unat (of_nat (sum_list (map unat xs)) :: u64) = sum_list (map unat xs)"
    using assms by (simp add: unat_of_nat)
  then show thesis using that sum_u64_Ok_iff by blast
qed

lemma sum_u64_not_Err [simp]: "sum_u64 xs \<noteq> Err e"
  by (simp add: sum_u64_def)

lemma nat_div_ceil:
  fixes a b :: nat
  assumes "0 < b"
  shows "(a + b - 1) div b = (if 0 < a mod b then a div b + 1 else a div b)"
proof -
  define q r where "q = a div b" and "r = a mod b"
  have a: "a = r + b * q" and r: "r < b"
    using assms by (simp_all add: q_def r_def)
  show ?thesis
  proof (cases "0 < r")
    case True
    then have "a + b - 1 = (r - 1) + b * (q + 1)" by (simp add: a)
    moreover have "((r - 1) + b * (q + 1)) div b = q + 1"
      using r assms by (subst div_mult_self2) auto
    ultimately show ?thesis using True by (simp add: q_def r_def)
  next
    case False
    then have "a + b - 1 = (b - 1) + b * q" using assms by (simp add: a)
    moreover have "((b - 1) + b * q) div b = q"
      using assms by (subst div_mult_self2) auto
    ultimately show ?thesis using False by (simp add: q_def r_def)
  qed
qed

lemma unat_div_ceil:
  assumes "1 < unat b"
  shows "unat (div_ceil a b) = (unat a + unat b - 1) div unat b"
proof -
  have "unat a div unat b \<le> unat a div 2"
    using assms by (intro div_le_mono2) auto
  then have "unat a div unat b + 1 < 2 ^ 64" using unat_u64_le [of a] by simp
  then have "unat (a div b + 1) = unat a div unat b + 1"
    by (subst unat_add_u64_no_overflow) (simp_all add: unat_div)
  then show ?thesis
    using assms nat_div_ceil [of "unat b" "unat a"]
    by (simp add: div_ceil_def word_less_nat_alt unat_mod unat_div)
qed

lemma unat_div_ceil_1000 [u64_simps]:
  "unat (div_ceil a 1000) = (unat a + 999) div 1000"
  using unat_div_ceil [of 1000 a] by simp

lemma div_ceil_covers: "unat a \<le> 1000 * unat (div_ceil a 1000)"
  using div_mult_mod_eq [of "unat a + 999" 1000] mod_less_divisor [of 1000 "unat a + 999"]
  by (simp add: unat_div_ceil_1000)

lemma div_ceil_tight: "1000 * unat (div_ceil a 1000) < unat a + 1000"
  using div_mult_mod_eq [of "unat a + 999" 1000] by (simp add: unat_div_ceil_1000)

end
