(* ===== verification/Rust_Str.thy ===== *)
theory Rust_Str
  imports L402_Prelude "HOL-Library.Sublist"
begin

text \<open>
  The string operations of Rust's standard library that the sources use, on the UTF-8 bytes of
  a \<open>str\<close>. Each is executable; the lemmas say what it does on strings put together from
  parts, which is how the header and invoice formats are built.
\<close>

section \<open>Bytes and characters\<close>

definition byte :: "char \<Rightarrow> nat" where
  "byte c = of_char c"

definition is_ascii_digit :: "char \<Rightarrow> bool" where
  "is_ascii_digit c \<longleftrightarrow> 48 \<le> byte c \<and> byte c \<le> 57"

definition is_ascii_hexdigit :: "char \<Rightarrow> bool" where
  "is_ascii_hexdigit c \<longleftrightarrow> is_ascii_digit c \<or> (65 \<le> byte c \<and> byte c \<le> 70)
     \<or> (97 \<le> byte c \<and> byte c \<le> 102)"

definition to_lower_char :: "char \<Rightarrow> char" where
  "to_lower_char c = (if 65 \<le> byte c \<and> byte c \<le> 90 then char_of (byte c + 32) else c)"

definition to_ascii_lowercase :: "string \<Rightarrow> string" where
  "to_ascii_lowercase s = map to_lower_char s"

text \<open>A continuation byte \<open>0b10xxxxxx\<close> belongs to the character that started before it.\<close>

definition is_cont :: "char \<Rightarrow> bool" where
  "is_cont c \<longleftrightarrow> 128 \<le> byte c \<and> byte c < 192"

text \<open>\<open>s.chars().take(n)\<close>, collected, and the last character of \<open>s.chars()\<close>.\<close>

fun take_chars :: "nat \<Rightarrow> string \<Rightarrow> string" where
  "take_chars n [] = []"
| "take_chars n (c # cs) =
     (if is_cont c then c # take_chars n cs
      else case n of 0 \<Rightarrow> [] | Suc m \<Rightarrow> c # take_chars m cs)"

definition last_char :: "string \<Rightarrow> string" where
  "last_char s = rev (case dropWhile is_cont (rev s) of
       [] \<Rightarrow> takeWhile is_cont (rev s) | c # _ \<Rightarrow> takeWhile is_cont (rev s) @ [c])"

text \<open>The text in single quotes, as the error messages print it.\<close>

definition squoted :: "string \<Rightarrow> string" where
  "squoted s = [CHR 0x27] @ s @ [CHR 0x27]"

section \<open>White space and trimming\<close>

text \<open>
  \<open>ws_head s\<close> is the rest of \<open>s\<close> after one leading character of the Unicode property
  \<open>White_Space\<close>: U+0009 to U+000D, U+0020, U+0085, U+00A0, U+1680, U+2000 to U+200A, U+2028,
  U+2029, U+202F, U+205F and U+3000, in their UTF-8 encodings.
\<close>

definition is_ascii_ws :: "char \<Rightarrow> bool" where
  "is_ascii_ws c \<longleftrightarrow> (9 \<le> byte c \<and> byte c \<le> 13) \<or> byte c = 32"

definition is_ws2 :: "nat \<Rightarrow> nat \<Rightarrow> bool" where
  "is_ws2 a b \<longleftrightarrow> a = 194 \<and> (b = 133 \<or> b = 160)"

definition is_ws3 :: "nat \<Rightarrow> nat \<Rightarrow> nat \<Rightarrow> bool" where
  "is_ws3 a b c \<longleftrightarrow>
     (a = 225 \<and> b = 154 \<and> c = 128)
   \<or> (a = 226 \<and> b = 128 \<and> (128 \<le> c \<and> c \<le> 138 \<or> c = 168 \<or> c = 169 \<or> c = 175))
   \<or> (a = 226 \<and> b = 129 \<and> c = 159)
   \<or> (a = 227 \<and> b = 128 \<and> c = 128)"

fun trim_start :: "string \<Rightarrow> string" where
  "trim_start [] = []"
| "trim_start [a] = (if is_ascii_ws a then [] else [a])"
| "trim_start [a, b] =
     (if is_ascii_ws a then trim_start [b]
      else if is_ws2 (byte a) (byte b) then [] else [a, b])"
| "trim_start (a # b # c # s) =
     (if is_ascii_ws a then trim_start (b # c # s)
      else if is_ws2 (byte a) (byte b) then trim_start (c # s)
      else if is_ws3 (byte a) (byte b) (byte c) then trim_start s
      else a # b # c # s)"

text \<open>The same from the right: the argument is the reversed string.\<close>

fun trim_rev :: "string \<Rightarrow> string" where
  "trim_rev [] = []"
| "trim_rev [a] = (if is_ascii_ws a then [] else [a])"
| "trim_rev [a, b] =
     (if is_ascii_ws a then trim_rev [b]
      else if is_ws2 (byte b) (byte a) then [] else [a, b])"
| "trim_rev (a # b # c # s) =
     (if is_ascii_ws a then trim_rev (b # c # s)
      else if is_ws2 (byte b) (byte a) then trim_rev (c # s)
      else if is_ws3 (byte c) (byte b) (byte a) then trim_rev s
      else a # b # c # s)"

definition trim_end :: "string \<Rightarrow> string" where
  "trim_end s = rev (trim_rev (rev s))"

definition trim :: "string \<Rightarrow> string" where
  "trim s = trim_end (trim_start s)"

definition trim_end_matches :: "char \<Rightarrow> string \<Rightarrow> string" where
  "trim_end_matches c s = rev (dropWhile (\<lambda>x. x = c) (rev s))"

definition trim_matches :: "char \<Rightarrow> string \<Rightarrow> string" where
  "trim_matches c s = trim_end_matches c (dropWhile (\<lambda>x. x = c) s)"

section \<open>Searching and splitting\<close>

definition starts_with :: "string \<Rightarrow> string \<Rightarrow> bool" where
  "starts_with p s \<longleftrightarrow> take (length p) s = p"

definition strip_prefix :: "string \<Rightarrow> string \<Rightarrow> string option" where
  "strip_prefix p s = (if starts_with p s then Some (drop (length p) s) else None)"

definition strip_suffix :: "string \<Rightarrow> string \<Rightarrow> string option" where
  "strip_suffix p s = map_option rev (strip_prefix (rev p) (rev s))"

fun split_once :: "char \<Rightarrow> string \<Rightarrow> (string \<times> string) option" where
  "split_once c [] = None"
| "split_once c (x # xs) =
     (if x = c then Some ([], xs)
      else map_option (\<lambda>(a, b). (x # a, b)) (split_once c xs))"

fun rfind :: "char \<Rightarrow> string \<Rightarrow> nat option" where
  "rfind c [] = None"
| "rfind c (x # xs) = (case rfind c xs of
       Some i \<Rightarrow> Some (Suc i)
     | None \<Rightarrow> if x = c then Some 0 else None)"

section \<open>Decimal numbers\<close>

definition digit_val :: "char \<Rightarrow> nat" where
  "digit_val c = byte c - 48"

definition digits_val :: "string \<Rightarrow> nat" where
  "digits_val s = foldl (\<lambda>n c. 10 * n + digit_val c) 0 s"

text \<open>
  \<open>str::parse\<close> into an unsigned type of range \<open>0..<bound\<close>: an optional plus sign, then at least
  one digit and nothing else; \<open>None\<close> for every \<open>ParseIntError\<close>.
\<close>

definition parse_nat :: "nat \<Rightarrow> string \<Rightarrow> nat option" where
  "parse_nat bound s =
     (let ds = (case s of [] \<Rightarrow> [] | c # cs \<Rightarrow> if c = CHR ''+'' then cs else s) in
      if ds = [] \<or> \<not> list_all is_ascii_digit ds then None
      else let n = digits_val ds in if n < bound then Some n else None)"

definition parse_u64 :: "string \<Rightarrow> u64 option" where
  "parse_u64 s = map_option of_nat (parse_nat (2 ^ 64) s)"

text \<open>\<open>Display\<close> for unsigned integers.\<close>

fun show_nat :: "nat \<Rightarrow> string" where
  "show_nat n = (if n < 10 then [char_of (48 + n)]
                 else show_nat (n div 10) @ [char_of (48 + n mod 10)])"

declare show_nat.simps [simp del]

definition show_u64 :: "u64 \<Rightarrow> string" where
  "show_u64 n = show_nat (unat n)"

section \<open>What the operations do on composed strings\<close>

text \<open>\<open>str_eval\<close> evaluates the operations on literals.\<close>

lemmas str_eval =
  byte_def is_ascii_digit_def is_ascii_hexdigit_def to_lower_char_def to_ascii_lowercase_def
  is_cont_def is_ascii_ws_def is_ws2_def is_ws3_def trim_def trim_end_def trim_end_matches_def
  trim_matches_def starts_with_def strip_prefix_def strip_suffix_def digit_val_def
  digits_val_def parse_nat_def parse_u64_def show_nat.simps show_u64_def char_of_def bit_iff_odd
  last_char_def trim_start.simps trim_rev.simps

lemma byte_char_of [simp]: "n < 256 \<Longrightarrow> byte (char_of n) = n"
  by (simp add: byte_def)

lemma byte_less [simp]: "byte c < 256"
  by (simp add: byte_def)

lemma byte_eq_iff: "byte c = byte d \<longleftrightarrow> c = d"
  by (simp add: byte_def)

lemma strip_prefix_append [simp, str_simps]: "strip_prefix p (p @ s) = Some s"
  by (simp add: strip_prefix_def starts_with_def)

lemma strip_prefix_Some_iff: "strip_prefix p s = Some r \<longleftrightarrow> s = p @ r"
proof
  assume "strip_prefix p s = Some r"
  then have "take (length p) s = p" and "r = drop (length p) s"
    by (auto simp: strip_prefix_def starts_with_def split: if_splits)
  then show "s = p @ r" by (metis append_take_drop_id)
qed simp

lemma strip_suffix_append [simp, str_simps]: "strip_suffix p (s @ p) = Some s"
  by (simp add: strip_suffix_def)

lemma starts_with_append [simp, str_simps]: "starts_with p (p @ s)"
  by (simp add: starts_with_def)

lemma split_once_append [str_simps]:
  "c \<notin> set a \<Longrightarrow> split_once c (a @ c # b) = Some (a, b)"
  by (induction a) auto

lemma split_once_None_iff: "split_once c s = None \<longleftrightarrow> c \<notin> set s"
  by (induction s) (auto split: if_splits)

lemma split_once_Some_iff:
  "split_once c s = Some (a, b) \<longleftrightarrow> s = a @ c # b \<and> c \<notin> set a"
proof
  show "split_once c s = Some (a, b) \<Longrightarrow> s = a @ c # b \<and> c \<notin> set a"
    by (induction s arbitrary: a b) (auto split: if_splits)
qed (auto simp: split_once_append)

lemma rfind_None_iff: "rfind c s = None \<longleftrightarrow> c \<notin> set s"
  by (induction s) (auto split: option.splits)

lemma rfind_append [str_simps]: "c \<notin> set b \<Longrightarrow> rfind c (a @ c # b) = Some (length a)"
  by (induction a) (auto simp: rfind_None_iff [THEN iffD2])

lemma rfind_Some_iff:
  "rfind c s = Some i \<longleftrightarrow> (\<exists>a b. s = a @ c # b \<and> length a = i \<and> c \<notin> set b)"
proof
  show "rfind c s = Some i \<Longrightarrow> \<exists>a b. s = a @ c # b \<and> length a = i \<and> c \<notin> set b"
  proof (induction s arbitrary: i)
    case (Cons x xs)
    show ?case
    proof (cases "rfind c xs")
      case None
      with Cons.prems show ?thesis by (auto simp: rfind_None_iff split: if_splits)
    next
      case (Some j)
      with Cons.IH obtain a b where "xs = a @ c # b" "length a = j" "c \<notin> set b" by blast
      with Some Cons.prems show ?thesis by (intro exI [of _ "x # a"] exI [of _ b]) auto
    qed
  qed simp
qed (auto simp: rfind_append)

subsection \<open>Trimming\<close>

text \<open>A string whose two ends are ASCII and not white space is left alone.\<close>

definition solid_char :: "char \<Rightarrow> bool" where
  "solid_char c \<longleftrightarrow> byte c < 128 \<and> \<not> is_ascii_ws c"

lemma trim_start_solid: "solid_char c \<Longrightarrow> trim_start (c # s) = c # s"
  by (cases "c # s" rule: trim_start.cases) (auto simp: solid_char_def is_ws2_def is_ws3_def)

lemma trim_rev_solid: "solid_char c \<Longrightarrow> trim_rev (c # s) = c # s"
  by (cases "c # s" rule: trim_rev.cases) (auto simp: solid_char_def is_ws2_def is_ws3_def)

lemma trim_end_solid: "s \<noteq> [] \<Longrightarrow> solid_char (last s) \<Longrightarrow> trim_end s = s"
  by (cases s rule: rev_cases) (auto simp: trim_end_def trim_rev_solid)

lemma trim_solid [str_simps]:
  "s \<noteq> [] \<Longrightarrow> solid_char (hd s) \<Longrightarrow> solid_char (last s) \<Longrightarrow> trim s = s"
  by (cases s) (auto simp: trim_def trim_start_solid trim_end_solid)

lemma trim_start_blank [str_simps]: "trim_start (CHR '' '' # s) = trim_start s"
  by (cases "CHR '' '' # s" rule: trim_start.cases) (auto simp: is_ascii_ws_def byte_def)

lemma trim_blank [str_simps]: "trim (CHR '' '' # s) = trim s"
  by (simp add: trim_def trim_start_blank)

lemma trim_start_suffix: "\<exists>p. s = p @ trim_start s"
proof (induction s rule: trim_start.induct)
  case (2 a)
  show ?case by simp
next
  case (3 a b)
  show ?case
  proof (cases "is_ascii_ws a")
    case True
    then obtain p where "[b] = p @ trim_start [b]" using "3.IH" by blast
    then show ?thesis using True by (intro exI [of _ "a # p"]) simp
  qed simp
next
  case (4 a b c s)
  consider "is_ascii_ws a" | "\<not> is_ascii_ws a" "is_ws2 (byte a) (byte b)"
    | "\<not> is_ascii_ws a" "\<not> is_ws2 (byte a) (byte b)" "is_ws3 (byte a) (byte b) (byte c)"
    | "\<not> is_ascii_ws a" "\<not> is_ws2 (byte a) (byte b)" "\<not> is_ws3 (byte a) (byte b) (byte c)"
    by blast
  then show ?case
  proof cases
    case 1
    then obtain p where "b # c # s = p @ trim_start (b # c # s)" using "4.IH"(1) by blast
    then show ?thesis using 1 by (intro exI [of _ "a # p"]) simp
  next
    case 2
    then obtain p where "c # s = p @ trim_start (c # s)" using "4.IH"(2) by blast
    then show ?thesis using 2 by (intro exI [of _ "a # b # p"]) simp
  next
    case 3
    then obtain p where "s = p @ trim_start s" using "4.IH"(3) by blast
    then show ?thesis using 3 by (intro exI [of _ "a # b # c # p"]) simp
  qed simp
qed simp

lemma trim_rev_suffix: "\<exists>p. s = p @ trim_rev s"
proof (induction s rule: trim_rev.induct)
  case (3 a b)
  show ?case
  proof (cases "is_ascii_ws a")
    case True
    then obtain p where "[b] = p @ trim_rev [b]" using "3.IH" by blast
    then show ?thesis using True by (intro exI [of _ "a # p"]) simp
  qed simp
next
  case (4 a b c s)
  consider "is_ascii_ws a" | "\<not> is_ascii_ws a" "is_ws2 (byte b) (byte a)"
    | "\<not> is_ascii_ws a" "\<not> is_ws2 (byte b) (byte a)" "is_ws3 (byte c) (byte b) (byte a)"
    | "\<not> is_ascii_ws a" "\<not> is_ws2 (byte b) (byte a)" "\<not> is_ws3 (byte c) (byte b) (byte a)"
    by blast
  then show ?case
  proof cases
    case 1
    then obtain p where "b # c # s = p @ trim_rev (b # c # s)" using "4.IH"(1) by blast
    then show ?thesis using 1 by (intro exI [of _ "a # p"]) simp
  next
    case 2
    then obtain p where "c # s = p @ trim_rev (c # s)" using "4.IH"(2) by blast
    then show ?thesis using 2 by (intro exI [of _ "a # b # p"]) simp
  next
    case 3
    then obtain p where "s = p @ trim_rev s" using "4.IH"(3) by blast
    then show ?thesis using 3 by (intro exI [of _ "a # b # c # p"]) simp
  qed simp
qed simp_all

text \<open>White space is trimmed only up to a solid character.\<close>

lemma trim_rev_append_solid:
  "solid_char c \<Longrightarrow> trim_rev (s @ c # t) = trim_rev s @ c # t"
proof (induction s rule: trim_rev.induct)
  case (2 a)
  then show ?case
    by (cases t) (auto simp: trim_rev_solid solid_char_def is_ws2_def is_ws3_def)
next
  case (3 a b)
  then show ?case
    by (auto simp: trim_rev_solid solid_char_def is_ws2_def is_ws3_def)
qed (auto simp: trim_rev_solid)

lemma trim_end_append_solid: "solid_char c \<Longrightarrow> trim_end (t @ c # s) = t @ c # trim_end s"
  using trim_rev_append_solid [of c "rev s" "rev t"] by (simp add: trim_end_def)

subsection \<open>What trimming, splitting and searching return is part of the string\<close>

lemma sublist_trim_start [intro]: "sublist (trim_start s) s"
  using trim_start_suffix [of s] by (metis sublist_append_leftI sublist_order.order.refl)

lemma sublist_trim_end [intro]: "sublist (trim_end s) s"
proof -
  obtain p where "rev s = p @ trim_rev (rev s)" using trim_rev_suffix by blast
  then have "s = trim_end s @ rev p" unfolding trim_end_def by (metis rev_append rev_rev_ident)
  then show ?thesis by (metis sublist_append_rightI)
qed

lemma sublist_trim [intro]: "sublist (trim s) s"
  unfolding trim_def using sublist_trim_start sublist_trim_end sublist_order.order_trans by blast

lemma sublist_trim_matches [intro]: "sublist (trim_matches c s) s"
proof -
  have "sublist (dropWhile (\<lambda>x. x = c) x) x" for x
    by (metis sublist_append_leftI takeWhile_dropWhile_id)
  moreover have "sublist (trim_end_matches c x) x" for x
    using calculation [of "rev x"] unfolding trim_end_matches_def
    by (metis rev_rev_ident sublist_rev)
  ultimately show ?thesis unfolding trim_matches_def using sublist_order.order_trans by blast
qed

lemma split_once_sublist:
  "split_once c s = Some (a, b) \<Longrightarrow> sublist a s \<and> sublist b s"
  unfolding split_once_Some_iff by (auto intro: sublist_appendI sublist_append_leftI)
    (metis append_Cons append_Nil sublist_appendI sublist_append_leftI append_assoc)

lemma strip_prefix_sublist: "strip_prefix p s = Some r \<Longrightarrow> sublist r s"
  unfolding strip_prefix_Some_iff by simp

lemma dropWhile_absent: "c \<notin> set s \<Longrightarrow> dropWhile (\<lambda>x. x = c) s = s"
  by (cases s) auto

lemma trim_matches_quoted [str_simps]:
  assumes "c \<notin> set s"
  shows "trim_matches c (c # s @ [c]) = s"
proof -
  have d: "dropWhile (\<lambda>x. x = c) (s @ [c]) = (if s = [] then [] else s @ [c])"
    using assms by (cases s) auto
  have r: "dropWhile (\<lambda>x. x = c) (rev s) = rev s"
    using assms by (intro dropWhile_absent) simp
  show ?thesis using r by (simp add: trim_matches_def trim_end_matches_def d)
qed

declare trim_start.simps [simp del] trim_rev.simps [simp del]

subsection \<open>Lower-casing\<close>

lemma to_lower_char_idem [simp]: "to_lower_char (to_lower_char c) = to_lower_char c"
  by (simp add: to_lower_char_def)

lemma to_ascii_lowercase_idem [simp]:
  "to_ascii_lowercase (to_ascii_lowercase s) = to_ascii_lowercase s"
  by (simp add: to_ascii_lowercase_def)

lemma to_ascii_lowercase_append [str_simps]:
  "to_ascii_lowercase (a @ b) = to_ascii_lowercase a @ to_ascii_lowercase b"
  by (simp add: to_ascii_lowercase_def)

lemma to_ascii_lowercase_Cons [str_simps]:
  "to_ascii_lowercase (c # b) = to_lower_char c # to_ascii_lowercase b"
  by (simp add: to_ascii_lowercase_def)

lemma to_ascii_lowercase_id:
  "(\<And>c. c \<in> set s \<Longrightarrow> to_lower_char c = c) \<Longrightarrow> to_ascii_lowercase s = s"
  by (simp add: to_ascii_lowercase_def map_idI)

lemma to_lower_char_digit: "is_ascii_digit c \<Longrightarrow> to_lower_char c = c"
  by (simp add: is_ascii_digit_def to_lower_char_def)

subsection \<open>Decimal numbers\<close>

lemma show_nat_digit: "n < 10 \<Longrightarrow> show_nat n = [char_of (48 + n)]"
  by (simp add: show_nat.simps)

lemma show_nat_ne [simp]: "show_nat n \<noteq> []"
  by (subst show_nat.simps) simp

lemma is_ascii_digit_char_of: "(n :: nat) < 10 \<Longrightarrow> is_ascii_digit (char_of (48 + n))"
  by (simp add: is_ascii_digit_def)

lemma show_nat_digits: "list_all is_ascii_digit (show_nat n)"
proof (induction n rule: show_nat.induct)
  case (1 n)
  show ?case
  proof (cases "n < 10")
    case True
    then show ?thesis by (simp add: show_nat_digit is_ascii_digit_char_of)
  next
    case False
    with 1 have "list_all is_ascii_digit (show_nat (n div 10))" by simp
    with False show ?thesis
      by (subst show_nat.simps) (simp add: is_ascii_digit_char_of)
  qed
qed

lemma digits_val_snoc: "digits_val (s @ [c]) = 10 * digits_val s + digit_val c"
  by (simp add: digits_val_def)

lemma digits_val_show_nat [simp]: "digits_val (show_nat n) = n"
proof (induction n rule: show_nat.induct)
  case (1 n)
  show ?case
  proof (cases "n < 10")
    case True
    then show ?thesis by (simp add: show_nat_digit digits_val_def digit_val_def)
  next
    case False
    with 1 have "digits_val (show_nat (n div 10)) = n div 10" by simp
    with False show ?thesis
      by (subst show_nat.simps) (simp add: digits_val_snoc digit_val_def)
  qed
qed

lemma plus_not_digit: "\<not> is_ascii_digit (CHR ''+'')"
  by (simp add: is_ascii_digit_def byte_def)

lemma parse_nat_digits:
  assumes "ds \<noteq> []" and "list_all is_ascii_digit ds"
  shows "parse_nat b ds = (if digits_val ds < b then Some (digits_val ds) else None)"
proof -
  have "(case ds of [] \<Rightarrow> [] | c # cs \<Rightarrow> if c = CHR ''+'' then cs else ds) = ds"
    using assms plus_not_digit by (cases ds) auto
  then show ?thesis using assms by (simp add: parse_nat_def Let_def)
qed

lemma parse_u64_digits:
  assumes "ds \<noteq> []" and "list_all is_ascii_digit ds"
  shows "parse_u64 ds = (if digits_val ds < 2 ^ 64 then Some (of_nat (digits_val ds)) else None)"
  by (simp add: parse_u64_def parse_nat_digits [OF assms])

lemma parse_show_u64 [simp]: "parse_u64 (show_u64 n) = Some n"
  by (simp add: show_u64_def parse_u64_digits show_nat_digits)

end
