(* ===== verification/Proto_Types.thy ===== *)
theory Proto_Types
  imports Rust_Str
begin

text \<open>
  The types of \<open>crates/l402-proto\<close> that every other crate shares: the protocol errors
  (\<open>error.rs\<close>), the client errors (\<open>client_error.rs\<close>) with their \<open>Display\<close> texts, the result
  types of the Lightning port (\<open>port.rs\<close>), and the token store port as a locale whose laws are
  the contract the client relies on.
\<close>

section \<open>Errors\<close>

datatype l402_error =
    InvalidChallenge string
  | InvalidMacaroon string
  | InvalidInvoice string
  | PreimageMismatch string string
  | InvalidToken string
  | Base64Decode string

fun l402_error_display :: "l402_error \<Rightarrow> string" where
  "l402_error_display (InvalidChallenge reason) = ''invalid L402 challenge: '' @ reason"
| "l402_error_display (InvalidMacaroon reason) = ''invalid macaroon: '' @ reason"
| "l402_error_display (InvalidInvoice reason) = ''invalid invoice: '' @ reason"
| "l402_error_display (PreimageMismatch expected actual) =
     ''preimage mismatch: expected '' @ expected @ '', got '' @ actual"
| "l402_error_display (InvalidToken reason) = ''invalid token: '' @ reason"
| "l402_error_display (Base64Decode e) = ''base64 decode error: '' @ e"

datatype client_error =
    FeeLimitUnsupported
  | PaymentRejected string
  | PaymentUncertain
  | Protocol l402_error
  | PaymentFailed string
  | BudgetExceeded string
  | MissingChallenge
  | InvoiceExpired
  | RetryFailed string
  | Backend string
  | Http string

fun client_error_display :: "client_error \<Rightarrow> string" where
  "client_error_display FeeLimitUnsupported = ''backend cannot enforce a routing-fee limit''"
| "client_error_display (PaymentRejected reason) =
     ''payment rejected without settlement: '' @ reason"
| "client_error_display PaymentUncertain =
     ''payment is in progress or its outcome is unknown; reconcile with the wallet before retrying''"
| "client_error_display (Protocol e) = ''L402 protocol error: '' @ l402_error_display e"
| "client_error_display (PaymentFailed reason) = ''payment failed: '' @ reason"
| "client_error_display (BudgetExceeded reason) = ''budget exceeded: '' @ reason"
| "client_error_display MissingChallenge =
     ''server returned 402 but no valid WWW-Authenticate header''"
| "client_error_display InvoiceExpired = ''invoice expired''"
| "client_error_display (RetryFailed reason) = ''retry after payment failed: '' @ reason"
| "client_error_display (Backend reason) = ''backend error: '' @ reason"
| "client_error_display (Http reason) = ''HTTP error: '' @ reason"

section \<open>The Lightning port\<close>

record payment_result =
  pr_preimage :: string
  pr_payment_hash :: string
  pr_amount_sats :: u64
  pr_fee_sats :: u64

record node_info =
  ni_pubkey :: string
  ni_alias :: string
  ni_num_active_channels :: u32

section \<open>The token store port\<close>

text \<open>
  The calls a client makes on a store, in order, and the map a store that never forgets would
  hold after them. A store may evict, so the port promises only that what it returns is what the
  map holds.
\<close>

datatype store_op =
    Put string string string
  | Remove string
  | Clear

fun reference_step :: "(string \<rightharpoonup> string \<times> string) \<Rightarrow> store_op \<Rightarrow> (string \<rightharpoonup> string \<times> string)" where
  "reference_step m (Put endpoint macaroon preimage) = m(endpoint \<mapsto> (macaroon, preimage))"
| "reference_step m (Remove endpoint) = m(endpoint := None)"
| "reference_step m Clear = (\<lambda>_. None)"

text \<open>A call that does not touch an endpoint.\<close>

fun op_spares :: "string \<Rightarrow> store_op \<Rightarrow> bool" where
  "op_spares e (Put endpoint _ _) \<longleftrightarrow> endpoint \<noteq> e"
| "op_spares e (Remove endpoint) \<longleftrightarrow> endpoint \<noteq> e"
| "op_spares e Clear \<longleftrightarrow> False"

lemma op_spares_step: "op_spares e c \<Longrightarrow> reference_step r c e = r e"
  by (cases c) auto

definition reference_store :: "store_op list \<Rightarrow> (string \<rightharpoonup> string \<times> string)" where
  "reference_store ops = foldl reference_step (\<lambda>_. None) ops"

text \<open>
  The least a store promises, whatever it evicts, drops or fails to do: it stores a credential only where it
  was put, and a lookup answers what the state stands for (\<open>holds\<close>). The calls of a store that outlives its
  process differ in their conditions \<open>q\<close>: the time, and whether what the store relies on fails;
  \<open>may q\<close> says that a call can occur.
\<close>

locale confining_store =
  fixes put :: "'q \<Rightarrow> 's \<Rightarrow> string \<Rightarrow> string \<Rightarrow> string \<Rightarrow> (unit, client_error) rres \<times> 's"
    and get :: "'q \<Rightarrow> 's \<Rightarrow> string \<Rightarrow> ((string \<times> string) option, client_error) rres"
    and remove :: "'q \<Rightarrow> 's \<Rightarrow> string \<Rightarrow> (unit, client_error) rres \<times> 's"
    and may :: "'q \<Rightarrow> bool"
    and inv :: "'s \<Rightarrow> bool"
    and holds :: "'s \<Rightarrow> (string \<rightharpoonup> string \<times> string)"
  assumes put_inv: "may q \<Longrightarrow> inv s \<Longrightarrow> inv (snd (put q s e m p))"
    and remove_inv: "may q \<Longrightarrow> inv s \<Longrightarrow> inv (snd (remove q s e))"
    and put_below: "may q \<Longrightarrow> inv s \<Longrightarrow> holds (snd (put q s e m p)) e' = Some c \<Longrightarrow>
          holds s e' = Some c \<or> e' = e \<and> c = (m, p)"
    and remove_below: "may q \<Longrightarrow> inv s \<Longrightarrow> holds (snd (remove q s e)) e' = Some c \<Longrightarrow> holds s e' = Some c"
    and get_below: "may q \<Longrightarrow> inv s \<Longrightarrow> get q s e = Ok (Some c) \<Longrightarrow> holds s e = Some c"

text \<open>A store in memory, whose calls do not fail.\<close>

definition answer_of :: "('a option, 'e) rres \<Rightarrow> 'a option" where
  "answer_of r = (case r of Ok v \<Rightarrow> v | _ \<Rightarrow> None)"

lemma answer_of_Some: "answer_of r = Some c \<longleftrightarrow> r = Ok (Some c)"
  by (auto simp: answer_of_def split: rres.splits)

locale token_store =
  fixes put :: "'s \<Rightarrow> string \<Rightarrow> string \<Rightarrow> string \<Rightarrow> (unit, client_error) rres \<times> 's"
    and get :: "'s \<Rightarrow> string \<Rightarrow> ((string \<times> string) option, client_error) rres"
    and remove :: "'s \<Rightarrow> string \<Rightarrow> (unit, client_error) rres \<times> 's"
    and clear :: "'s \<Rightarrow> (unit, client_error) rres \<times> 's"
    and inv :: "'s \<Rightarrow> bool"
  assumes put_inv: "inv s \<Longrightarrow> inv (snd (put s e m p))"
    and remove_inv: "inv s \<Longrightarrow> inv (snd (remove s e))"
    and clear_inv: "inv s \<Longrightarrow> inv (snd (clear s))"
    and get_put_same: "inv s \<Longrightarrow> get (snd (put s e m p)) e = Ok (Some (m, p))"
    and get_put_other: "inv s \<Longrightarrow> e' \<noteq> e \<Longrightarrow>
          get (snd (put s e m p)) e' = get s e' \<or> get (snd (put s e m p)) e' = Ok None"
    and get_remove: "inv s \<Longrightarrow>
          get (snd (remove s e)) e' = (if e' = e then Ok None else get s e')"
    and get_clear: "inv s \<Longrightarrow> get (snd (clear s)) e = Ok None"
    and get_total: "inv s \<Longrightarrow> \<exists>v. get s e = Ok v"
begin

definition apply_op :: "'s \<Rightarrow> store_op \<Rightarrow> 's" where
  "apply_op s c = (case c of Put e m p \<Rightarrow> snd (put s e m p)
                     | Remove e \<Rightarrow> snd (remove s e) | Clear \<Rightarrow> snd (clear s))"

lemma apply_op_inv: "inv s \<Longrightarrow> inv (apply_op s c)"
  by (cases c) (auto simp: apply_op_def intro: put_inv remove_inv clear_inv)

lemma run_inv: "inv s \<Longrightarrow> inv (foldl apply_op s ops)"
  by (induction ops arbitrary: s) (auto intro: apply_op_inv)

text \<open>It is a confining store, all of whose calls meet the same conditions.\<close>

sublocale one: confining_store "\<lambda>_ :: unit. put" "\<lambda>_. get" "\<lambda>_. remove" "\<lambda>_. True" inv "\<lambda>s e. answer_of (get s e)"
proof (unfold_locales, goal_cases)
  case (3 q s e m p e' c)
  then show ?case using get_put_same [OF 3(2), of e m p] get_put_other [OF 3(2), of e' e m p]
    by (cases "e' = e") (auto simp: answer_of_Some)
next
  case (4 q s e e' c)
  then show ?case using get_remove [OF 4(2), of e e'] by (cases "e' = e") (auto simp: answer_of_Some)
qed (auto simp: answer_of_Some intro: put_inv remove_inv)

text \<open>Every credential a store hands out agrees with the reference map.\<close>

definition below :: "'s \<Rightarrow> (string \<rightharpoonup> string \<times> string) \<Rightarrow> bool" where
  "below s r \<longleftrightarrow> (\<forall>e. get s e = Ok (r e) \<or> get s e = Ok None)"

lemma apply_op_below: "inv s \<Longrightarrow> below s r \<Longrightarrow> below (apply_op s c) (reference_step r c)"
proof (cases c)
  case (Put e m p)
  assume i: "inv s" and b: "below s r"
  show ?thesis unfolding below_def
  proof
    fix e'
    show "get (apply_op s c) e' = Ok (reference_step r c e') \<or> get (apply_op s c) e' = Ok None"
    proof (cases "e' = e")
      case True
      then show ?thesis using get_put_same [OF i, of e m p] by (simp add: Put apply_op_def)
    next
      case False
      then show ?thesis using get_put_other [OF i False, of m p] b
        by (auto simp: Put apply_op_def below_def)
    qed
  qed
qed (auto simp: apply_op_def below_def get_remove get_clear)

lemma run_below: "inv s \<Longrightarrow> below s r \<Longrightarrow> below (foldl apply_op s ops) (foldl reference_step r ops)"
  by (induction ops arbitrary: s r) (auto intro: apply_op_below apply_op_inv)

lemma handed_out_was_put:
  assumes "inv s" and "\<And>e. get s e = Ok None"
    and "get (foldl apply_op s ops) e = Ok (Some c)"
  shows "reference_store ops e = Some c"
proof -
  have "below s (\<lambda>_. None)" using assms(2) by (simp add: below_def)
  from run_below [OF assms(1) this, of ops] assms(3) show ?thesis
    by (auto simp: below_def reference_store_def dest: spec [of _ e])
qed

end

text \<open>
  A store that outlives its process and evicts nothing. \<open>sound q\<close> says that what the store relies on does
  not fail during the call; then the call succeeds. A call that reports an error has not changed what
  the state stands for; one that does not is exact.
\<close>

locale timed_store =
  fixes put :: "'q \<Rightarrow> 's \<Rightarrow> string \<Rightarrow> string \<Rightarrow> string \<Rightarrow> (unit, client_error) rres \<times> 's"
    and get :: "'q \<Rightarrow> 's \<Rightarrow> string \<Rightarrow> ((string \<times> string) option, client_error) rres"
    and remove :: "'q \<Rightarrow> 's \<Rightarrow> string \<Rightarrow> (unit, client_error) rres \<times> 's"
    and clear :: "'q \<Rightarrow> 's \<Rightarrow> (unit, client_error) rres \<times> 's"
    and may :: "'q \<Rightarrow> bool"
    and sound :: "'q \<Rightarrow> bool"
    and inv :: "'s \<Rightarrow> bool"
    and holds :: "'s \<Rightarrow> (string \<rightharpoonup> string \<times> string)"
  assumes sound_may: "sound q \<Longrightarrow> may q"
    and put_keeps: "may q \<Longrightarrow> inv s \<Longrightarrow> inv (snd (put q s e m p))"
    and remove_keeps: "may q \<Longrightarrow> inv s \<Longrightarrow> inv (snd (remove q s e))"
    and clear_keeps: "may q \<Longrightarrow> inv s \<Longrightarrow> inv (snd (clear q s))"
    and put_holds: "may q \<Longrightarrow> inv s \<Longrightarrow> holds (snd (put q s e m p)) =
          (if fst (put q s e m p) = Ok () then (holds s)(e \<mapsto> (m, p)) else holds s)"
    and remove_holds: "may q \<Longrightarrow> inv s \<Longrightarrow> holds (snd (remove q s e)) =
          (if fst (remove q s e) = Ok () then (holds s)(e := None) else holds s)"
    and clear_holds: "may q \<Longrightarrow> inv s \<Longrightarrow> holds (snd (clear q s)) =
          (if fst (clear q s) = Ok () then (\<lambda>_. None) else holds s)"
    and get_answers: "may q \<Longrightarrow> inv s \<Longrightarrow> get q s e = Ok v \<Longrightarrow> v = holds s e"
    and get_sound: "sound q \<Longrightarrow> inv s \<Longrightarrow> get q s e = Ok (holds s e)"
    and put_sound: "may q \<Longrightarrow> inv s \<Longrightarrow> fst (put q s e m p) = Ok () \<longleftrightarrow> sound q"
    and remove_sound: "may q \<Longrightarrow> inv s \<Longrightarrow> fst (remove q s e) = Ok () \<longleftrightarrow> sound q"
    and clear_sound: "may q \<Longrightarrow> inv s \<Longrightarrow> fst (clear q s) = Ok () \<longleftrightarrow> sound q"
begin

sublocale confining_store put get remove may inv holds
  by unfold_locales
    (auto simp: put_keeps remove_keeps put_holds remove_holds dest: get_answers split: if_splits)

definition call_op :: "'s \<Rightarrow> 'q \<times> store_op \<Rightarrow> 's" where
  "call_op s c = (case snd c of Put e m p \<Rightarrow> snd (put (fst c) s e m p)
                    | Remove e \<Rightarrow> snd (remove (fst c) s e) | Clear \<Rightarrow> snd (clear (fst c) s))"

lemma call_op_keeps: "may (fst c) \<Longrightarrow> inv s \<Longrightarrow> inv (call_op s c)"
  by (cases "snd c") (auto simp: call_op_def intro: put_keeps remove_keeps clear_keeps)

lemma call_op_holds:
  "may (fst c) \<Longrightarrow> inv s \<Longrightarrow>
     holds (call_op s c) = (if sound (fst c) then reference_step (holds s) (snd c) else holds s)"
  by (cases "snd c")
    (simp_all add: call_op_def put_holds remove_holds clear_holds put_sound remove_sound clear_sound)

lemma calls_keep: "\<forall>c \<in> set cs. may (fst c) \<Longrightarrow> inv s \<Longrightarrow> inv (foldl call_op s cs)"
  by (induction cs arbitrary: s) (auto intro: call_op_keeps)

text \<open>The store holds what the calls that did not fail made of it.\<close>

lemma calls_hold:
  "\<forall>c \<in> set cs. may (fst c) \<Longrightarrow> inv s \<Longrightarrow>
     holds (foldl call_op s cs) = foldl reference_step (holds s) (map snd (filter (\<lambda>c. sound (fst c)) cs))"
  by (induction cs arbitrary: s) (auto simp: call_op_holds call_op_keeps)

lemma calls_hold_untouched:
  assumes "\<forall>c \<in> set cs. may (fst c)" and "inv s"
    and "\<forall>c \<in> set cs. op_spares e (snd c)"
  shows "holds (foldl call_op s cs) e = holds s e"
  using assms
proof (induction cs arbitrary: s)
  case (Cons c cs)
  then show ?case using Cons.IH [of "call_op s c"] call_op_holds [of c s]
    by (simp add: call_op_keeps op_spares_step)
qed simp

end

end
