(* ===== verification/Bolt11.thy ===== *)
theory Bolt11
  imports Proto_Types
begin

text \<open>
  \<open>crates/l402-proto/src/bolt11.rs\<close>: the amount of a BOLT11 invoice, in millisatoshis.
\<close>

datatype invoice_amount = InvoiceAmount (millisatoshis: u64)

definition from_millisatoshis :: "u64 \<Rightarrow> invoice_amount" where
  "from_millisatoshis m = InvoiceAmount m"

definition from_satoshis :: "u64 \<Rightarrow> (invoice_amount, 'e) rres" where
  "from_satoshis s = rbind (mul_u64 s 1000) (\<lambda>m. Ok (InvoiceAmount m))"

definition satoshis :: "invoice_amount \<Rightarrow> u64" where
  "satoshis a = div_ceil (millisatoshis a) 1000"

definition satoshis_floor :: "invoice_amount \<Rightarrow> u64" where
  "satoshis_floor a = millisatoshis a div 1000"

definition MULTIPLIERS :: "(char \<times> u64) list" where
  "MULTIPLIERS = [(CHR ''m'', 100000000), (CHR ''u'', 100000), (CHR ''n'', 100), (CHR ''p'', 0)]"

definition BTC_TO_MSAT :: u64 where
  "BTC_TO_MSAT = 100000000000"

definition parse_integer :: "string \<Rightarrow> (u64, l402_error) rres" where
  "parse_integer number_str =
     (if number_str = [] \<or> \<not> list_all is_ascii_digit number_str
      then Err (InvalidInvoice ''invoice amount must contain only decimal digits'')
      else ok_or (InvalidInvoice ''invoice amount exceeds the supported range'')
             (parse_u64 number_str))"

definition checked_msat :: "u64 \<Rightarrow> u64 \<Rightarrow> (u64, l402_error) rres" where
  "checked_msat v factor =
     ok_or (InvalidInvoice ''invoice amount exceeds the supported millisatoshi range'')
       (checked_mul v factor)"

definition parse_amount_with_multiplier :: "string \<Rightarrow> char \<Rightarrow> u64 \<Rightarrow> (u64, l402_error) rres" where
  "parse_amount_with_multiplier number_str multiplier factor =
     rbind (parse_integer number_str) (\<lambda>v.
       if multiplier = CHR ''p'' then
         (if v mod 10 \<noteq> 0
          then Err (InvalidInvoice ''picobitcoin amount must be a multiple of 10'')
          else Ok (v div 10))
       else checked_msat v factor)"

definition parse_amount_btc :: "string \<Rightarrow> (u64, l402_error) rres" where
  "parse_amount_btc number_str =
     rbind (parse_integer number_str) (\<lambda>v. checked_msat v BTC_TO_MSAT)"

text \<open>The four networks, tried in the order of the source.\<close>

definition strip_network :: "string \<Rightarrow> string option" where
  "strip_network s =
     (case strip_prefix ''lnbcrt'' s of Some rest \<Rightarrow> Some rest | None \<Rightarrow>
     (case strip_prefix ''lnbc'' s of Some rest \<Rightarrow> Some rest | None \<Rightarrow>
     (case strip_prefix ''lntbs'' s of Some rest \<Rightarrow> Some rest | None \<Rightarrow>
      strip_prefix ''lntb'' s)))"

text \<open>The amount between the network and the separator; \<open>None\<close> if it is absent.\<close>

definition decode_amount_str :: "string \<Rightarrow> (invoice_amount option, l402_error) rres" where
  "decode_amount_str amount_str =
     (if amount_str = [] then Ok None
      else let l = last amount_str in
        rbind
          (case map_of MULTIPLIERS l of
             Some factor \<Rightarrow> Ok (butlast amount_str, Some factor)
           | None \<Rightarrow>
               if is_ascii_digit l then Ok (amount_str, None)
               else Err (InvalidInvoice
                      (''unknown amount multiplier: '' @ squoted (last_char amount_str))))
          (\<lambda>(number_str, multiplier_msat).
             if number_str = []
             then Err (InvalidInvoice ''amount multiplier present but no numeric value'')
             else rbind
               (case multiplier_msat of
                  Some factor \<Rightarrow> parse_amount_with_multiplier number_str l factor
                | None \<Rightarrow> parse_amount_btc number_str)
               (\<lambda>msat. if msat = 0
                  then Err (InvalidInvoice ''invoice amount must be positive (got 0)'')
                  else Ok (Some (InvoiceAmount msat)))))"

definition decode_bolt11_amount :: "string \<Rightarrow> (invoice_amount option, l402_error) rres" where
  "decode_bolt11_amount invoice =
     (let invoice_lower = to_ascii_lowercase invoice in
      rbind (ok_or (InvalidInvoice
               (''invoice must start with '' @ squoted ''lnbc'' @ '', '' @ squoted ''lntb''
                @ '', '' @ squoted ''lnbcrt'' @ '', or '' @ squoted ''lntbs''))
               (strip_network invoice_lower))
        (\<lambda>after_network.
           rbind (ok_or (InvalidInvoice
                    (''missing '' @ squoted ''1'' @ '' separator between human-readable and data parts''))
                    (rfind (CHR ''1'') after_network))
             (\<lambda>separator_pos. decode_amount_str (take separator_pos after_network))))"

section \<open>What the decoder computes\<close>

text \<open>The millisatoshis that a number and a multiplier stand for, on natural numbers.\<close>

definition msat_value :: "nat \<Rightarrow> string \<Rightarrow> nat option" where
  "msat_value n mult =
     (if mult = ''m'' then Some (n * 100000000)
      else if mult = ''u'' then Some (n * 100000)
      else if mult = ''n'' then Some (n * 100)
      else if mult = ''p'' then (if n mod 10 = 0 then Some (n div 10) else None)
      else if mult = [] then Some (n * 100000000000)
      else None)"

lemma multiplier_lookup:
  "map_of MULTIPLIERS (CHR ''m'') = Some 100000000" "map_of MULTIPLIERS (CHR ''u'') = Some 100000"
  "map_of MULTIPLIERS (CHR ''n'') = Some 100" "map_of MULTIPLIERS (CHR ''p'') = Some 0"
  by (simp_all add: MULTIPLIERS_def)

lemma multiplier_cases:
  "map_of MULTIPLIERS c = Some f \<Longrightarrow>
     (c = CHR ''m'' \<and> f = 100000000) \<or> (c = CHR ''u'' \<and> f = 100000)
     \<or> (c = CHR ''n'' \<and> f = 100) \<or> (c = CHR ''p'' \<and> f = 0)"
  by (auto simp: MULTIPLIERS_def split: if_splits)

lemma multiplier_not_digit: "is_ascii_digit c \<Longrightarrow> map_of MULTIPLIERS c = None"
  by (auto simp: MULTIPLIERS_def is_ascii_digit_def byte_def)

lemma parse_integer_Ok_iff:
  "parse_integer s = Ok v \<longleftrightarrow> s \<noteq> [] \<and> list_all is_ascii_digit s \<and> unat v = digits_val s"
  using unat_u64_less [of v]
  by (auto simp: parse_integer_def parse_u64_digits unat_of_nat word_unat_eq_iff
      simp del: unat_u64_less)

lemma parse_integer_not_Panic [simp]: "parse_integer s \<noteq> Panic"
  by (simp add: parse_integer_def)

lemma checked_msat_Ok_iff: "checked_msat v f = Ok r \<longleftrightarrow> unat r = unat v * unat f"
  by (simp add: checked_msat_def checked_mul_Some_iff)

lemma checked_msat_not_Panic [simp]: "checked_msat v f \<noteq> Panic"
  by (simp add: checked_msat_def)


lemma parse_amount_with_multiplier_Ok_iff:
  assumes "map_of MULTIPLIERS c = Some f"
  shows "parse_amount_with_multiplier s c f = Ok r \<longleftrightarrow>
    s \<noteq> [] \<and> list_all is_ascii_digit s \<and> digits_val s < 2 ^ 64
      \<and> msat_value (digits_val s) [c] = Some (unat r)"
  using multiplier_cases [OF assms] unfolding fits_u64_iff
  by (auto simp: parse_amount_with_multiplier_def rbind_Ok_iff parse_integer_Ok_iff msat_value_def
      checked_msat_Ok_iff unat_div unat_mod word_unat_eq_iff)
    (metis dvd_imp_mod_0)

lemma parse_amount_btc_Ok_iff:
  "parse_amount_btc s = Ok r \<longleftrightarrow>
    s \<noteq> [] \<and> list_all is_ascii_digit s \<and> digits_val s < 2 ^ 64
      \<and> msat_value (digits_val s) [] = Some (unat r)"
  unfolding fits_u64_iff
  by (auto simp: parse_amount_btc_def rbind_Ok_iff parse_integer_Ok_iff msat_value_def
      checked_msat_Ok_iff BTC_TO_MSAT_def)


lemma msat_value_Some_cases:
  "msat_value n mult = Some m \<Longrightarrow> mult \<in> {''m'', ''u'', ''n'', ''p'', []}"
  by (auto simp: msat_value_def split: if_splits)

lemma msat_value_single:
  "map_of MULTIPLIERS c = None \<Longrightarrow> msat_value n [c] = None"
  by (auto simp: msat_value_def MULTIPLIERS_def split: if_splits)

text \<open>The two readings of a non-empty amount field, by its last character.\<close>

lemma decode_amount_str_multiplier:
  assumes "map_of MULTIPLIERS c = Some f"
  shows "decode_amount_str (ys @ [c]) =
    (if ys = [] then Err (InvalidInvoice ''amount multiplier present but no numeric value'')
     else rbind (parse_amount_with_multiplier ys c f)
       (\<lambda>msat. if msat = 0
          then Err (InvalidInvoice ''invoice amount must be positive (got 0)'')
          else Ok (Some (InvoiceAmount msat))))"
  by (simp add: decode_amount_str_def Let_def assms)

lemma decode_amount_str_btc:
  assumes "map_of MULTIPLIERS c = None"
  shows "decode_amount_str (ys @ [c]) =
    (if is_ascii_digit c
     then rbind (parse_amount_btc (ys @ [c]))
       (\<lambda>msat. if msat = 0
          then Err (InvalidInvoice ''invoice amount must be positive (got 0)'')
          else Ok (Some (InvoiceAmount msat)))
     else Err (InvalidInvoice (''unknown amount multiplier: '' @ squoted (last_char (ys @ [c])))))"
  by (simp add: decode_amount_str_def Let_def assms)

lemma parse_amount_not_Panic [simp]:
  "parse_amount_with_multiplier s c f \<noteq> Panic" "parse_amount_btc s \<noteq> Panic"
  by (auto simp: parse_amount_with_multiplier_def parse_amount_btc_def rbind_Panic_iff)

lemma positive_step_Ok_Some:
  "rbind x (\<lambda>msat. if msat = 0 then Err e else Ok (Some (InvoiceAmount msat))) = Ok (Some a)
   \<longleftrightarrow> x = Ok (millisatoshis a) \<and> 0 < unat (millisatoshis a)"
  by (cases x; cases a) (auto simp: unat_gt_0)

lemma positive_step_not:
  "rbind x (\<lambda>msat. if msat = 0 then Err e else Ok (Some (InvoiceAmount msat))) \<noteq> Ok None"
  "rbind x (\<lambda>msat. if msat = 0 then Err e else Ok (Some (InvoiceAmount msat))) = Panic
   \<longleftrightarrow> x = Panic"
  by (cases x; simp)+

lemma amount_decompose:
  assumes "ys @ [c] = ds @ mult" and "msat_value n mult = Some m"
  shows "mult = [] \<and> ds = ys @ [c] \<or> mult = [c] \<and> ds = ys"
  using msat_value_Some_cases [OF assms(2)] assms(1) by auto

text \<open>The amount field: digits and at most one multiplier, read without wrapping.\<close>

definition amount_field :: "string \<Rightarrow> u64 \<Rightarrow> bool" where
  "amount_field s m \<longleftrightarrow>
     (\<exists>ds mult. s = ds @ mult \<and> ds \<noteq> [] \<and> list_all is_ascii_digit ds \<and> digits_val ds < 2 ^ 64
        \<and> msat_value (digits_val ds) mult = Some (unat m) \<and> 0 < unat m)"

lemma decode_amount_str_Ok_Some:
  "decode_amount_str s = Ok (Some a) \<longleftrightarrow> amount_field s (millisatoshis a)"
proof (cases s rule: rev_cases)
  case Nil
  then show ?thesis by (simp add: decode_amount_str_def amount_field_def)
next
  case (snoc ys c)
  show ?thesis
  proof (cases "map_of MULTIPLIERS c")
    case (Some f)
    then have nd: "\<not> is_ascii_digit c" using multiplier_not_digit by force
    have "decode_amount_str s = Ok (Some a) \<longleftrightarrow>
        parse_amount_with_multiplier ys c f = Ok (millisatoshis a) \<and> 0 < unat (millisatoshis a)"
      using parse_amount_with_multiplier_Ok_iff [OF Some, of ys]
      by (auto simp: snoc decode_amount_str_multiplier [OF Some] positive_step_Ok_Some)
    also have "\<dots> \<longleftrightarrow> amount_field s (millisatoshis a)"
      unfolding amount_field_def parse_amount_with_multiplier_Ok_iff [OF Some] snoc
      using nd by (auto dest: amount_decompose)
    finally show ?thesis .
  next
    case None
    have "decode_amount_str s = Ok (Some a) \<longleftrightarrow>
        is_ascii_digit c \<and> parse_amount_btc s = Ok (millisatoshis a) \<and> 0 < unat (millisatoshis a)"
      by (auto simp: snoc decode_amount_str_btc [OF None] positive_step_Ok_Some)
    also have "\<dots> \<longleftrightarrow> amount_field s (millisatoshis a)"
    proof
      assume "is_ascii_digit c \<and> parse_amount_btc s = Ok (millisatoshis a)
        \<and> 0 < unat (millisatoshis a)"
      then show "amount_field s (millisatoshis a)"
        unfolding amount_field_def parse_amount_btc_Ok_iff
        by (intro exI [of _ s] exI [of _ "[]"]) simp
    next
      assume "amount_field s (millisatoshis a)"
      then show "is_ascii_digit c \<and> parse_amount_btc s = Ok (millisatoshis a)
        \<and> 0 < unat (millisatoshis a)"
        unfolding amount_field_def parse_amount_btc_Ok_iff snoc
        using msat_value_single [OF None] by (auto dest: amount_decompose)
    qed
    finally show ?thesis .
  qed
qed

lemma decode_amount_str_Ok_None: "decode_amount_str s = Ok None \<longleftrightarrow> s = []"
proof (cases s rule: rev_cases)
  case (snoc ys c)
  then show ?thesis
    by (cases "map_of MULTIPLIERS c")
      (simp_all add: decode_amount_str_multiplier decode_amount_str_btc positive_step_not)
qed (simp add: decode_amount_str_def)

lemma decode_amount_str_not_Panic [simp]: "decode_amount_str s \<noteq> Panic"
proof (cases s rule: rev_cases)
  case (snoc ys c)
  then show ?thesis
    by (cases "map_of MULTIPLIERS c")
      (simp_all add: decode_amount_str_multiplier decode_amount_str_btc positive_step_not)
qed (simp add: decode_amount_str_def)

section \<open>The decoder as a whole\<close>

text \<open>
  The networks the SDK knows. A longer name takes precedence over its prefix, so \<open>lnbc\<close> is the
  network only if the rest does not begin with \<open>rt\<close>.
\<close>

definition network_split :: "string \<Rightarrow> string \<Rightarrow> bool" where
  "network_split net r \<longleftrightarrow>
     net = ''lnbcrt'' \<or> net = ''lntbs''
   \<or> net = ''lnbc'' \<and> strip_prefix ''rt'' r = None
   \<or> net = ''lntb'' \<and> strip_prefix ''s'' r = None"

lemma strip_network_append: "network_split net r \<Longrightarrow> strip_network (net @ r) = Some r"
  by (elim network_split_def [THEN iffD1, elim_format] disjE)
    (auto simp: strip_network_def strip_prefix_def starts_with_def)

lemma strip_network_Some:
  assumes "strip_network s = Some r"
  shows "\<exists>net. s = net @ r \<and> network_split net r"
proof (cases "strip_prefix ''lnbcrt'' s")
  case (Some a)
  then have "a = r" using assms by (simp add: strip_network_def)
  with Some have "s = ''lnbcrt'' @ r" by (simp only: strip_prefix_Some_iff)
  then show ?thesis unfolding network_split_def by blast
next
  case n1: None
  show ?thesis
  proof (cases "strip_prefix ''lnbc'' s")
    case (Some a)
    then have "a = r" using assms n1 by (simp add: strip_network_def)
    with Some have "s = ''lnbc'' @ r" by (simp only: strip_prefix_Some_iff)
    moreover from this n1 have "strip_prefix ''rt'' r = None"
      by (simp add: strip_prefix_def starts_with_def split: if_splits)
    ultimately show ?thesis unfolding network_split_def by blast
  next
    case n2: None
    show ?thesis
    proof (cases "strip_prefix ''lntbs'' s")
      case (Some a)
      then have "a = r" using assms n1 n2 by (simp add: strip_network_def)
      with Some have "s = ''lntbs'' @ r" by (simp only: strip_prefix_Some_iff)
      then show ?thesis unfolding network_split_def by blast
    next
      case n3: None
      then have "strip_prefix ''lntb'' s = Some r"
        using assms n1 n2 by (simp add: strip_network_def)
      then have "s = ''lntb'' @ r" by (simp only: strip_prefix_Some_iff)
      moreover from this n3 have "strip_prefix ''s'' r = None"
        by (simp add: strip_prefix_def starts_with_def split: if_splits)
      ultimately show ?thesis unfolding network_split_def by blast
    qed
  qed
qed

lemma strip_network_Some_iff:
  "strip_network s = Some r \<longleftrightarrow> (\<exists>net. s = net @ r \<and> network_split net r)"
  using strip_network_Some strip_network_append by blast

lemma strip_network_digit:
  assumes "net \<in> {''lnbc'', ''lntb'', ''lnbcrt'', ''lntbs''}" and "is_ascii_digit d"
  shows "strip_network (net @ d # r) = Some (d # r)"
proof -
  have "d \<noteq> CHR ''r''" "d \<noteq> CHR ''s''" using assms(2) by (auto simp: is_ascii_digit_def byte_def)
  then have "network_split net (d # r)"
    using assms(1) by (auto simp: network_split_def strip_prefix_def starts_with_def)
  then show ?thesis unfolding strip_network_Some_iff by blast
qed

lemma decode_bolt11_amount_Ok_iff:
  "decode_bolt11_amount s = Ok v \<longleftrightarrow>
     (\<exists>net amt dat. to_ascii_lowercase s = net @ amt @ CHR ''1'' # dat
        \<and> network_split net (amt @ CHR ''1'' # dat) \<and> CHR ''1'' \<notin> set dat
        \<and> decode_amount_str amt = Ok v)" (is "_ \<longleftrightarrow> ?r")
proof
  assume "decode_bolt11_amount s = Ok v"
  then obtain r i where r: "strip_network (to_ascii_lowercase s) = Some r"
    and i: "rfind (CHR ''1'') r = Some i" and v: "decode_amount_str (take i r) = Ok v"
    unfolding decode_bolt11_amount_def Let_def rbind_Ok_iff ok_or_Ok_iff by blast
  obtain a b where "r = a @ CHR ''1'' # b" "length a = i" "CHR ''1'' \<notin> set b"
    using i unfolding rfind_Some_iff by blast
  with v strip_network_Some [OF r] show ?r by auto
next
  assume ?r
  then obtain net amt dat where e: "to_ascii_lowercase s = net @ amt @ CHR ''1'' # dat"
    "network_split net (amt @ CHR ''1'' # dat)" "CHR ''1'' \<notin> set dat"
    "decode_amount_str amt = Ok v" by blast
  then show "decode_bolt11_amount s = Ok v"
    by (simp add: decode_bolt11_amount_def strip_network_append [OF e(2)] rfind_append)
qed

lemma decode_bolt11_amount_not_Panic [simp]: "decode_bolt11_amount s \<noteq> Panic"
  by (auto simp: decode_bolt11_amount_def Let_def rbind_Panic_iff)

text \<open>An invoice of the specification: network, amount field, separator, data part.\<close>

lemma decode_rendered:
  assumes "net \<in> {''lnbc'', ''lntb'', ''lnbcrt'', ''lntbs''}"
    and "amt = [] \<or> is_ascii_digit (hd amt)" and "CHR ''1'' \<notin> set dat"
    and "to_ascii_lowercase s = net @ amt @ CHR ''1'' # dat"
  shows "decode_bolt11_amount s = decode_amount_str amt"
proof -
  have "strip_network (net @ amt @ CHR ''1'' # dat) = Some (amt @ CHR ''1'' # dat)"
  proof (cases amt)
    case Nil
    then show ?thesis using strip_network_digit [OF assms(1), of "CHR ''1''" dat]
      by (simp add: is_ascii_digit_def byte_def)
  next
    case (Cons d ds)
    then show ?thesis using strip_network_digit [OF assms(1), of d] assms(2) by simp
  qed
  then show ?thesis
    by (simp add: decode_bolt11_amount_def assms(3,4) rfind_append)
qed

lemma to_lower_char_mult: "msat_value n mult = Some m \<Longrightarrow> to_ascii_lowercase mult = mult"
  using msat_value_Some_cases [of n mult m]
  by (auto simp: to_ascii_lowercase_def to_lower_char_def byte_def)

lemma to_ascii_lowercase_digits: "list_all is_ascii_digit ds \<Longrightarrow> to_ascii_lowercase ds = ds"
  by (intro to_ascii_lowercase_id) (auto simp: list_all_iff to_lower_char_digit)

lemma to_lower_char_1: "to_lower_char (CHR ''1'') = CHR ''1''"
  by (simp add: to_lower_char_def byte_def)

lemma byte_1: "byte (CHR ''1'') = 49"
  by (simp add: byte_def)

lemma byte_to_lower_upper:
  "65 \<le> byte c \<and> byte c \<le> 90 \<Longrightarrow> byte (to_lower_char c) = byte c + 32"
  unfolding to_lower_char_def by simp

lemma to_lower_char_eq_1: "to_lower_char c = CHR ''1'' \<longleftrightarrow> c = CHR ''1''"
proof (cases "65 \<le> byte c \<and> byte c \<le> 90")
  case True
  have "to_lower_char c \<noteq> CHR ''1''"
  proof
    assume "to_lower_char c = CHR ''1''"
    then have "byte (to_lower_char c) = 49" by (simp only: byte_1)
    then show False using byte_to_lower_upper [OF True] True by simp
  qed
  moreover have "c \<noteq> CHR ''1''"
  proof
    assume "c = CHR ''1''"
    then have "byte c = 49" by (simp only: byte_1)
    then show False using True by simp
  qed
  ultimately show ?thesis by blast
next
  case False
  then show ?thesis unfolding to_lower_char_def by (simp only: if_False)
qed

lemma one_in_lowercase: "CHR ''1'' \<in> set (to_ascii_lowercase s) \<longleftrightarrow> CHR ''1'' \<in> set s"
  unfolding to_ascii_lowercase_def set_map image_iff using to_lower_char_eq_1 by metis

lemma amount_field_digits:
  assumes "ds \<noteq> []" and "list_all is_ascii_digit ds" and "mult \<in> {''m'', ''u'', ''n'', ''p'', []}"
  shows "amount_field (ds @ mult) m \<longleftrightarrow>
    digits_val ds < 2 ^ 64 \<and> msat_value (digits_val ds) mult = Some (unat m) \<and> 0 < unat m"
proof
  have nd: "\<not> is_ascii_digit (CHR ''m'')" "\<not> is_ascii_digit (CHR ''u'')"
    "\<not> is_ascii_digit (CHR ''n'')" "\<not> is_ascii_digit (CHR ''p'')"
    by (simp_all add: is_ascii_digit_def byte_def)
  assume "amount_field (ds @ mult) m"
  then obtain ds' mult' where e: "ds @ mult = ds' @ mult'" "list_all is_ascii_digit ds'"
    "digits_val ds' < 2 ^ 64" "msat_value (digits_val ds') mult' = Some (unat m)" "0 < unat m"
    unfolding amount_field_def by blast
  have "mult' \<in> {''m'', ''u'', ''n'', ''p'', []}" using msat_value_Some_cases [OF e(4)] .
  then have "ds = ds' \<and> mult = mult'"
    using assms(2,3) e(1,2) nd by (elim insertE emptyE) (auto simp: append_eq_append_conv2)
  then show "digits_val ds < 2 ^ 64 \<and> msat_value (digits_val ds) mult = Some (unat m) \<and> 0 < unat m"
    using e by simp
qed (use assms in \<open>auto simp: amount_field_def\<close>)

text \<open>The answer to a decimal number and a multiplier, errors included.\<close>

definition amount_answer :: "nat \<Rightarrow> string \<Rightarrow> (invoice_amount option, l402_error) rres" where
  "amount_answer n mult =
     (if 2 ^ 64 \<le> n then Err (InvalidInvoice ''invoice amount exceeds the supported range'')
      else case msat_value n mult of
          None \<Rightarrow> Err (InvalidInvoice ''picobitcoin amount must be a multiple of 10'')
        | Some v \<Rightarrow>
            if 2 ^ 64 \<le> v then Err (InvalidInvoice ''invoice amount exceeds the supported millisatoshi range'')
            else if v = 0 then Err (InvalidInvoice ''invoice amount must be positive (got 0)'')
            else Ok (Some (InvoiceAmount (of_nat v))))"

lemma parse_integer_rendered:
  "parse_integer (show_nat n) = (if n < 2 ^ 64 then Ok (of_nat n)
     else Err (InvalidInvoice ''invoice amount exceeds the supported range''))"
  using show_nat_digits [of n] by (simp add: parse_integer_def parse_u64_digits ok_or_def)

lemma checked_msat_of_nat:
  assumes "n < 2 ^ 64"
  shows "checked_msat (of_nat n) f = (if n * unat f < 2 ^ 64 then Ok (of_nat (n * unat f))
     else Err (InvalidInvoice ''invoice amount exceeds the supported millisatoshi range''))"
proof -
  have "(of_nat n :: u64) * f = of_nat (n * unat f)" by simp
  then show ?thesis
    unfolding checked_msat_def checked_mul_def unat_of_nat_u64 [OF assms] by (simp only: ok_or_def split: if_split) simp
qed

lemma of_nat_u64_0: "v < 2 ^ 64 \<Longrightarrow> (of_nat v :: u64) = 0 \<longleftrightarrow> v = 0"
  by (drule unat_of_nat_u64) (simp only: unat_eq_zero [symmetric])

lemma rendered_pico:
  assumes "n < 2 ^ 64"
  shows "(of_nat n :: u64) mod 10 = 0 \<longleftrightarrow> n mod 10 = 0" and "(of_nat n :: u64) div 10 = of_nat (n div 10)"
  using unat_of_nat_u64 [OF assms] by (simp_all add: word_unat_eq_iff unat_mod unat_div)
    (metis assms div_le_dividend le_less_trans unat_of_nat_u64)

text \<open>The last step, on a value in millisatoshis.\<close>

definition positive_amount :: "(u64, l402_error) rres \<Rightarrow> (invoice_amount option, l402_error) rres" where
  "positive_amount r = rbind r (\<lambda>msat. if msat = 0
     then Err (InvalidInvoice ''invoice amount must be positive (got 0)'')
     else Ok (Some (InvoiceAmount msat)))"

lemma positive_amount_simps [simp]:
  "positive_amount (Err e) = Err e"
  "v < 2 ^ 64 \<Longrightarrow> positive_amount (Ok (of_nat v)) =
     (if v = 0 then Err (InvalidInvoice ''invoice amount must be positive (got 0)'') else Ok (Some (InvoiceAmount (of_nat v))))"
  using of_nat_u64_0 [of v] by (simp_all add: positive_amount_def)

lemma positive_checked:
  assumes "n < 2 ^ 64" and "msat_value n mult = Some (n * unat f)"
  shows "positive_amount (checked_msat (of_nat n) f) = amount_answer n mult"
proof (cases "n * unat f < 2 ^ 64")
  case True
  then show ?thesis unfolding checked_msat_of_nat [OF assms(1)] amount_answer_def assms(2) if_P [OF True]
      positive_amount_simps(2) [OF True] option.case
    using assms(1) True by (simp only: not_le [symmetric]) simp
next
  case False
  then have "2 ^ 64 \<le> n * unat f" "\<not> 2 ^ 64 \<le> n" using assms(1) by linarith+
  then show ?thesis unfolding checked_msat_of_nat [OF assms(1)] if_not_P [OF False] amount_answer_def assms(2) option.case
    by (simp only: if_True if_False positive_amount_simps(1))
qed

lemma amount_too_long: "\<not> n < 2 ^ 64 \<Longrightarrow> amount_answer n mult = Err (InvalidInvoice ''invoice amount exceeds the supported range'')"
  by (simp only: amount_answer_def not_less if_True)

lemma positive_pico:
  assumes "n < 2 ^ 64"
  shows "positive_amount (if (of_nat n :: u64) mod 10 \<noteq> 0
        then Err (InvalidInvoice ''picobitcoin amount must be a multiple of 10'')
        else Ok (of_nat n div 10)) = amount_answer n ''p''"
proof -
  have l: "n div 10 < 2 ^ 64" "\<not> 2 ^ 64 \<le> n" "\<not> 2 ^ 64 \<le> n div 10" using assms by linarith+
  show ?thesis unfolding rendered_pico [OF assms] amount_answer_def
    by (cases "n mod 10 = 0") (simp_all only: msat_value_def l if_False if_True option.case positive_amount_simps refl
        not_True_eq_False not_False_eq_True list.inject char.inject list.distinct simp_thms)
qed

lemma multiplier_char:
  assumes "mult \<in> {''m'', ''u'', ''n'', ''p'', []}" and "mult \<noteq> []"
  obtains c f where "mult = [c]" "map_of MULTIPLIERS c = Some f" "c = CHR ''p'' \<or> msat_value n mult = Some (n * unat f)"
proof -
  consider "mult = ''m''" | "mult = ''u''" | "mult = ''n''" | "mult = ''p''" using assms by blast
  then show thesis
  proof cases
    case 1
    show ?thesis by (rule that [OF 1 multiplier_lookup(1)]) (simp add: 1 msat_value_def)
  next
    case 2
    show ?thesis by (rule that [OF 2 multiplier_lookup(2)]) (simp add: 2 msat_value_def)
  next
    case 3
    show ?thesis by (rule that [OF 3 multiplier_lookup(3)]) (simp add: 3 msat_value_def)
  next
    case 4
    show ?thesis by (rule that [OF 4 multiplier_lookup(4)]) simp
  qed
qed

lemma decode_rendered_amount:
  assumes "mult \<in> {''m'', ''u'', ''n'', ''p'', []}"
  shows "decode_amount_str (show_nat n @ mult) = amount_answer n mult"
proof (cases "mult = []")
  case True
  obtain ys c where yc: "show_nat n = ys @ [c]" using show_nat_ne [of n] by (metis rev_exhaust)
  then have "is_ascii_digit c" using show_nat_digits [of n] by simp
  then have d: "decode_amount_str (show_nat n @ mult) = positive_amount (parse_amount_btc (show_nat n))"
    using decode_amount_str_btc [OF multiplier_not_digit, of c ys] by (simp add: yc True positive_amount_def)
  show ?thesis
  proof (cases "n < 2 ^ 64")
    case fits: True
    have "msat_value n mult = Some (n * unat BTC_TO_MSAT)" by (simp add: True msat_value_def BTC_TO_MSAT_def)
    from positive_checked [OF fits this] show ?thesis
      unfolding d parse_amount_btc_def parse_integer_rendered if_P [OF fits] rbind.simps .
  next
    case False
    show ?thesis
      unfolding d parse_amount_btc_def parse_integer_rendered if_not_P [OF False] amount_too_long [OF False]
        rbind.simps positive_amount_simps(1) by (rule refl)
  qed
next
  case False
  from multiplier_char [OF assms False, of n] obtain c f
    where c: "mult = [c]" "map_of MULTIPLIERS c = Some f" "c = CHR ''p'' \<or> msat_value n mult = Some (n * unat f)" .
  have d: "decode_amount_str (show_nat n @ mult) = positive_amount (parse_amount_with_multiplier (show_nat n) c f)"
    using decode_amount_str_multiplier [OF c(2), of "show_nat n"] c(1) by (simp add: positive_amount_def)
  show ?thesis
  proof (cases "n < 2 ^ 64")
    case fits: True
    show ?thesis
    proof (cases "c = CHR ''p''")
      case pico: True
      have "mult = ''p''" using c(1) pico by simp
      then have "positive_amount (if (of_nat n :: u64) mod 10 \<noteq> 0
          then Err (InvalidInvoice ''picobitcoin amount must be a multiple of 10'')
          else Ok (of_nat n div 10)) = amount_answer n mult"
        using positive_pico [OF fits] by (simp only:)
      then show ?thesis
        unfolding d parse_amount_with_multiplier_def parse_integer_rendered if_P [OF fits] rbind.simps if_P [OF pico] .
    next
      case False
      from c(3) False have "msat_value n mult = Some (n * unat f)" by blast
      from positive_checked [OF fits this] show ?thesis
        unfolding d parse_amount_with_multiplier_def parse_integer_rendered if_P [OF fits] rbind.simps if_not_P [OF False] .
    qed
  next
    case False
    show ?thesis
      unfolding d parse_amount_with_multiplier_def parse_integer_rendered if_not_P [OF False] amount_too_long [OF False]
        rbind.simps positive_amount_simps(1) by (rule refl)
  qed
qed

section \<open>Properties\<close>

text \<open>C22. An invoice of any case that spells a known network, a decimal number \<open>n\<close>, at most one
  multiplier, the separator and a data part decodes to exactly the amount it spells, if \<open>n\<close> fits 64 bits and
  the amount in millisatoshis is a whole, positive number that fits 64 bits; each of the other cases
  is its own error. Nothing wraps, nothing panics and nothing is rounded.\<close>

theorem invoice_amount_exact:
  assumes "net \<in> {''lnbc'', ''lntb'', ''lnbcrt'', ''lntbs''}"
    and "mult \<in> {''m'', ''u'', ''n'', ''p'', []}" and "CHR ''1'' \<notin> set dat"
    and "to_ascii_lowercase s = net @ show_nat n @ mult @ CHR ''1'' # dat"
  shows "(decode_bolt11_amount s = Ok (Some a) \<longleftrightarrow>
      n < 2 ^ 64 \<and> msat_value n mult = Some (unat (millisatoshis a)) \<and> 0 < unat (millisatoshis a))
    \<and> decode_bolt11_amount s =
       (if 2 ^ 64 \<le> n then Err (InvalidInvoice ''invoice amount exceeds the supported range'')
        else case msat_value n mult of
            None \<Rightarrow> Err (InvalidInvoice ''picobitcoin amount must be a multiple of 10'')
          | Some v \<Rightarrow>
              if 2 ^ 64 \<le> v then Err (InvalidInvoice ''invoice amount exceeds the supported millisatoshi range'')
              else if v = 0 then Err (InvalidInvoice ''invoice amount must be positive (got 0)'')
              else Ok (Some (InvoiceAmount (of_nat v))))"
proof -
  have "is_ascii_digit (hd (show_nat n @ mult))"
    using show_nat_digits [of n] by (simp add: list_all_iff)
  then have d: "decode_bolt11_amount s = decode_amount_str (show_nat n @ mult)"
    using assms by (intro decode_rendered) auto
  then have "decode_bolt11_amount s = Ok (Some a) \<longleftrightarrow>
      n < 2 ^ 64 \<and> msat_value n mult = Some (unat (millisatoshis a)) \<and> 0 < unat (millisatoshis a)"
    using amount_field_digits [OF show_nat_ne show_nat_digits assms(2), of n "millisatoshis a"]
    by (simp add: decode_amount_str_Ok_Some)
  then show ?thesis using d decode_rendered_amount [OF assms(2), of n] by (simp add: amount_answer_def)
qed

theorem invoice_amount_exact_witness:
  "decode_bolt11_amount ''LNBC2500u1pvjluez'' = Ok (Some (InvoiceAmount 250000000))"
proof -
  have s: "show_nat 2500 = ''2500''" by (simp add: str_eval)
  have l: "to_ascii_lowercase ''LNBC2500u1pvjluez'' = ''lnbc2500u1pvjluez''"
    by (simp add: str_eval)
  show ?thesis
    using invoice_amount_exact [of "''lnbc''" "''u''" "''pvjluez''" "''LNBC2500u1pvjluez''" 2500
        "InvoiceAmount 250000000"]
    by (simp add: s l msat_value_def)
qed

text \<open>C30. The decoder never panics, and it accepts nothing but invoices: what it accepts, in
  lower case, is a known network, an amount field, the last separator and a data part, and the
  answer is \<open>None\<close> exactly for an empty amount field.\<close>

theorem invoice_amount_sound:
  "decode_bolt11_amount s \<noteq> Panic
   \<and> (decode_bolt11_amount s = Ok v \<longleftrightarrow>
       (\<exists>net amt dat. to_ascii_lowercase s = net @ amt @ CHR ''1'' # dat
          \<and> network_split net (amt @ CHR ''1'' # dat) \<and> CHR ''1'' \<notin> set dat
          \<and> (case v of None \<Rightarrow> amt = [] | Some a \<Rightarrow> amount_field amt (millisatoshis a))))"
  by (cases v) (simp_all add: decode_bolt11_amount_Ok_iff decode_amount_str_Ok_Some
      decode_amount_str_Ok_None)

text \<open>The conversion to satoshis rounds up, and never down: the result covers the invoice and
  exceeds it by less than one satoshi, while the floor variant leaves less than one satoshi
  uncovered.\<close>

lemma satoshis_rounding:
  "unat (millisatoshis a) \<le> 1000 * unat (satoshis a)
   \<and> 1000 * unat (satoshis a) < unat (millisatoshis a) + 1000
   \<and> 1000 * unat (satoshis_floor a) \<le> unat (millisatoshis a)
   \<and> unat (millisatoshis a) < 1000 * unat (satoshis_floor a) + 1000"
  using div_ceil_covers [of "millisatoshis a"] div_ceil_tight [of "millisatoshis a"]
  by (simp add: satoshis_def satoshis_floor_def unat_div)

end
