(* ===== verification/Challenge.thy ===== *)
theory Challenge
  imports Proto_Types
begin

text \<open>
  \<open>crates/l402-proto/src/challenge.rs\<close> and \<open>token.rs\<close>: the \<open>WWW-Authenticate\<close> header a server
  sends with a 402, and the \<open>Authorization\<close> header the client answers with. The two base64
  decoders belong to the \<open>base64\<close> crate; they are the parameters \<open>std\<close> and \<open>url\<close>, which return
  the error text (\<open>Inl\<close>) or the bytes (\<open>Inr\<close>).
\<close>

section \<open>Challenges\<close>

record l402_challenge =
  c_macaroon :: string
  c_invoice :: string
  c_address :: "string option"

definition push_trimmed :: "string list \<Rightarrow> string \<Rightarrow> string list" where
  "push_trimmed params current =
     (let trimmed = trim current in if trimmed \<noteq> [] then params @ [trimmed] else params)"

fun params_loop :: "string \<Rightarrow> string list \<Rightarrow> string \<Rightarrow> bool \<Rightarrow> string list" where
  "params_loop [] params current in_quotes = push_trimmed params current"
| "params_loop (ch # input) params current in_quotes =
     (if ch = CHR 0x22 then params_loop input params (current @ [ch]) (\<not> in_quotes)
      else if ch = CHR '','' \<and> \<not> in_quotes
           then params_loop input (push_trimmed params current) [] in_quotes
      else params_loop input params (current @ [ch]) in_quotes)"

definition parse_params :: "string \<Rightarrow> string list" where
  "parse_params input = params_loop input [] [] False"

definition parse_kv :: "string \<Rightarrow> (string \<times> string, l402_error) rres" where
  "parse_kv param =
     rbind (ok_or (InvalidChallenge (''expected key=value pair, got: '' @ param))
              (split_once (CHR ''='') param))
       (\<lambda>(key, rest). Ok (to_ascii_lowercase (trim key), trim_matches (CHR 0x22) (trim rest)))"

text \<open>The three variables of the loop over the parameters.\<close>

record challenge_fields =
  f_macaroon :: "string option"
  f_invoice :: "string option"
  f_address :: "string option"

definition assign_field :: "string \<Rightarrow> string \<Rightarrow> challenge_fields \<Rightarrow> challenge_fields" where
  "assign_field key v fs =
     (if key = ''macaroon'' then fs\<lparr>f_macaroon := Some v\<rparr>
      else if key = ''invoice'' then fs\<lparr>f_invoice := Some v\<rparr>
      else if key = ''address'' then fs\<lparr>f_address := Some v\<rparr>
      else fs)"

fun kv_loop :: "string list \<Rightarrow> challenge_fields \<Rightarrow> (challenge_fields, l402_error) rres" where
  "kv_loop [] fs = Ok fs"
| "kv_loop (part # parts) fs =
     rbind (parse_kv part) (\<lambda>(key, v). kv_loop parts (assign_field key v fs))"

definition strip_scheme :: "string \<Rightarrow> string option" where
  "strip_scheme header =
     (case strip_prefix ''L402 '' header of Some rest \<Rightarrow> Some rest
      | None \<Rightarrow> strip_prefix ''LSAT '' header)"

type_synonym b64_decode = "string \<Rightarrow> string + string"

text \<open>The checks on the collected fields.\<close>

definition finish_challenge ::
  "b64_decode \<Rightarrow> b64_decode \<Rightarrow> challenge_fields \<Rightarrow> (l402_challenge, l402_error) rres" where
  "finish_challenge std url fs =
     rbind (ok_or (InvalidChallenge (''missing '' @ squoted ''macaroon'' @ '' parameter''))
              (f_macaroon fs)) (\<lambda>macaroon.
     rbind (ok_or (InvalidChallenge (''missing '' @ squoted ''invoice'' @ '' parameter''))
              (f_invoice fs)) (\<lambda>invoice.
     rbind (case std macaroon of
              Inl e1 \<Rightarrow> (case url macaroon of
                 Inl e \<Rightarrow> Err (InvalidMacaroon (''base64 decode failed: '' @ e))
               | Inr b \<Rightarrow> Ok ())
            | Inr b \<Rightarrow> Ok ()) (\<lambda>_.
     if \<not> starts_with ''lnbc'' invoice \<and> \<not> starts_with ''lntb'' invoice
     then Err (InvalidInvoice (''invoice must start with '' @ squoted ''lnbc'' @ '' (mainnet) or ''
            @ squoted ''lntb'' @ '' (testnet), got: '' @ take_chars 10 invoice))
     else Ok \<lparr>c_macaroon = macaroon, c_invoice = invoice, c_address = f_address fs\<rparr>)))"

definition challenge_from_header ::
  "b64_decode \<Rightarrow> b64_decode \<Rightarrow> string \<Rightarrow> (l402_challenge, l402_error) rres" where
  "challenge_from_header std url header0 =
     (let header = trim header0 in
      rbind (ok_or (InvalidChallenge (''header must start with '' @ squoted ''L402'' @ '' or ''
               @ squoted ''LSAT'' @ '' scheme, got: '' @ take_chars 20 header))
               (strip_scheme header)) (\<lambda>params.
      rbind (kv_loop (parse_params params)
               \<lparr>f_macaroon = None, f_invoice = None, f_address = None\<rparr>) (\<lambda>fs.
      finish_challenge std url fs)))"

section \<open>Tokens\<close>

record l402_token =
  tk_macaroon :: string
  tk_preimage :: string

definition token_new :: "string \<Rightarrow> string \<Rightarrow> l402_token" where
  "token_new macaroon preimage = \<lparr>tk_macaroon = macaroon, tk_preimage = preimage\<rparr>"

definition to_header_value :: "l402_token \<Rightarrow> string" where
  "to_header_value t = ''L402 '' @ tk_macaroon t @ '':'' @ tk_preimage t"

definition token_from_header :: "string \<Rightarrow> (l402_token, l402_error) rres" where
  "token_from_header header0 =
     (let header = trim header0 in
      rbind (ok_or (InvalidToken (''authorization header must start with '' @ squoted ''L402''
               @ '' or '' @ squoted ''LSAT'')) (strip_scheme header)) (\<lambda>credentials.
      rbind (ok_or (InvalidToken ''expected format: L402 <macaroon>:<preimage>'')
               (split_once (CHR '':'') credentials)) (\<lambda>(macaroon, preimage).
      if macaroon = [] then Err (InvalidToken ''macaroon part is empty'')
      else if preimage = [] then Err (InvalidToken ''preimage part is empty'')
      else Ok \<lparr>tk_macaroon = macaroon, tk_preimage = preimage\<rparr>)))"

section \<open>Splitting the parameters\<close>

text \<open>
  \<open>scan_seg q w\<close> is the state of the quotes after \<open>w\<close>, and \<open>None\<close> if a comma of \<open>w\<close> ends a
  parameter.
\<close>

fun scan_seg :: "bool \<Rightarrow> string \<Rightarrow> bool option" where
  "scan_seg q [] = Some q"
| "scan_seg q (ch # w) =
     (if ch = CHR 0x22 then scan_seg (\<not> q) w
      else if ch = CHR '','' \<and> \<not> q then None else scan_seg q w)"

lemma params_loop_seg:
  "scan_seg q w = Some q' \<Longrightarrow> params_loop (w @ rest) ps cur q = params_loop rest ps (cur @ w) q'"
  by (induction w arbitrary: cur q) (auto split: if_splits)

lemma scan_seg_append:
  "scan_seg q (a @ b) = Option.bind (scan_seg q a) (\<lambda>q'. scan_seg q' b)"
  by (induction a arbitrary: q) auto

lemma scan_seg_plain: "CHR 0x22 \<notin> set w \<Longrightarrow> CHR '','' \<notin> set w \<Longrightarrow> scan_seg q w = Some q"
  by (induction w) auto

lemma scan_seg_in_quotes: "CHR 0x22 \<notin> set w \<Longrightarrow> scan_seg True w = Some True"
  by (induction w) auto

text \<open>A parameter as a server writes it: a solid key, and a quoted value.\<close>

definition key_ok :: "string \<Rightarrow> bool" where
  "key_ok k \<longleftrightarrow> k \<noteq> [] \<and> list_all solid_char k
     \<and> CHR ''='' \<notin> set k \<and> CHR '','' \<notin> set k \<and> CHR 0x22 \<notin> set k"

definition value_ok :: "string \<Rightarrow> bool" where
  "value_ok v \<longleftrightarrow> CHR 0x22 \<notin> set v"

definition quoted :: "string \<Rightarrow> string" where
  "quoted v = CHR 0x22 # v @ [CHR 0x22]"

fun render_params :: "(string \<times> string) list \<Rightarrow> string" where
  "render_params [] = []"
| "render_params [(k, v)] = k @ ''='' @ quoted v"
| "render_params ((k, v) # kvs) = k @ ''='' @ quoted v @ '', '' @ render_params kvs"

definition params_ok :: "(string \<times> string) list \<Rightarrow> bool" where
  "params_ok kvs \<longleftrightarrow> kvs \<noteq> [] \<and> list_all (\<lambda>(k, v). key_ok k \<and> value_ok v) kvs"

lemma solid_quote [simp]: "solid_char (CHR 0x22)"
  by (simp add: solid_char_def is_ascii_ws_def byte_def)

lemma scan_seg_param:
  "key_ok k \<Longrightarrow> value_ok v \<Longrightarrow> scan_seg False (k @ ''='' @ quoted v) = Some False"
  by (simp add: scan_seg_append scan_seg_plain scan_seg_in_quotes quoted_def key_ok_def value_ok_def)

lemma trim_param:
  assumes "key_ok k"
  shows "trim (k @ ''='' @ quoted v) = k @ ''='' @ quoted v"
  using assms by (intro trim_solid) (auto simp: key_ok_def quoted_def neq_Nil_conv)

lemma trim_end_quoted: "trim_end (quoted v) = quoted v"
  by (intro trim_end_solid) (auto simp: quoted_def)

lemma trim_quoted: "trim (quoted v) = quoted v"
  by (intro trim_solid) (auto simp: quoted_def)

lemma trim_key: "key_ok k \<Longrightarrow> trim k = k"
  by (intro trim_solid) (auto simp: key_ok_def list_all_iff)

lemma parse_kv_param:
  assumes "key_ok k" and "value_ok v"
  shows "parse_kv (k @ ''='' @ quoted v) = Ok (to_ascii_lowercase k, v)"
proof -
  have "split_once (CHR ''='') (k @ ''='' @ quoted v) = Some (k, quoted v)"
    using assms by (simp add: split_once_append key_ok_def)
  then show ?thesis using assms trim_matches_quoted [of "CHR 0x22" v]
    by (simp add: parse_kv_def trim_key trim_quoted) (simp add: quoted_def value_ok_def)
qed

lemma push_param:
  assumes "key_ok k" and "cur = [] \<or> cur = '' ''"
  shows "push_trimmed ps (cur @ k @ ''='' @ quoted v) = ps @ [k @ ''='' @ quoted v]"
proof -
  have "trim (cur @ k @ ''='' @ quoted v) = k @ ''='' @ quoted v"
    using assms(2) trim_blank [of "k @ ''='' @ quoted v"] trim_param [OF assms(1), of v]
    by (elim disjE) simp_all
  then show ?thesis by (simp add: push_trimmed_def)
qed

lemma params_loop_render:
  assumes "params_ok kvs" and "cur = [] \<or> cur = '' ''"
  shows "params_loop (render_params kvs) ps cur False = ps @ map (\<lambda>(k, v). k @ ''='' @ quoted v) kvs"
  using assms
proof (induction kvs arbitrary: ps cur rule: render_params.induct)
  case 1
  then show ?case by (simp add: params_ok_def)
next
  case (2 k v)
  then have kv: "key_ok k" "value_ok v" by (simp_all add: params_ok_def)
  show ?case using params_loop_seg [OF scan_seg_param [OF kv], of "[]" ps cur]
      push_param [OF kv(1) 2(2), of ps v] by simp
next
  case (3 k v kv2 kvs)
  then have kv: "key_ok k" "value_ok v" and ok: "params_ok (kv2 # kvs)"
    by (simp_all add: params_ok_def)
  have "params_loop ((k @ ''='' @ quoted v) @ '', '' @ render_params (kv2 # kvs)) ps cur False
      = params_loop ('', '' @ render_params (kv2 # kvs)) ps (cur @ k @ ''='' @ quoted v) False"
    by (rule params_loop_seg [OF scan_seg_param [OF kv]])
  also have "\<dots> = params_loop (render_params (kv2 # kvs)) (ps @ [k @ ''='' @ quoted v]) '' '' False"
    using push_param [OF kv(1) 3(3), of ps v] by simp
  finally show ?case using "3.IH" [OF ok, of "'' ''" "ps @ [k @ ''='' @ quoted v]"] by simp
qed

lemma parse_params_render:
  "params_ok kvs \<Longrightarrow> parse_params (render_params kvs) = map (\<lambda>(k, v). k @ ''='' @ quoted v) kvs"
  by (simp add: parse_params_def params_loop_render)

section \<open>What a header of the protocol means\<close>

text \<open>The bindings of a list of parameters: keys in lower case, the last one wins.\<close>

definition binding :: "(string \<times> string) list \<Rightarrow> string \<Rightarrow> string option" where
  "binding kvs k = map_of (rev (map (\<lambda>(k, v). (to_ascii_lowercase k, v)) kvs)) k"

definition fields_of :: "(string \<times> string) list \<Rightarrow> challenge_fields \<Rightarrow> challenge_fields" where
  "fields_of kvs fs = foldl (\<lambda>fs (k, v). assign_field (to_ascii_lowercase k) v fs) fs kvs"

lemma kv_loop_rendered:
  "list_all (\<lambda>(k, v). key_ok k \<and> value_ok v) kvs \<Longrightarrow>
     kv_loop (map (\<lambda>(k, v). k @ ''='' @ quoted v) kvs) fs = Ok (fields_of kvs fs)"
proof (induction kvs arbitrary: fs)
  case Nil
  then show ?case by (simp add: fields_of_def)
next
  case (Cons kv kvs)
  obtain k v where kv: "kv = (k, v)" by (cases kv)
  have "parse_kv (k @ ''='' @ quoted v) = Ok (to_ascii_lowercase k, v)"
    using Cons.prems by (intro parse_kv_param) (simp_all add: kv)
  then show ?case using Cons by (simp add: kv fields_of_def)
qed

lemma assign_field_select:
  "f_macaroon (assign_field k v fs) = (if k = ''macaroon'' then Some v else f_macaroon fs)"
  "f_invoice (assign_field k v fs) = (if k = ''invoice'' then Some v else f_invoice fs)"
  "f_address (assign_field k v fs) = (if k = ''address'' then Some v else f_address fs)"
  by (simp_all add: assign_field_def)

lemma fields_of_select:
  "f_macaroon (fields_of kvs fs) =
     (case binding kvs ''macaroon'' of None \<Rightarrow> f_macaroon fs | Some v \<Rightarrow> Some v)"
  "f_invoice (fields_of kvs fs) =
     (case binding kvs ''invoice'' of None \<Rightarrow> f_invoice fs | Some v \<Rightarrow> Some v)"
  "f_address (fields_of kvs fs) =
     (case binding kvs ''address'' of None \<Rightarrow> f_address fs | Some v \<Rightarrow> Some v)"
  by (induction kvs rule: rev_induct)
    (auto simp: fields_of_def binding_def assign_field_select split: option.splits prod.splits)

lemma strip_scheme_append:
  "scheme = ''L402 '' \<or> scheme = ''LSAT '' \<Longrightarrow> strip_scheme (scheme @ r) = Some r"
  by (auto simp: strip_scheme_def strip_prefix_def starts_with_def)

lemma render_params_ends: "params_ok kvs \<Longrightarrow> \<exists>x. render_params kvs = x @ [CHR 0x22]"
proof (induction kvs rule: render_params.induct)
  case (2 k v)
  show ?case by (intro exI [of _ "k @ ''='' @ CHR 0x22 # v"]) (simp add: quoted_def)
next
  case (3 k v kv2 kvs)
  then obtain x where "render_params (kv2 # kvs) = x @ [CHR 0x22]" by (auto simp: params_ok_def)
  then show ?case by (intro exI [of _ "k @ ''='' @ quoted v @ '', '' @ x"]) simp
qed (simp add: params_ok_def)

lemma trim_rendered_header:
  assumes "params_ok kvs" and "scheme = ''L402 '' \<or> scheme = ''LSAT ''"
  shows "trim (scheme @ render_params kvs) = scheme @ render_params kvs"
proof -
  obtain x where x: "render_params kvs = x @ [CHR 0x22]" using render_params_ends [OF assms(1)] ..
  have "solid_char (CHR ''L'')" by (simp add: solid_char_def is_ascii_ws_def byte_def)
  then show ?thesis using assms(2) by (intro trim_solid) (auto simp: x)
qed

lemma challenge_from_rendered:
  assumes "params_ok kvs" and "scheme = ''L402 '' \<or> scheme = ''LSAT ''"
  shows "challenge_from_header std url (scheme @ render_params kvs) =
    finish_challenge std url \<lparr>f_macaroon = binding kvs ''macaroon'',
      f_invoice = binding kvs ''invoice'', f_address = binding kvs ''address''\<rparr>"
proof -
  have "fields_of kvs \<lparr>f_macaroon = None, f_invoice = None, f_address = None\<rparr>
      = \<lparr>f_macaroon = binding kvs ''macaroon'', f_invoice = binding kvs ''invoice'',
         f_address = binding kvs ''address''\<rparr>"
    by (rule challenge_fields.equality) (auto simp: fields_of_select split: option.splits)
  then show ?thesis using assms
    by (simp add: challenge_from_header_def Let_def trim_rendered_header strip_scheme_append
        parse_params_render kv_loop_rendered [simplified] params_ok_def)
qed

lemma finish_challenge_Ok_iff:
  "finish_challenge std url fs = Ok c \<longleftrightarrow>
     f_macaroon fs = Some (c_macaroon c) \<and> f_invoice fs = Some (c_invoice c)
     \<and> f_address fs = c_address c
     \<and> (\<not> isl (std (c_macaroon c)) \<or> \<not> isl (url (c_macaroon c)))
     \<and> (starts_with ''lnbc'' (c_invoice c) \<or> starts_with ''lntb'' (c_invoice c))"
proof (cases "f_macaroon fs")
  case m: (Some m)
  show ?thesis
  proof (cases "f_invoice fs")
    case i: (Some i)
    then show ?thesis
      by (cases c; cases "std m"; cases "url m") (auto simp: finish_challenge_def m)
  qed (simp add: finish_challenge_def m)
qed (simp add: finish_challenge_def)

section \<open>What an accepted header contains\<close>

lemma push_trimmed_sublist:
  assumes "\<forall>p \<in> set ps. sublist p s" and "sublist cur s"
  shows "\<forall>p \<in> set (push_trimmed ps cur). sublist p s"
  using assms sublist_trim [of cur] sublist_order.order_trans
  by (auto simp: push_trimmed_def Let_def)

lemma params_loop_sublist:
  assumes "s = pre @ cur @ input" and "\<forall>p \<in> set ps. sublist p s"
  shows "\<forall>p \<in> set (params_loop input ps cur q). sublist p s"
  using assms
proof (induction input arbitrary: pre cur ps q)
  case Nil
  then have "sublist cur s" by auto
  from push_trimmed_sublist [OF Nil(2) this] show ?case by simp
next
  case (Cons ch input)
  have c: "sublist cur s" using Cons.prems(1) by auto
  show ?case
  proof (cases "ch = CHR '','' \<and> \<not> q")
    case True
    have "s = (pre @ cur @ [ch]) @ [] @ input" using Cons.prems(1) by simp
    from Cons.IH [OF this push_trimmed_sublist [OF Cons.prems(2) c]] True show ?thesis by simp
  next
    case False
    have "s = pre @ (cur @ [ch]) @ input" using Cons.prems(1) by simp
    from Cons.IH [OF this Cons.prems(2)] False show ?thesis by auto
  qed
qed

lemma parse_params_sublist: "p \<in> set (parse_params input) \<Longrightarrow> sublist p input"
  using params_loop_sublist [of input "[]" "[]" input "[]" False] by (simp add: parse_params_def)

lemma parse_kv_sublist:
  assumes "parse_kv param = Ok (k, v)"
  shows "sublist v param"
proof -
  obtain key rest where r: "split_once (CHR ''='') param = Some (key, rest)"
    and v: "v = trim_matches (CHR 0x22) (trim rest)"
    using assms by (auto simp: parse_kv_def rbind_Ok_iff)
  show ?thesis using split_once_sublist [OF r] sublist_trim [of rest]
      sublist_trim_matches [of "CHR 0x22" "trim rest"] sublist_order.order_trans
    unfolding v by blast
qed

definition fields_within :: "string \<Rightarrow> challenge_fields \<Rightarrow> bool" where
  "fields_within s fs \<longleftrightarrow> list_all (\<lambda>f. case f of None \<Rightarrow> True | Some v \<Rightarrow> sublist v s)
     [f_macaroon fs, f_invoice fs, f_address fs]"

lemma assign_field_within:
  "fields_within s fs \<Longrightarrow> sublist v s \<Longrightarrow> fields_within s (assign_field k v fs)"
  by (simp add: fields_within_def assign_field_def)

lemma kv_loop_sublist:
  assumes "kv_loop parts fs = Ok fs'" and "\<forall>p \<in> set parts. sublist p s"
    and "fields_within s fs"
  shows "fields_within s fs'"
  using assms
proof (induction parts arbitrary: fs)
  case (Cons part parts)
  then obtain k v where kv: "parse_kv part = Ok (k, v)"
    and loop: "kv_loop parts (assign_field k v fs) = Ok fs'"
    by (auto simp: rbind_Ok_iff)
  have "sublist v s"
    using parse_kv_sublist [OF kv] Cons.prems(2) sublist_order.order_trans by auto
  from Cons.IH [OF loop _ assign_field_within [OF Cons.prems(3) this]] Cons.prems(2)
  show ?case by simp
qed simp

lemma strip_scheme_sublist: "strip_scheme h = Some r \<Longrightarrow> sublist r h"
  by (auto simp: strip_scheme_def strip_prefix_sublist split: option.splits)

lemma challenge_contained:
  assumes "challenge_from_header std url h = Ok c"
  shows "sublist (c_macaroon c) h \<and> sublist (c_invoice c) h
    \<and> (\<forall>a. c_address c = Some a \<longrightarrow> sublist a h)"
proof -
  obtain params fs where p: "strip_scheme (trim h) = Some params"
    and k: "kv_loop (parse_params params) \<lparr>f_macaroon = None, f_invoice = None, f_address = None\<rparr> = Ok fs"
    and f: "finish_challenge std url fs = Ok c"
    using assms by (auto simp: challenge_from_header_def Let_def rbind_Ok_iff)
  have ph: "sublist params h"
    using strip_scheme_sublist [OF p] sublist_trim [of h] sublist_order.order_trans by blast
  have "\<forall>x \<in> set (parse_params params). sublist x params" using parse_params_sublist by blast
  then have "fields_within params fs"
    by (intro kv_loop_sublist [OF k]) (simp_all add: fields_within_def)
  then have "sublist (c_macaroon c) params" "sublist (c_invoice c) params"
    "\<forall>a. c_address c = Some a \<longrightarrow> sublist a params"
    using f by (auto simp: finish_challenge_Ok_iff fields_within_def)
  with ph show ?thesis using sublist_order.order_trans by blast
qed

section \<open>Tokens\<close>

lemma solid_L_colon [simp]: "solid_char (CHR ''L'')" "solid_char (CHR '':'')"
  by (simp_all add: solid_char_def is_ascii_ws_def byte_def)

lemma trim_token_header:
  "trim (to_header_value t) = ''L402 '' @ tk_macaroon t @ '':'' @ trim_end (tk_preimage t)"
  using trim_end_append_solid [of "CHR '':''" "''L402 '' @ tk_macaroon t" "tk_preimage t"]
  by (simp add: trim_def to_header_value_def trim_start_solid)

lemma token_from_trimmed:
  "token_from_header (to_header_value t) = Ok t \<longleftrightarrow>
     tk_macaroon t \<noteq> [] \<and> CHR '':'' \<notin> set (tk_macaroon t) \<and> tk_preimage t \<noteq> []
     \<and> trim_end (tk_preimage t) = tk_preimage t" (is "?l \<longleftrightarrow> ?r")
proof
  assume ?l
  then obtain m p where s: "split_once (CHR '':'') (tk_macaroon t @ '':'' @ trim_end (tk_preimage t)) = Some (m, p)"
    and ne: "m \<noteq> []" "p \<noteq> []" and t: "t = \<lparr>tk_macaroon = m, tk_preimage = p\<rparr>"
    by (auto simp: token_from_header_def Let_def trim_token_header rbind_Ok_iff
        strip_scheme_append [of "''L402 ''", simplified] split: if_splits)
  then have "tk_macaroon t @ '':'' @ trim_end (tk_preimage t) = m @ CHR '':'' # p" "CHR '':'' \<notin> set m"
    by (simp_all add: split_once_Some_iff)
  then show ?r using ne t by simp
next
  assume ?r
  then show ?l
    by (simp add: token_from_header_def Let_def trim_token_header split_once_append
        strip_scheme_append [of "''L402 ''", simplified])
qed

section \<open>Properties\<close>

text \<open>C23. A challenge written in the format of the protocol, under either scheme name, with its
  parameters in any order, with unknown parameters and with keys in any case, is read back
  exactly: the last binding of each key wins, commas inside quotes belong to the value, and the
  header is accepted exactly if the macaroon is base64 of either alphabet and the invoice has a
  known prefix.\<close>

theorem challenge_roundtrip:
  assumes "params_ok kvs" and "scheme = ''L402 '' \<or> scheme = ''LSAT ''"
  shows "challenge_from_header std url (scheme @ render_params kvs) = Ok c \<longleftrightarrow>
     binding kvs ''macaroon'' = Some (c_macaroon c) \<and> binding kvs ''invoice'' = Some (c_invoice c)
   \<and> binding kvs ''address'' = c_address c
   \<and> (\<not> isl (std (c_macaroon c)) \<or> \<not> isl (url (c_macaroon c)))
   \<and> (starts_with ''lnbc'' (c_invoice c) \<or> starts_with ''lntb'' (c_invoice c))"
  using assms by (simp add: challenge_from_rendered finish_challenge_Ok_iff)

theorem challenge_roundtrip_witness:
  "challenge_from_header (\<lambda>_. Inl ''bad'') (\<lambda>s. Inr s)
     (''LSAT '' @ render_params [(''Macaroon'', ''a-_,b''), (''version'', ''0''), (''invoice'', ''lnbc1x'')])
   = Ok \<lparr>c_macaroon = ''a-_,b'', c_invoice = ''lnbc1x'', c_address = None\<rparr>"
proof -
  define kvs :: "(string \<times> string) list" where
    "kvs = [(''Macaroon'', ''a-_,b''), (''version'', ''0''), (''invoice'', ''lnbc1x'')]"
  have "params_ok kvs"
    by (simp add: kvs_def params_ok_def key_ok_def value_ok_def solid_char_def str_eval)
  moreover have "binding kvs ''macaroon'' = Some ''a-_,b''" "binding kvs ''invoice'' = Some ''lnbc1x''"
    "binding kvs ''address'' = None"
    by (simp_all add: kvs_def binding_def str_eval)
  ultimately show ?thesis
    using challenge_roundtrip [of kvs "''LSAT ''" "\<lambda>_. Inl ''bad''" "\<lambda>s. Inr s"
        "\<lparr>c_macaroon = ''a-_,b'', c_invoice = ''lnbc1x'', c_address = None\<rparr>"]
    by (simp add: kvs_def starts_with_def)
qed

text \<open>C31. Nothing in an accepted challenge is invented: macaroon, invoice and address are
  contiguous parts of the header, the macaroon has passed one of the base64 decoders and the
  invoice has a known prefix.\<close>

theorem challenge_sound:
  assumes "challenge_from_header std url h = Ok c"
  shows "sublist (c_macaroon c) h \<and> sublist (c_invoice c) h
    \<and> (\<forall>a. c_address c = Some a \<longrightarrow> sublist a h)
    \<and> (\<not> isl (std (c_macaroon c)) \<or> \<not> isl (url (c_macaroon c)))
    \<and> (starts_with ''lnbc'' (c_invoice c) \<or> starts_with ''lntb'' (c_invoice c))"
proof -
  obtain fs where "finish_challenge std url fs = Ok c"
    using assms by (auto simp: challenge_from_header_def Let_def rbind_Ok_iff)
  then show ?thesis using challenge_contained [OF assms] by (simp add: finish_challenge_Ok_iff)
qed

theorem challenge_sound_witness:
  "sublist ''QQ'' (''L402 '' @ render_params [(''macaroon'', ''QQ''), (''invoice'', ''lntb1x'')])"
proof -
  define kvs :: "(string \<times> string) list" where
    "kvs = [(''macaroon'', ''QQ''), (''invoice'', ''lntb1x'')]"
  define c where "c = \<lparr>c_macaroon = ''QQ'', c_invoice = ''lntb1x'', c_address = None\<rparr>"
  have "params_ok kvs"
    by (simp add: kvs_def params_ok_def key_ok_def value_ok_def solid_char_def str_eval)
  moreover have "binding kvs ''macaroon'' = Some ''QQ''" "binding kvs ''invoice'' = Some ''lntb1x''"
    "binding kvs ''address'' = None"
    by (simp_all add: kvs_def binding_def str_eval)
  ultimately have "challenge_from_header Inr Inr (''L402 '' @ render_params kvs) = Ok c"
    using challenge_from_rendered [of kvs "''L402 ''" Inr Inr]
    by (simp add: finish_challenge_Ok_iff c_def starts_with_def)
  from challenge_sound [OF this] show ?thesis by (simp add: c_def kvs_def)
qed

text \<open>C32. A token survives the trip through the \<open>Authorization\<close> header exactly if both parts are
  non-empty, the macaroon has no colon and the preimage does not end in white space.\<close>

theorem token_roundtrip:
  "token_from_header (to_header_value t) = Ok t \<longleftrightarrow>
     tk_macaroon t \<noteq> [] \<and> CHR '':'' \<notin> set (tk_macaroon t) \<and> tk_preimage t \<noteq> []
     \<and> trim_end (tk_preimage t) = tk_preimage t"
  by (rule token_from_trimmed)

end
