(* ===== verification/Receipt.thy ===== *)
theory Receipt
  imports Proto_Types
begin

text \<open>\<open>crates/l402-core/src/receipt.rs\<close>: the audit record of one payment.\<close>

record receipt =
  rc_timestamp :: u64
  rc_endpoint :: string
  rc_amount_sats :: u64
  rc_fee_sats :: u64
  rc_payment_hash :: string
  rc_preimage :: string
  rc_response_status :: u16
  rc_latency_ms :: u64

text \<open>
  The constructor reads the clock; \<open>None\<close> is a clock before the epoch, on which \<open>expect\<close>
  panics.
\<close>

definition receipt_new ::
  "u64 option \<Rightarrow> string \<Rightarrow> u64 \<Rightarrow> u64 \<Rightarrow> string \<Rightarrow> string \<Rightarrow> u16 \<Rightarrow> u64 \<Rightarrow> (receipt, 'e) rres" where
  "receipt_new clock endpoint amount_sats fee_sats payment_hash preimage response_status latency_ms =
     (case clock of None \<Rightarrow> Panic
      | Some timestamp \<Rightarrow> Ok \<lparr>rc_timestamp = timestamp, rc_endpoint = endpoint,
          rc_amount_sats = amount_sats, rc_fee_sats = fee_sats, rc_payment_hash = payment_hash,
          rc_preimage = preimage, rc_response_status = response_status, rc_latency_ms = latency_ms\<rparr>)"

definition total_cost_sats :: "receipt \<Rightarrow> u64" where
  "total_cost_sats r = saturating_add (rc_amount_sats r) (rc_fee_sats r)"

lemma unat_total_cost [u64_simps]:
  "unat (total_cost_sats r) = min (unat (rc_amount_sats r) + unat (rc_fee_sats r)) 18446744073709551615"
  by (simp add: total_cost_sats_def u64_simps)

end
