(* ===== verification/Budget.thy ===== *)
theory Budget
  imports Proto_Types
begin

text \<open>
  \<open>crates/l402-core/src/budget.rs\<close>: the limits, the ledger of settled spending, and the tracker
  that charges a reservation before a payment and settles or releases it afterwards. Each call
  takes the write lock for its whole body, so a call is one step of the state; \<open>now\<close> is the value
  its clock returned. The hash map of pending reservations is an association list, because its
  values are summed; an \<open>expect\<close> that fails and a sum that overflows are \<open>Panic\<close>.
\<close>

section \<open>Limits and ledgers\<close>

datatype budget = Budget
  (per_request_max: "u64 option")
  (hourly_max: "u64 option")
  (daily_max: "u64 option")
  (total_max: "u64 option")
  (domain_budgets: "string \<Rightarrow> budget option")

definition unlimited :: budget where
  "unlimited = Budget None None None None (\<lambda>_. None)"

definition budget_check :: "budget \<Rightarrow> u64 \<Rightarrow> (unit, client_error) rres" where
  "budget_check b amount =
     (case per_request_max b of
        Some m \<Rightarrow>
          (if m < amount
           then Err (BudgetExceeded (''payment of '' @ show_u64 amount
                  @ '' sats exceeds per-request limit of '' @ show_u64 m @ '' sats''))
           else Ok ())
      | None \<Rightarrow> Ok ())"

type_synonym buckets = "u64 \<Rightarrow> u64 option"

record ledger =
  lg_total :: u64
  lg_hourly :: buckets
  lg_daily :: buckets

definition ledger_default :: ledger where
  "ledger_default = \<lparr>lg_total = 0, lg_hourly = (\<lambda>_. None), lg_daily = (\<lambda>_. None)\<rparr>"

text \<open>\<open>map.get(&k).copied().unwrap_or(0)\<close>, and the entry update with the retain that follows it.\<close>

definition bucket :: "buckets \<Rightarrow> u64 \<Rightarrow> u64" where
  "bucket m k = (case m k of None \<Rightarrow> 0 | Some v \<Rightarrow> v)"

definition bucket_add :: "u64 \<Rightarrow> u64 \<Rightarrow> buckets \<Rightarrow> buckets" where
  "bucket_add k amount m = m(k \<mapsto> saturating_add (bucket m k) amount)"

definition retain_from :: "u64 \<Rightarrow> buckets \<Rightarrow> buckets" where
  "retain_from k0 m = (\<lambda>k. if k0 \<le> k then m k else None)"

fun allowance_loop :: "(u64 \<times> u64 option) list \<Rightarrow> u64 \<Rightarrow> u64 \<Rightarrow> (u64, client_error) rres" where
  "allowance_loop [] amount allowance = Ok allowance"
| "allowance_loop ((spent, None) # checks) amount allowance = allowance_loop checks amount allowance"
| "allowance_loop ((spent, Some limit) # checks) amount allowance =
     rbind (ok_or (BudgetExceeded ''invoice and reserved spending exceed budget'')
              (Option.bind (checked_sub limit spent) (\<lambda>v. checked_sub v amount)))
       (\<lambda>remaining. allowance_loop checks amount (min allowance remaining))"

definition allowance_checks :: "ledger \<Rightarrow> budget \<Rightarrow> u64 \<Rightarrow> u64 \<Rightarrow> (u64 \<times> u64 option) list" where
  "allowance_checks l b pending now =
     [(0, per_request_max b),
      (saturating_add (lg_total l) pending, total_max b),
      (saturating_add (bucket (lg_hourly l) (now div 3600)) pending, hourly_max b),
      (saturating_add (bucket (lg_daily l) (now div 86400)) pending, daily_max b),
      (saturating_add (lg_total l) pending, Some u64_max)]"

definition allowance :: "ledger \<Rightarrow> budget \<Rightarrow> u64 \<Rightarrow> u64 \<Rightarrow> u64 \<Rightarrow> (u64, client_error) rres" where
  "allowance l b amount pending now =
     allowance_loop (allowance_checks l b pending now) amount u64_max"

definition ledger_record :: "ledger \<Rightarrow> u64 \<Rightarrow> u64 \<Rightarrow> ledger" where
  "ledger_record l amount now =
     \<lparr>lg_total = saturating_add (lg_total l) amount,
      lg_hourly = retain_from (saturating_sub (now div 3600) 48)
                    (bucket_add (now div 3600) amount (lg_hourly l)),
      lg_daily = retain_from (saturating_sub (now div 86400) 2)
                    (bucket_add (now div 86400) amount (lg_daily l))\<rparr>"

section \<open>The tracker\<close>

type_synonym pending = "(u64 \<times> u64 \<times> string option) list"

record budget_state =
  bs_global :: ledger
  bs_domains :: "string \<Rightarrow> ledger option"
  bs_pending :: pending
  bs_next_id :: u64
  bs_frozen :: bool

definition tracker_new :: budget_state where
  "tracker_new = \<lparr>bs_global = ledger_default, bs_domains = (\<lambda>_. None), bs_pending = [],
     bs_next_id = 0, bs_frozen = False\<rparr>"

record reservation =
  rv_id :: u64
  rv_max_fee_sats :: u64

definition domain_ledger :: "budget_state \<Rightarrow> string \<Rightarrow> ledger" where
  "domain_ledger st d = (case bs_domains st d of None \<Rightarrow> ledger_default | Some l \<Rightarrow> l)"

definition pending_amounts :: "pending \<Rightarrow> u64 list" where
  "pending_amounts p = map (\<lambda>(_, amount, _). amount) p"

definition pending_for :: "string \<Rightarrow> pending \<Rightarrow> u64 list" where
  "pending_for d p = pending_amounts (filter (\<lambda>(_, _, d'). d' = Some d) p)"

text \<open>The fee the limits leave: the global ones first, then those of the domain.\<close>

definition fee_allowed ::
  "budget \<Rightarrow> budget_state \<Rightarrow> u64 \<Rightarrow> u64 \<Rightarrow> string option \<Rightarrow> u64 \<Rightarrow> (u64, client_error) rres" where
  "fee_allowed b st amount max_fee domain now =
     rbind (sum_u64 (pending_amounts (bs_pending st))) (\<lambda>pending.
     rbind (allowance (bs_global st) b amount pending now) (\<lambda>a.
     let fee = min max_fee a in
     case domain of
       None \<Rightarrow> Ok fee
     | Some d \<Rightarrow>
        (case domain_budgets b d of
           None \<Rightarrow> Ok fee
         | Some db \<Rightarrow>
             rbind (sum_u64 (pending_for d (bs_pending st))) (\<lambda>dpending.
             rbind (allowance (domain_ledger st d) db amount dpending now) (\<lambda>da.
             Ok (min fee da))))))"

definition reserve_at ::
  "budget \<Rightarrow> u64 \<Rightarrow> u64 \<Rightarrow> string option \<Rightarrow> u64 \<Rightarrow> budget_state
   \<Rightarrow> (reservation, client_error) rres \<times> budget_state" where
  "reserve_at b amount max_fee domain now st =
     (if bs_frozen st
      then (Err (BudgetExceeded ''backend exceeded its reservation; further payments are disabled''), st)
      else case fee_allowed b st amount max_fee domain now of
        Err e \<Rightarrow> (Err e, st)
      | Panic \<Rightarrow> (Panic, st)
      | Ok fee \<Rightarrow>
         (let i = bs_next_id st in
          case checked_add i 1 of
            None \<Rightarrow> (Err (BudgetExceeded ''reservation IDs exhausted''), st)
          | Some next \<Rightarrow>
             (let st1 = st\<lparr>bs_next_id := next\<rparr> in
              case add_u64 amount fee of
                Ok held \<Rightarrow> (Ok \<lparr>rv_id = i, rv_max_fee_sats = fee\<rparr>,
                   st1\<lparr>bs_pending := AList.update i (held, domain) (bs_pending st1)\<rparr>)
              | Err e \<Rightarrow> (Err e, st1)
              | Panic \<Rightarrow> (Panic, st1))))"

definition release :: "reservation \<Rightarrow> budget_state \<Rightarrow> budget_state" where
  "release r st = st\<lparr>bs_pending := AList.delete (rv_id r) (bs_pending st)\<rparr>"

definition settle_at ::
  "reservation \<Rightarrow> u64 \<Rightarrow> u64 \<Rightarrow> bool \<Rightarrow> budget_state \<Rightarrow> (unit, client_error) rres \<times> budget_state" where
  "settle_at r amount now violation st =
     (case map_of (bs_pending st) (rv_id r) of
        None \<Rightarrow> (Panic, st)
      | Some (reserved, domain) \<Rightarrow>
         (let st1 = st\<lparr>bs_pending := AList.delete (rv_id r) (bs_pending st)\<rparr>;
              st2 = st1\<lparr>bs_global := ledger_record (bs_global st1) amount now\<rparr>;
              st3 = (case domain of
                  None \<Rightarrow> st2
                | Some d \<Rightarrow> st2\<lparr>bs_domains := (bs_domains st2)
                     (d \<mapsto> ledger_record (domain_ledger st2 d) amount now)\<rparr>)
          in if violation \<or> reserved < amount
             then (Err (BudgetExceeded ''settled payment exceeded its reservation''),
                   st3\<lparr>bs_frozen := True\<rparr>)
             else (Ok (), st3)))"

text \<open>\<open>reserve\<close>, \<open>settle\<close> and \<open>settle_payment\<close> read the clock and call these; the two clock reads
  of \<open>check_and_record\<close> are \<open>now\<close> and \<open>now'\<close>.\<close>

definition check_and_record ::
  "budget \<Rightarrow> u64 \<Rightarrow> string option \<Rightarrow> u64 \<Rightarrow> u64 \<Rightarrow> budget_state
   \<Rightarrow> (unit, client_error) rres \<times> budget_state" where
  "check_and_record b amount domain now now' st =
     (case reserve_at b amount 0 domain now st of
        (Ok r, st1) \<Rightarrow> settle_at r amount now' False st1
      | (Err e, st1) \<Rightarrow> (Err e, st1)
      | (Panic, st1) \<Rightarrow> (Panic, st1))"

definition total_spent :: "budget_state \<Rightarrow> u64" where
  "total_spent st =
     foldl saturating_add (lg_total (bs_global st)) (pending_amounts (bs_pending st))"

section \<open>The allowance\<close>

text \<open>Room for an amount and a fee under one check, on natural numbers.\<close>

definition has_room :: "nat \<Rightarrow> u64 \<times> u64 option \<Rightarrow> bool" where
  "has_room n c = (case snd c of None \<Rightarrow> True | Some limit \<Rightarrow> unat (fst c) + n \<le> unat limit)"

lemma remaining_Some_iff:
  "Option.bind (checked_sub limit spent) (\<lambda>v. checked_sub v amount) = Some r
   \<longleftrightarrow> unat limit = unat spent + unat amount + unat r"
proof
  assume "Option.bind (checked_sub limit spent) (\<lambda>v. checked_sub v amount) = Some r"
  then show "unat limit = unat spent + unat amount + unat r"
    by (auto simp: bind_eq_Some_conv checked_sub_Some_iff)
next
  assume e: "unat limit = unat spent + unat amount + unat r"
  then have "unat amount + unat r < 2 ^ 64" using unat_u64_less [of limit]
    by (simp del: unat_u64_less)
  then obtain v :: u64 where v: "unat v = unat amount + unat r" unfolding fits_u64_iff by blast
  then have "checked_sub limit spent = Some v" "checked_sub v amount = Some r"
    using e by (simp_all add: checked_sub_Some_iff)
  then show "Option.bind (checked_sub limit spent) (\<lambda>v. checked_sub v amount) = Some r" by simp
qed

lemma remaining_None_iff:
  "Option.bind (checked_sub limit spent) (\<lambda>v. checked_sub v amount) = None
   \<longleftrightarrow> unat limit < unat spent + unat amount"
  by (auto simp: bind_eq_None_conv checked_sub_None_iff checked_sub_Some_iff checked_sub_def
      unat_sub word_le_nat_alt)

text \<open>The loop returns the greatest fee, up to its start value, that every check has room for.\<close>

lemma allowance_loop_Ok:
  "allowance_loop checks amount a = Ok f \<Longrightarrow>
     (\<forall>c \<in> set checks. has_room (unat amount) c)
     \<and> (\<forall>g. (g :: u64) \<le> f \<longleftrightarrow> g \<le> a \<and> (\<forall>c \<in> set checks. has_room (unat amount + unat g) c))"
proof (induction checks amount a rule: allowance_loop.induct)
  case (3 spent limit checks amount a)
  then obtain r where r: "Option.bind (checked_sub limit spent) (\<lambda>v. checked_sub v amount) = Some r"
    and f: "allowance_loop checks amount (min a r) = Ok f"
    by (auto simp: rbind_Ok_iff)
  have e: "unat limit = unat spent + unat amount + unat r" using r by (simp add: remaining_Some_iff)
  then have "g \<le> r \<longleftrightarrow> has_room (unat amount + unat g) (spent, Some limit)" for g
    by (simp add: has_room_def word_le_nat_alt)
  moreover have "has_room (unat amount) (spent, Some limit)" using e by (simp add: has_room_def)
  ultimately show ?case using "3.IH" [OF f] by (simp add: min.bounded_iff)
qed (auto simp: has_room_def)

lemma allowance_loop_Err:
  "allowance_loop checks amount a = Err e \<Longrightarrow>
     e = BudgetExceeded ''invoice and reserved spending exceed budget''
     \<and> (\<exists>c \<in> set checks. \<not> has_room (unat amount) c)"
proof (induction checks amount a rule: allowance_loop.induct)
  case (3 spent limit checks amount a)
  show ?case
  proof (cases "Option.bind (checked_sub limit spent) (\<lambda>v. checked_sub v amount)")
    case None
    then have "\<not> has_room (unat amount) (spent, Some limit)"
      by (simp add: remaining_None_iff has_room_def)
    then show ?thesis using 3(2) None by simp
  next
    case (Some r)
    then show ?thesis using "3.IH" [of r] 3(2) by auto
  qed
qed auto

lemma allowance_loop_not_Panic [simp]: "allowance_loop checks amount a \<noteq> Panic"
  by (induction checks amount a rule: allowance_loop.induct) (auto simp: rbind_Panic_iff)

lemma allowance_not_Panic [simp]: "allowance l b amount pending now \<noteq> Panic"
  by (simp add: allowance_def)

lemma allowance_Ok_room:
  assumes "allowance l b amount pending now = Ok f" and "g \<le> f"
  shows "\<forall>c \<in> set (allowance_checks l b pending now). has_room (unat amount + unat g) c"
  using allowance_loop_Ok [of "allowance_checks l b pending now" amount u64_max f] assms
  by (auto simp: allowance_def)

text \<open>\<open>fits\<close> is the budget as a specification: the amount fits under every limit on top of what
  is settled and pending. The sums are those of natural numbers.\<close>

definition within :: "nat \<Rightarrow> u64 option \<Rightarrow> bool" where
  "within n limit = (case limit of None \<Rightarrow> True | Some m \<Rightarrow> n \<le> unat m)"

definition fits :: "ledger \<Rightarrow> budget \<Rightarrow> nat \<Rightarrow> nat \<Rightarrow> u64 \<Rightarrow> bool" where
  "fits l b pend n now \<longleftrightarrow>
     within n (per_request_max b)
   \<and> within (unat (lg_total l) + pend + n) (total_max b)
   \<and> within (unat (bucket (lg_hourly l) (now div 3600)) + pend + n) (hourly_max b)
   \<and> within (unat (bucket (lg_daily l) (now div 86400)) + pend + n) (daily_max b)
   \<and> unat (lg_total l) + pend + n < 2 ^ 64"

lemma within_mono: "within n l \<Longrightarrow> m \<le> n \<Longrightarrow> within m l"
  by (auto simp: within_def split: option.splits)

lemma within_u64: "within n l \<Longrightarrow> l = Some m \<Longrightarrow> n < 2 ^ 64"
  using unat_u64_less [of m] by (auto simp: within_def simp del: unat_u64_less)

lemma has_room_within:
  "unat x + unat p < 2 ^ 64 \<Longrightarrow>
     has_room n (saturating_add x p, limit) \<longleftrightarrow> within (unat x + unat p + n) limit"
  by (auto simp: has_room_def within_def unat_saturating_add split: option.splits)

lemma has_room_zero: "has_room n (0, limit) \<longleftrightarrow> within n limit"
  by (auto simp: has_room_def within_def split: option.splits)

definition sane :: "ledger \<Rightarrow> nat \<Rightarrow> u64 \<Rightarrow> bool" where
  "sane l pend now \<longleftrightarrow> unat (lg_total l) + pend < 2 ^ 64
     \<and> unat (bucket (lg_hourly l) (now div 3600)) \<le> unat (lg_total l)
     \<and> unat (bucket (lg_daily l) (now div 86400)) \<le> unat (lg_total l)"

lemma room_iff_fits:
  assumes "sane l (unat pending) now"
  shows "(\<forall>c \<in> set (allowance_checks l b pending now). has_room n c) \<longleftrightarrow> fits l b (unat pending) n now"
proof -
  have t: "unat (lg_total l) + unat pending < 2 ^ 64"
    and h: "unat (bucket (lg_hourly l) (now div 3600)) + unat pending < 2 ^ 64"
    and d: "unat (bucket (lg_daily l) (now div 86400)) + unat pending < 2 ^ 64"
    using assms by (auto simp: sane_def)
  have m: "within (unat (lg_total l) + unat pending + n) (Some u64_max)
      \<longleftrightarrow> unat (lg_total l) + unat pending + n < 2 ^ 64"
    by (auto simp: within_def)
  show ?thesis
    unfolding allowance_checks_def fits_def m [symmetric]
    by (simp only: list.set ball_simps has_room_zero has_room_within [OF t] has_room_within [OF h]
        has_room_within [OF d] simp_thms)
qed

text \<open>The allowance is the greatest fee that still fits; an amount that does not fit is refused.\<close>

lemma allowance_Ok:
  assumes "sane l (unat pending) now" and "allowance l b amount pending now = Ok f"
  shows "fits l b (unat pending) (unat amount + unat f) now"
    and "g \<le> f \<longleftrightarrow> fits l b (unat pending) (unat amount + unat g) now"
proof -
  have a: "g \<le> f \<longleftrightarrow> fits l b (unat pending) (unat amount + unat g) now" for g
    using allowance_loop_Ok [of "allowance_checks l b pending now" amount u64_max f] assms(2)
      room_iff_fits [OF assms(1)]
    by (simp add: allowance_def)
  show "fits l b (unat pending) (unat amount + unat f) now" using a [of f] by simp
  show "g \<le> f \<longleftrightarrow> fits l b (unat pending) (unat amount + unat g) now" by (rule a)
qed

lemma fits_mono: "fits l b p n now \<Longrightarrow> m \<le> n \<Longrightarrow> fits l b p m now"
  unfolding fits_def by (auto elim!: within_mono)

lemma allowance_Err_iff:
  assumes "sane l (unat pending) now"
  shows "(\<exists>e. allowance l b amount pending now = Err e) \<longleftrightarrow> \<not> fits l b (unat pending) (unat amount) now"
proof (cases "allowance l b amount pending now")
  case (Ok f)
  then show ?thesis using fits_mono [OF allowance_Ok(1) [OF assms Ok], of "unat amount"] by simp
next
  case (Err e)
  then show ?thesis
    using allowance_loop_Err [of "allowance_checks l b pending now" amount u64_max e]
      room_iff_fits [OF assms, of b "unat amount"]
    by (auto simp: allowance_def)
qed simp

section \<open>Settled payments and the ledger that sums them\<close>

text \<open>
  The history of a ledger: the time and the amount of every settled payment. \<open>paid_in w k\<close> is
  what was paid in the window \<open>k\<close> of width \<open>w\<close>.
\<close>

type_synonym history = "(u64 \<times> u64) list"

definition paid :: "history \<Rightarrow> nat" where
  "paid h = sum_list (map (unat \<circ> snd) h)"

definition paid_in :: "u64 \<Rightarrow> u64 \<Rightarrow> history \<Rightarrow> nat" where
  "paid_in w k h = paid (filter (\<lambda>(t, _). t div w = k) h)"

lemma paid_snoc [simp]: "paid (h @ [(t, a)]) = paid h + unat a"
  by (simp add: paid_def)

lemma paid_in_snoc [simp]:
  "paid_in w k (h @ [(t, a)]) = paid_in w k h + (if t div w = k then unat a else 0)"
  by (simp add: paid_in_def paid_def)

lemma paid_in_le: "paid_in w k h \<le> paid h"
  by (induction h) (auto simp: paid_in_def paid_def)

lemma paid_in_future:
  assumes "\<forall>x \<in> set h. fst x \<le> now" and "now div w < k"
  shows "paid_in w k h = 0"
proof -
  have "t div w \<noteq> k" if "(t, a) \<in> set h" for t a
  proof -
    have "t \<le> now" using assms(1) that by auto
    then have "t div w \<le> now div w" by (simp add: word_le_nat_alt unat_div div_le_mono)
    then show ?thesis using assms(2) by auto
  qed
  then have "filter (\<lambda>(t, _). t div w = k) h = []" by (auto simp: filter_empty_conv)
  then show ?thesis by (simp add: paid_in_def paid_def)
qed

text \<open>
  A family of buckets agrees with the history for the last \<open>keep\<close> windows, no window exceeds
  the limit, and from the current window on there is room for what is pending.
\<close>

definition buckets_ok :: "u64 \<Rightarrow> u64 \<Rightarrow> u64 option \<Rightarrow> buckets \<Rightarrow> history \<Rightarrow> nat \<Rightarrow> u64 \<Rightarrow> bool" where
  "buckets_ok w keep limit m h pend now \<longleftrightarrow>
     (\<forall>k \<ge> saturating_sub (now div w) keep. unat (bucket m k) = paid_in w k h)
   \<and> (\<forall>k. within (paid_in w k h) limit)
   \<and> (\<forall>k \<ge> now div w. within (paid_in w k h + pend) limit)"

definition ledger_ok :: "budget \<Rightarrow> ledger \<Rightarrow> history \<Rightarrow> nat \<Rightarrow> u64 \<Rightarrow> bool" where
  "ledger_ok b l h pend now \<longleftrightarrow>
     unat (lg_total l) = paid h \<and> paid h + pend < 2 ^ 64 \<and> within (paid h + pend) (total_max b)
   \<and> (\<forall>x \<in> set h. fst x \<le> now)
   \<and> buckets_ok 3600 48 (hourly_max b) (lg_hourly l) h pend now
   \<and> buckets_ok 86400 2 (daily_max b) (lg_daily l) h pend now"

lemma div_mono_u64: "(a :: u64) \<le> b \<Longrightarrow> a div w \<le> b div w"
  by (simp add: word_le_nat_alt unat_div div_le_mono)

lemma saturating_sub_le: "saturating_sub a b \<le> a"
  by (simp add: word_le_nat_alt unat_saturating_sub)

lemma saturating_sub_mono: "a \<le> c \<Longrightarrow> saturating_sub a b \<le> saturating_sub c b"
  by (simp add: word_le_nat_alt unat_saturating_sub)

lemma buckets_ok_tick:
  assumes "buckets_ok w keep limit m h pend now" and "now \<le> now'"
  shows "buckets_ok w keep limit m h pend now'"
proof -
  have "now div w \<le> now' div w" using assms(2) by (rule div_mono_u64)
  then show ?thesis
    using assms(1) saturating_sub_mono [of "now div w" "now' div w" keep] order.trans
    unfolding buckets_ok_def by blast
qed

lemma buckets_ok_pend:
  "buckets_ok w keep limit m h pend now \<Longrightarrow> pend' \<le> pend \<Longrightarrow> buckets_ok w keep limit m h pend' now"
  unfolding buckets_ok_def by (meson add_left_mono within_mono)

text \<open>Reserving: what fits in the current window fits in every later one.\<close>

lemma buckets_ok_reserve:
  assumes "buckets_ok w keep limit m h pend now" and "\<forall>x \<in> set h. fst x \<le> now"
    and "within (unat (bucket m (now div w)) + pend + n) limit"
  shows "buckets_ok w keep limit m h (pend + n) now"
proof -
  have "within (paid_in w k h + (pend + n)) limit" if "now div w \<le> k" for k
  proof (cases "k = now div w")
    case True
    then have "unat (bucket m k) = paid_in w k h"
      using assms(1) saturating_sub_le [of "now div w" keep] by (simp add: buckets_ok_def)
    then show ?thesis using assms(3) True by (simp add: add.assoc)
  next
    case False
    then have "paid_in w k h = 0" using that assms(2) by (intro paid_in_future) auto
    then show ?thesis using within_mono [OF assms(3)] by simp
  qed
  then show ?thesis using assms(1) by (simp add: buckets_ok_def)
qed

text \<open>Settling at most what was reserved.\<close>

lemma buckets_ok_settle:
  assumes "buckets_ok w keep limit m h pend now" and "unat a \<le> r" and "r \<le> pend"
    and "paid h + pend < 2 ^ 64"
  shows "buckets_ok w keep limit
    (retain_from (saturating_sub (now div w) keep) (bucket_add (now div w) a m))
    (h @ [(now, a)]) (pend - r) now"
proof -
  let ?k = "now div w"
  have b: "unat (bucket m ?k) = paid_in w ?k h"
    using assms(1) saturating_sub_le [of ?k keep] by (simp add: buckets_ok_def)
  have "paid_in w ?k h + unat a < 2 ^ 64" using paid_in_le [of w ?k h] assms(2-4) by simp
  then have s: "unat (saturating_add (bucket m ?k) a) = paid_in w ?k h + unat a"
    by (simp add: unat_saturating_add b)
  have "unat (bucket (retain_from (saturating_sub ?k keep) (bucket_add ?k a m)) k)
      = paid_in w k (h @ [(now, a)])" if "saturating_sub ?k keep \<le> k" for k
    using that assms(1) s
    by (auto simp: buckets_ok_def retain_from_def bucket_add_def bucket_def)
  moreover have w: "within (paid_in w k (h @ [(now, a)]) + (pend - r)) limit" if "?k \<le> k" for k
  proof -
    have "within (paid_in w k h + pend) limit" using assms(1) that by (simp add: buckets_ok_def)
    then show ?thesis by (rule within_mono) (use assms(2,3) in auto)
  qed
  moreover have "within (paid_in w k (h @ [(now, a)])) limit" for k
  proof (cases "?k = k")
    case True
    then show ?thesis using w [of k] by (auto elim: within_mono)
  next
    case False
    then show ?thesis using assms(1) by (simp add: buckets_ok_def)
  qed
  ultimately show ?thesis by (simp add: buckets_ok_def)
qed

lemma ledger_ok_default [simp]: "ledger_ok b ledger_default [] 0 now"
  by (auto simp: ledger_ok_def ledger_default_def paid_def paid_in_def buckets_ok_def bucket_def
      within_def split: option.splits)

lemma ledger_ok_tick: "ledger_ok b l h pend now \<Longrightarrow> now \<le> now' \<Longrightarrow> ledger_ok b l h pend now'"
  unfolding ledger_ok_def using buckets_ok_tick order.trans by blast

lemma ledger_ok_pend: "ledger_ok b l h pend now \<Longrightarrow> pend' \<le> pend \<Longrightarrow> ledger_ok b l h pend' now"
  unfolding ledger_ok_def by (auto intro: buckets_ok_pend elim: within_mono)

lemma ledger_ok_sane:
  assumes "ledger_ok b l h pend now"
  shows "sane l pend now"
proof -
  have "unat (bucket (lg_hourly l) (now div 3600)) = paid_in 3600 (now div 3600) h"
    "unat (bucket (lg_daily l) (now div 86400)) = paid_in 86400 (now div 86400) h"
    using assms saturating_sub_le [of "now div 3600" 48] saturating_sub_le [of "now div 86400" 2]
    by (simp_all add: ledger_ok_def buckets_ok_def)
  then show ?thesis using assms paid_in_le by (simp add: sane_def ledger_ok_def)
qed

lemma ledger_ok_reserve:
  assumes "ledger_ok b l h pend now" and "fits l b pend n now"
  shows "ledger_ok b l h (pend + n) now"
  using assms buckets_ok_reserve [of 3600 48 "hourly_max b" "lg_hourly l" h pend now n]
    buckets_ok_reserve [of 86400 2 "daily_max b" "lg_daily l" h pend now n]
  by (simp add: ledger_ok_def fits_def add.assoc)

lemma ledger_ok_settle:
  assumes "ledger_ok b l h pend now" and "unat a \<le> r" and "r \<le> pend"
  shows "ledger_ok b (ledger_record l a now) (h @ [(now, a)]) (pend - r) now"
proof -
  have t: "paid h + pend < 2 ^ 64" "unat (lg_total l) = paid h" "within (paid h + pend) (total_max b)"
    using assms(1) by (simp_all add: ledger_ok_def)
  have le: "paid h + unat a + (pend - r) \<le> paid h + pend" using assms(2,3) by simp
  have "buckets_ok 3600 48 (hourly_max b) (lg_hourly (ledger_record l a now)) (h @ [(now, a)]) (pend - r) now"
    "buckets_ok 86400 2 (daily_max b) (lg_daily (ledger_record l a now)) (h @ [(now, a)]) (pend - r) now"
    using assms t(1) by (auto simp: ledger_ok_def ledger_record_def intro!: buckets_ok_settle)
  then show ?thesis using assms t le within_mono [OF t(3) le]
    by (auto simp: ledger_ok_def ledger_record_def unat_saturating_add)
qed

section \<open>Runs of the tracker\<close>

text \<open>
  The world a tracker lives in: its state, the clock, and what its callers actually paid (time,
  amount, domain). The clock does not go backwards. A reservation is consumed by \<open>release\<close> and
  \<open>settle\<close> (Rust moves it), so these apply to live reservations only. A payment whose future
  is dropped takes no further step: its reservation stays.
\<close>

record world =
  w_st :: budget_state
  w_now :: u64
  w_paid :: "(u64 \<times> u64 \<times> string option) list"

definition hist :: "(string option \<Rightarrow> bool) \<Rightarrow> (u64 \<times> u64 \<times> string option) list \<Rightarrow> history" where
  "hist P ps = map (\<lambda>(t, a, d). (t, a)) (filter (\<lambda>(t, a, d). P d) ps)"

definition psum :: "(string option \<Rightarrow> bool) \<Rightarrow> pending \<Rightarrow> nat" where
  "psum P p = sum_list (map (\<lambda>(i, a, d). if P d then unat a else 0) p)"

abbreviation any_domain :: "string option \<Rightarrow> bool" where
  "any_domain \<equiv> \<lambda>_. True"

abbreviation in_domain :: "string \<Rightarrow> string option \<Rightarrow> bool" where
  "in_domain d \<equiv> \<lambda>d'. d' = Some d"

inductive budget_step :: "budget \<Rightarrow> world \<Rightarrow> world \<Rightarrow> bool" for b where
  tick: "w_now w \<le> now' \<Longrightarrow> budget_step b w (w\<lparr>w_now := now'\<rparr>)"
| reserve: "reserve_at b amount max_fee domain (w_now w) (w_st w) = (res, st') \<Longrightarrow>
     budget_step b w (w\<lparr>w_st := st'\<rparr>)"
| released: "map_of (bs_pending (w_st w)) (rv_id r) \<noteq> None \<Longrightarrow>
     budget_step b w (w\<lparr>w_st := release r (w_st w)\<rparr>)"
| settled: "map_of (bs_pending (w_st w)) (rv_id r) = Some (reserved, domain) \<Longrightarrow>
     settle_at r amount (w_now w) violation (w_st w) = (res, st') \<Longrightarrow>
     budget_step b w (w\<lparr>w_st := st', w_paid := w_paid w @ [(w_now w, amount, domain)]\<rparr>)"

inductive budget_reachable :: "budget \<Rightarrow> world \<Rightarrow> bool" for b where
  start: "budget_reachable b \<lparr>w_st = tracker_new, w_now = now, w_paid = []\<rparr>"
| step: "budget_reachable b w \<Longrightarrow> budget_step b w w' \<Longrightarrow> budget_reachable b w'"

inductive_cases budget_stepE: "budget_step b w w'"

text \<open>A single payment is within the per-request limits, the global one and that of its domain.\<close>

definition request_ok :: "budget \<Rightarrow> string option \<Rightarrow> nat \<Rightarrow> bool" where
  "request_ok b domain n \<longleftrightarrow>
     within n (per_request_max b)
   \<and> (case domain of None \<Rightarrow> True
      | Some d \<Rightarrow> (case domain_budgets b d of None \<Rightarrow> True | Some db \<Rightarrow> within n (per_request_max db)))"

definition budget_inv :: "budget \<Rightarrow> world \<Rightarrow> bool" where
  "budget_inv b w \<longleftrightarrow>
     (let st = w_st w; p = bs_pending st in
      distinct (map fst p) \<and> (\<forall>i \<in> fst ` set p. i < bs_next_id st)
    \<and> (\<forall>(i, a, d) \<in> set p. request_ok b d (unat a))
    \<and> (\<not> bs_frozen st \<longrightarrow>
         (\<forall>(t, a, d) \<in> set (w_paid w). request_ok b d (unat a))
       \<and> ledger_ok b (bs_global st) (hist any_domain (w_paid w)) (psum any_domain p) (w_now w)
       \<and> (\<forall>d db. domain_budgets b d = Some db \<longrightarrow>
           ledger_ok db (domain_ledger st d) (hist (in_domain d) (w_paid w)) (psum (in_domain d) p)
             (w_now w))))"

lemma psum_any: "psum any_domain p = sum_list (map unat (pending_amounts p))"
  by (simp add: psum_def pending_amounts_def comp_def case_prod_unfold)

lemma psum_for: "psum (in_domain d) p = sum_list (map unat (pending_for d p))"
  by (induction p) (auto simp: psum_def pending_for_def pending_amounts_def)

lemma psum_update_new:
  "i \<notin> fst ` set p \<Longrightarrow> psum P (AList.update i (a, d) p) = psum P p + (if P d then unat a else 0)"
  by (induction p) (auto simp: psum_def)

lemma update_new: "i \<notin> fst ` set p \<Longrightarrow> AList.update i v p = p @ [(i, v)]"
  by (induction p) auto

lemma psum_delete:
  assumes "distinct (map fst p)" and "map_of p i = Some (a, d)"
  shows "psum P p = psum P (AList.delete i p) + (if P d then unat a else 0)"
  using assms
proof (induction p)
  case (Cons x p)
  obtain j a' d' where x: "x = (j, a', d')" by (cases x)
  show ?case
  proof (cases "j = i")
    case True
    then have "i \<notin> fst ` set p" using Cons.prems(1) x by auto
    then have "AList.delete i p = p" by (force simp: AList.delete_eq filter_id_conv)
    then show ?thesis using True Cons.prems(2) x by (simp add: psum_def)
  next
    case False
    then show ?thesis using Cons x by (simp add: psum_def)
  qed
qed simp

lemma psum_delete_le: "psum P (AList.delete i p) \<le> psum P p"
  by (induction p) (auto simp: psum_def)

lemma hist_snoc:
  "hist P (ps @ [(t, a, d)]) = (if P d then hist P ps @ [(t, a)] else hist P ps)"
  by (simp add: hist_def)

section \<open>One reservation\<close>

definition tracker_fits :: "budget \<Rightarrow> budget_state \<Rightarrow> string option \<Rightarrow> nat \<Rightarrow> u64 \<Rightarrow> bool" where
  "tracker_fits b st domain n now \<longleftrightarrow>
     fits (bs_global st) b (psum any_domain (bs_pending st)) n now
   \<and> (case domain of None \<Rightarrow> True
      | Some d \<Rightarrow> (case domain_budgets b d of None \<Rightarrow> True
         | Some db \<Rightarrow> fits (domain_ledger st d) db (psum (in_domain d) (bs_pending st)) n now))"

definition tracker_sane :: "budget \<Rightarrow> budget_state \<Rightarrow> string option \<Rightarrow> u64 \<Rightarrow> bool" where
  "tracker_sane b st domain now \<longleftrightarrow>
     sane (bs_global st) (psum any_domain (bs_pending st)) now
   \<and> (case domain of None \<Rightarrow> True
      | Some d \<Rightarrow> (case domain_budgets b d of None \<Rightarrow> True
         | Some db \<Rightarrow> sane (domain_ledger st d) (psum (in_domain d) (bs_pending st)) now))"

lemma tracker_fits_mono: "tracker_fits b st d n now \<Longrightarrow> m \<le> n \<Longrightarrow> tracker_fits b st d m now"
  by (auto simp: tracker_fits_def elim: fits_mono split: option.splits)

lemma sane_sum:
  assumes "sane l (sum_list (map unat xs)) now"
  obtains s where "sum_u64 xs = Ok s" and "unat s = sum_list (map unat xs)"
  by (rule sum_u64_fits [of xs]) (use assms that in \<open>auto simp: sane_def\<close>)

text \<open>The fee of the code is the greatest one that fits, and \<open>Err\<close> means that nothing fits.\<close>

definition fee_spec :: "(nat \<Rightarrow> bool) \<Rightarrow> u64 \<Rightarrow> u64 \<Rightarrow> (u64, client_error) rres \<Rightarrow> bool" where
  "fee_spec F amount max_fee res \<longleftrightarrow>
     (case res of Panic \<Rightarrow> False
      | Err e \<Rightarrow> \<not> F (unat amount)
      | Ok f \<Rightarrow> F (unat amount + unat f)
          \<and> (\<forall>g. g \<le> f \<longleftrightarrow> g \<le> max_fee \<and> F (unat amount + unat g)))"

lemma allowance_fee_spec:
  assumes "sane l (unat pending) now"
  shows "fee_spec (\<lambda>n. fits l b (unat pending) n now) amount max_fee
    (rbind (allowance l b amount pending now) (\<lambda>a. Ok (min max_fee a)))"
proof (cases "allowance l b amount pending now")
  case (Ok f)
  have "fits l b (unat pending) (unat amount + unat (min max_fee f)) now"
    using allowance_Ok(2) [OF assms Ok, of "min max_fee f"] by simp
  then show ?thesis using allowance_Ok(2) [OF assms Ok] by (simp add: fee_spec_def Ok min.bounded_iff)
next
  case (Err e)
  then show ?thesis using allowance_Err_iff [OF assms, of b amount] by (simp add: fee_spec_def)
qed simp

lemma fee_spec_conj:
  assumes "fee_spec F amount max_fee r1" and "\<And>f. r1 = Ok f \<Longrightarrow> fee_spec G amount f (r2 f)"
    and "\<And>m n. F n \<Longrightarrow> m \<le> n \<Longrightarrow> F m" and "\<And>m n. G n \<Longrightarrow> m \<le> n \<Longrightarrow> G m"
  shows "fee_spec (\<lambda>n. F n \<and> G n) amount max_fee (rbind r1 r2)"
proof (cases r1)
  case (Ok f)
  show ?thesis
  proof (cases "r2 f")
    case (Ok f2)
    have 1: "g \<le> f \<longleftrightarrow> g \<le> max_fee \<and> F (unat amount + unat g)" for g
      using assms(1) by (simp add: \<open>r1 = Ok f\<close> fee_spec_def)
    have 2: "G (unat amount + unat f2)" "g \<le> f2 \<longleftrightarrow> g \<le> f \<and> G (unat amount + unat g)" for g
      using assms(2) [OF \<open>r1 = Ok f\<close>] by (simp_all add: Ok fee_spec_def)
    have "F (unat amount + unat f2)" using 1 2(2) [of f2] by simp
    then show ?thesis using 1 2 by (simp add: fee_spec_def \<open>r1 = Ok f\<close> Ok)
  qed (use assms(1,2) in \<open>auto simp: fee_spec_def Ok\<close>)
qed (use assms(1) in \<open>auto simp: fee_spec_def\<close>)

lemma fee_allowed_spec:
  assumes "tracker_sane b st domain now"
  shows "fee_spec (\<lambda>n. tracker_fits b st domain n now) amount max_fee
    (fee_allowed b st amount max_fee domain now)"
proof -
  have sg: "sane (bs_global st) (psum any_domain (bs_pending st)) now"
    using assms by (simp add: tracker_sane_def)
  obtain p where p: "sum_u64 (pending_amounts (bs_pending st)) = (Ok p :: (u64, client_error) rres)"
    "unat p = psum any_domain (bs_pending st)"
    using sane_sum sg unfolding psum_any by metis
  let ?r1 = "rbind (allowance (bs_global st) b amount p now) (\<lambda>a. Ok (min max_fee a))"
  have r1: "fee_spec (\<lambda>n. fits (bs_global st) b (psum any_domain (bs_pending st)) n now) amount max_fee ?r1"
    using allowance_fee_spec [of "bs_global st" p now b amount max_fee] sg p(2) by simp
  show ?thesis
  proof (cases "\<exists>d db. domain = Some d \<and> domain_budgets b d = Some db")
    case False
    then have "fee_allowed b st amount max_fee domain now = ?r1"
      by (cases "allowance (bs_global st) b amount p now")
        (auto simp: fee_allowed_def p(1) Let_def split: option.splits)
    moreover have "tracker_fits b st domain n now \<longleftrightarrow>
        fits (bs_global st) b (psum any_domain (bs_pending st)) n now" for n
      using False by (auto simp: tracker_fits_def split: option.splits)
    ultimately show ?thesis using r1 by simp
  next
    case True
    then obtain d db where d: "domain = Some d" "domain_budgets b d = Some db" by blast
    have sd: "sane (domain_ledger st d) (psum (in_domain d) (bs_pending st)) now"
      using assms by (simp add: tracker_sane_def d)
    obtain q where q: "sum_u64 (pending_for d (bs_pending st)) = (Ok q :: (u64, client_error) rres)"
      "unat q = psum (in_domain d) (bs_pending st)"
      using sane_sum sd unfolding psum_for by metis
    let ?r2 = "\<lambda>fee. rbind (allowance (domain_ledger st d) db amount q now) (\<lambda>a. Ok (min fee a))"
    have "fee_allowed b st amount max_fee domain now = rbind ?r1 ?r2"
      by (cases "allowance (bs_global st) b amount p now")
        (simp_all add: fee_allowed_def p(1) q(1) d Let_def)
    moreover have "fee_spec (\<lambda>n. fits (domain_ledger st d) db (psum (in_domain d) (bs_pending st)) n now)
        amount fee (?r2 fee)" for fee
      using allowance_fee_spec [of "domain_ledger st d" q now db amount fee] sd q(2) by simp
    moreover have "tracker_fits b st domain n now \<longleftrightarrow>
        fits (bs_global st) b (psum any_domain (bs_pending st)) n now
        \<and> fits (domain_ledger st d) db (psum (in_domain d) (bs_pending st)) n now" for n
      by (simp add: tracker_fits_def d)
    ultimately show ?thesis using fee_spec_conj [OF r1] fits_mono by simp
  qed
qed

text \<open>What a reservation does to the state.\<close>

lemma reserve_at_cases:
  assumes "tracker_sane b st domain now"
  shows "fst (reserve_at b amount max_fee domain now st) \<noteq> Panic"
    and "fst (reserve_at b amount max_fee domain now st) = Err e \<Longrightarrow>
      snd (reserve_at b amount max_fee domain now st) = st"
    and "fst (reserve_at b amount max_fee domain now st) = Ok r \<Longrightarrow>
      \<not> bs_frozen st \<and> rv_id r = bs_next_id st
      \<and> fee_allowed b st amount max_fee domain now = Ok (rv_max_fee_sats r)
      \<and> unat amount + unat (rv_max_fee_sats r) < 2 ^ 64 \<and> bs_next_id st \<noteq> u64_max
      \<and> snd (reserve_at b amount max_fee domain now st) =
          st\<lparr>bs_next_id := bs_next_id st + 1, bs_pending :=
             AList.update (bs_next_id st) (amount + rv_max_fee_sats r, domain) (bs_pending st)\<rparr>"
proof -
  note spec = fee_allowed_spec [OF assms, of amount max_fee]
  have fit: "unat amount + unat f < 2 ^ 64" if "fee_allowed b st amount max_fee domain now = Ok f" for f
    using spec that by (auto simp: fee_spec_def tracker_fits_def fits_def)
  have np: "fee_allowed b st amount max_fee domain now \<noteq> Panic"
    using spec by (auto simp: fee_spec_def)
  have mx: "checked_add (bs_next_id st) 1 \<noteq> None \<Longrightarrow> bs_next_id st \<noteq> u64_max"
    by (auto simp: checked_add_def)
  show "fst (reserve_at b amount max_fee domain now st) \<noteq> Panic"
    using fit np by (auto simp: reserve_at_def Let_def add_u64_def
        split: rres.splits option.splits if_splits)
  show "fst (reserve_at b amount max_fee domain now st) = Err e \<Longrightarrow>
      snd (reserve_at b amount max_fee domain now st) = st"
    using fit by (auto simp: reserve_at_def Let_def add_u64_def
        split: rres.splits option.splits if_splits)
  show "fst (reserve_at b amount max_fee domain now st) = Ok r \<Longrightarrow>
      \<not> bs_frozen st \<and> rv_id r = bs_next_id st
      \<and> fee_allowed b st amount max_fee domain now = Ok (rv_max_fee_sats r)
      \<and> unat amount + unat (rv_max_fee_sats r) < 2 ^ 64 \<and> bs_next_id st \<noteq> u64_max
      \<and> snd (reserve_at b amount max_fee domain now st) =
          st\<lparr>bs_next_id := bs_next_id st + 1, bs_pending :=
             AList.update (bs_next_id st) (amount + rv_max_fee_sats r, domain) (bs_pending st)\<rparr>"
    using fit mx by (auto simp: reserve_at_def Let_def add_u64_def checked_add_def
        split: rres.splits option.splits if_splits)
qed

section \<open>The invariant is preserved\<close>

lemma request_ok_mono: "request_ok b d n \<Longrightarrow> m \<le> n \<Longrightarrow> request_ok b d m"
  by (auto simp: request_ok_def elim: within_mono split: option.splits)

lemma tracker_fits_request: "tracker_fits b st d n now \<Longrightarrow> request_ok b d n"
  by (auto simp: tracker_fits_def request_ok_def fits_def split: option.splits)

lemma inv_ledgers:
  assumes "budget_inv b w" and "\<not> bs_frozen (w_st w)"
  shows "ledger_ok b (bs_global (w_st w)) (hist any_domain (w_paid w))
      (psum any_domain (bs_pending (w_st w))) (w_now w)"
    and "domain_budgets b d = Some db \<Longrightarrow>
      ledger_ok db (domain_ledger (w_st w) d) (hist (in_domain d) (w_paid w))
        (psum (in_domain d) (bs_pending (w_st w))) (w_now w)"
  using assms by (simp_all add: budget_inv_def Let_def)

lemma inv_sane:
  assumes "budget_inv b w" and "\<not> bs_frozen (w_st w)"
  shows "tracker_sane b (w_st w) domain (w_now w)"
  using ledger_ok_sane [OF inv_ledgers(1) [OF assms]] ledger_ok_sane [OF inv_ledgers(2) [OF assms]]
  by (simp add: tracker_sane_def split: option.splits)

lemma next_id_grows: "(i :: u64) \<noteq> u64_max \<Longrightarrow> i < i + 1"
proof -
  assume "i \<noteq> u64_max"
  then have "unat i \<noteq> 18446744073709551615" by (simp add: word_unat_eq_iff)
  then have "unat (i + 1) = unat i + 1" using unat_u64_le [of i]
    by (subst unat_add_u64_no_overflow) simp_all
  then show ?thesis by (simp add: word_less_nat_alt)
qed

lemma domain_ledger_frame [simp]:
  "domain_ledger (st\<lparr>bs_pending := p\<rparr>) d = domain_ledger st d"
  "domain_ledger (st\<lparr>bs_next_id := n\<rparr>) d = domain_ledger st d"
  "domain_ledger (st\<lparr>bs_global := l\<rparr>) d = domain_ledger st d"
  "domain_ledger (st\<lparr>bs_frozen := f\<rparr>) d = domain_ledger st d"
  by (simp_all add: domain_ledger_def)

lemma budget_invI:
  assumes "distinct (map fst (bs_pending (w_st w)))"
    and "\<And>i. i \<in> fst ` set (bs_pending (w_st w)) \<Longrightarrow> i < bs_next_id (w_st w)"
    and "\<And>i a d. (i, a, d) \<in> set (bs_pending (w_st w)) \<Longrightarrow> request_ok b d (unat a)"
    and "\<And>t a d. \<not> bs_frozen (w_st w) \<Longrightarrow> (t, a, d) \<in> set (w_paid w) \<Longrightarrow> request_ok b d (unat a)"
    and "\<not> bs_frozen (w_st w) \<Longrightarrow>
      ledger_ok b (bs_global (w_st w)) (hist any_domain (w_paid w))
        (psum any_domain (bs_pending (w_st w))) (w_now w)"
    and "\<And>d db. \<not> bs_frozen (w_st w) \<Longrightarrow> domain_budgets b d = Some db \<Longrightarrow>
      ledger_ok db (domain_ledger (w_st w) d) (hist (in_domain d) (w_paid w))
        (psum (in_domain d) (bs_pending (w_st w))) (w_now w)"
  shows "budget_inv b w"
proof -
  have "\<forall>(i, a, d) \<in> set (bs_pending (w_st w)). request_ok b d (unat a)"
    using assms(3) by auto
  moreover have "\<not> bs_frozen (w_st w) \<Longrightarrow> \<forall>(t, a, d) \<in> set (w_paid w). request_ok b d (unat a)"
    using assms(4) by auto
  ultimately show ?thesis unfolding budget_inv_def Let_def
    by (intro conjI impI ballI allI assms) simp_all
qed

lemma budget_invD:
  assumes "budget_inv b w"
  shows "distinct (map fst (bs_pending (w_st w)))"
    and "i \<in> fst ` set (bs_pending (w_st w)) \<Longrightarrow> i < bs_next_id (w_st w)"
    and "(i, a, d) \<in> set (bs_pending (w_st w)) \<Longrightarrow> request_ok b d (unat a)"
    and "\<not> bs_frozen (w_st w) \<Longrightarrow> (t, a, d) \<in> set (w_paid w) \<Longrightarrow> request_ok b d (unat a)"
  using assms by (auto simp: budget_inv_def Let_def)

text \<open>A reservation that fits, under a fresh identifier.\<close>

lemma inv_reserved:
  assumes inv: "budget_inv b w" and nf: "\<not> bs_frozen (w_st w)"
    and fits: "tracker_fits b (w_st w) domain (unat a) (w_now w)" and mx: "bs_next_id (w_st w) \<noteq> u64_max"
  shows "budget_inv b (w\<lparr>w_st := (w_st w)\<lparr>bs_next_id := bs_next_id (w_st w) + 1,
    bs_pending := AList.update (bs_next_id (w_st w)) (a, domain) (bs_pending (w_st w))\<rparr>\<rparr>)"
proof -
  let ?st = "w_st w" and ?p = "bs_pending (w_st w)" and ?i = "bs_next_id (w_st w)"
  let ?p' = "AList.update ?i (a, domain) ?p"
  have fresh: "?i \<notin> fst ` set ?p" and dist: "distinct (map fst ?p)" and below: "\<forall>i \<in> fst ` set ?p. i < ?i"
    using inv by (auto simp: budget_inv_def Let_def)
  have p': "?p' = ?p @ [(?i, a, domain)]" by (rule update_new [OF fresh])
  have sum: "psum P ?p' = psum P ?p + (if P domain then unat a else 0)" for P
    by (rule psum_update_new [OF fresh])
  note ok = inv_ledgers [OF inv nf]
  have led: "ledger_ok b (bs_global ?st) (hist any_domain (w_paid w)) (psum any_domain ?p') (w_now w)"
    using ok(1) fits ledger_ok_reserve by (simp only: sum if_True) (simp add: tracker_fits_def)
  have dom: "ledger_ok db (domain_ledger ?st d) (hist (in_domain d) (w_paid w)) (psum (in_domain d) ?p') (w_now w)"
    if "domain_budgets b d = Some db" for d db
    using fits that ok(2) [OF that] ledger_ok_reserve [OF ok(2) [OF that], of "unat a"]
    by (auto simp only: sum) (auto simp: tracker_fits_def)
  have ids: "i < ?i + 1" if "i \<in> fst ` set ?p'" for i
  proof (cases "i = ?i")
    case False
    then have "i < ?i" using that below unfolding p' by auto
    then show ?thesis using next_id_grows [OF mx] by (rule order.strict_trans)
  qed (use next_id_grows [OF mx] in simp)
  have req: "request_ok b d (unat x)" if "(i, x, d) \<in> set ?p'" for i x d
    using that budget_invD(3) [OF inv] tracker_fits_request [OF fits] unfolding p' by auto
  show ?thesis
    by (rule budget_invI) (use dist ids req led dom budget_invD(4) [OF inv nf] in \<open>simp_all add: distinct_update\<close>)
qed

lemma inv_reserve:
  assumes "budget_inv b w"
    and "reserve_at b amount max_fee domain (w_now w) (w_st w) = (res, st')"
  shows "budget_inv b (w\<lparr>w_st := st'\<rparr>)"
proof (cases "bs_frozen (w_st w)")
  case True
  then have "st' = w_st w" using assms(2) by (simp add: reserve_at_def)
  then show ?thesis using assms(1) by (simp add: budget_inv_def)
next
  case False
  note sane = inv_sane [OF assms(1) False, of domain]
  note cases = reserve_at_cases [OF sane, of amount max_fee, unfolded assms(2), simplified]
  show ?thesis
  proof (cases res)
    case (Ok r)
    then have fee: "fee_allowed b (w_st w) amount max_fee domain (w_now w) = Ok (rv_max_fee_sats r)"
      and lt: "unat amount + unat (rv_max_fee_sats r) < 2 ^ 64" using cases(3) by simp_all
    have "tracker_fits b (w_st w) domain (unat (amount + rv_max_fee_sats r)) (w_now w)"
      using fee_allowed_spec [OF sane, of amount max_fee] fee
      by (simp add: fee_spec_def unat_add_u64_no_overflow [OF lt])
    from inv_reserved [OF assms(1) False this] show ?thesis using cases(3) Ok by simp
  next
    case (Err e)
    then show ?thesis using cases(2) assms(1) by (simp add: budget_inv_def)
  next
    case Panic
    then show ?thesis using cases(1) by simp
  qed
qed

lemma keys_delete_sub: "set (AList.delete i p) \<subseteq> set p"
  by (auto simp: AList.delete_eq)

lemma inv_release:
  assumes "budget_inv b w"
  shows "budget_inv b (w\<lparr>w_st := release r (w_st w)\<rparr>)"
proof -
  let ?p = "bs_pending (w_st w)" and ?p' = "AList.delete (rv_id r) (bs_pending (w_st w))"
  have "ledger_ok b (bs_global (w_st w)) (hist any_domain (w_paid w)) (psum any_domain ?p') (w_now w)"
    if "\<not> bs_frozen (w_st w)"
    using inv_ledgers(1) [OF assms that] psum_delete_le by (rule ledger_ok_pend)
  moreover have "ledger_ok db (domain_ledger (w_st w) d) (hist (in_domain d) (w_paid w))
      (psum (in_domain d) ?p') (w_now w)"
    if "\<not> bs_frozen (w_st w)" "domain_budgets b d = Some db" for d db
    using inv_ledgers(2) [OF assms that] psum_delete_le by (rule ledger_ok_pend)
  ultimately show ?thesis using assms keys_delete_sub [of "rv_id r" ?p]
    by (auto simp: budget_inv_def Let_def release_def distinct_delete)
qed

text \<open>The state after a settlement, without the freeze.\<close>

definition settle_record :: "u64 \<Rightarrow> u64 \<Rightarrow> string option \<Rightarrow> u64 \<Rightarrow> budget_state \<Rightarrow> budget_state" where
  "settle_record i amount domain now st =
     st\<lparr>bs_pending := AList.delete i (bs_pending st),
        bs_global := ledger_record (bs_global st) amount now,
        bs_domains := (case domain of None \<Rightarrow> bs_domains st
          | Some d \<Rightarrow> (bs_domains st)(d \<mapsto> ledger_record (domain_ledger st d) amount now))\<rparr>"

lemma settle_at_eq:
  "map_of (bs_pending st) (rv_id r) = Some (reserved, domain) \<Longrightarrow>
   settle_at r amount now violation st =
     (if violation \<or> reserved < amount
      then (Err (BudgetExceeded ''settled payment exceeded its reservation''),
            (settle_record (rv_id r) amount domain now st)\<lparr>bs_frozen := True\<rparr>)
      else (Ok (), settle_record (rv_id r) amount domain now st))"
  by (auto simp: settle_at_def settle_record_def Let_def domain_ledger_def split: option.splits)

lemma domain_ledger_settle:
  "domain_ledger (settle_record i amount domain now st) d =
     (if domain = Some d then ledger_record (domain_ledger st d) amount now else domain_ledger st d)"
  by (auto simp: settle_record_def domain_ledger_def split: option.splits)

lemma settle_record_frame [simp]:
  "bs_next_id (settle_record i a d now st) = bs_next_id st"
  "bs_frozen (settle_record i a d now st) = bs_frozen st"
  "bs_pending (settle_record i a d now st) = AList.delete i (bs_pending st)"
  "bs_global (settle_record i a d now st) = ledger_record (bs_global st) a now"
  by (simp_all add: settle_record_def)

lemma inv_settle:
  assumes "budget_inv b w" and "map_of (bs_pending (w_st w)) (rv_id r) = Some (reserved, domain)"
    and "settle_at r amount (w_now w) violation (w_st w) = (res, st')"
  shows "budget_inv b (w\<lparr>w_st := st', w_paid := w_paid w @ [(w_now w, amount, domain)]\<rparr>)"
proof -
  let ?p = "bs_pending (w_st w)" and ?p' = "AList.delete (rv_id r) (bs_pending (w_st w))"
  have dist: "distinct (map fst ?p)" using assms(1) by (simp add: budget_inv_def Let_def)
  have sub: "set ?p' \<subseteq> set ?p" by (rule keys_delete_sub)
  have sum: "psum P ?p = psum P ?p' + (if P domain then unat reserved else 0)" for P
    by (rule psum_delete [OF dist assms(2)])
  have req: "request_ok b domain (unat reserved)"
    using assms(1) map_of_SomeD [OF assms(2)] by (auto simp: budget_inv_def Let_def)
  show ?thesis
  proof (cases "violation \<or> reserved < amount \<or> bs_frozen (w_st w)")
    case True
    then have "bs_frozen st'" "bs_pending st' = ?p'" "bs_next_id st' = bs_next_id (w_st w)"
      using assms(3) by (auto simp: settle_at_eq [OF assms(2)] split: if_splits)
    then show ?thesis using assms(1) sub by (auto simp: budget_inv_def Let_def distinct_delete)
  next
    case False
    then have nf: "\<not> bs_frozen (w_st w)" and le: "unat amount \<le> unat reserved"
      and st': "st' = settle_record (rv_id r) amount domain (w_now w) (w_st w)"
      using assms(3) by (auto simp: settle_at_eq [OF assms(2)] word_less_nat_alt split: if_splits)
    have g: "ledger_ok b (bs_global st') (hist any_domain (w_paid w) @ [(w_now w, amount)])
        (psum any_domain ?p') (w_now w)"
      using ledger_ok_settle [OF inv_ledgers(1) [OF assms(1) nf] le] sum [of any_domain]
      by (simp add: st')
    have d: "ledger_ok db (domain_ledger st' d)
        (hist (in_domain d) (w_paid w @ [(w_now w, amount, domain)])) (psum (in_domain d) ?p') (w_now w)"
      if "domain_budgets b d = Some db" for d db
    proof (cases "domain = Some d")
      case True
      then show ?thesis
        using ledger_ok_settle [OF inv_ledgers(2) [OF assms(1) nf that] le] sum [of "in_domain d"]
        by (simp add: st' hist_snoc domain_ledger_settle)
    next
      case False
      then show ?thesis using inv_ledgers(2) [OF assms(1) nf that] sum [of "in_domain d"]
        by (simp add: st' hist_snoc domain_ledger_settle)
    qed
    show ?thesis
      using assms(1) sub nf g d request_ok_mono [OF req le]
      by (auto simp: budget_inv_def Let_def distinct_delete st' hist_snoc)
  qed
qed

lemma inv_tick:
  assumes "budget_inv b w" and "w_now w \<le> now'"
  shows "budget_inv b (w\<lparr>w_now := now'\<rparr>)"
  by (rule budget_invI)
    (use budget_invD [OF assms(1)] ledger_ok_tick [OF inv_ledgers(1) [OF assms(1)] assms(2)]
      ledger_ok_tick [OF inv_ledgers(2) [OF assms(1)] assms(2)] in simp_all)

lemma inv_start: "budget_inv b \<lparr>w_st = tracker_new, w_now = now, w_paid = []\<rparr>"
  by (auto simp: budget_inv_def tracker_new_def psum_def hist_def domain_ledger_def)

lemma budget_reachable_inv: "budget_reachable b w \<Longrightarrow> budget_inv b w"
proof (induction rule: budget_reachable.induct)
  case (start now)
  show ?case by (rule inv_start)
next
  case (step w w')
  from step(2,3) show ?case
    by (cases rule: budget_step.cases) (blast intro: inv_tick inv_reserve inv_release inv_settle)+
qed

section \<open>Reading the state\<close>

lemma total_spent_exact:
  assumes "budget_inv b w" and "\<not> bs_frozen (w_st w)"
  shows "unat (total_spent (w_st w)) = paid (hist any_domain (w_paid w)) + psum any_domain (bs_pending (w_st w))"
proof -
  have f: "unat (foldl saturating_add acc xs) = unat acc + sum_list (map unat xs)"
    if "unat acc + sum_list (map unat xs) < 2 ^ 64" for acc xs
    using that by (induction xs arbitrary: acc) (simp_all add: unat_saturating_add)
  have "unat (lg_total (bs_global (w_st w))) = paid (hist any_domain (w_paid w))"
    "paid (hist any_domain (w_paid w)) + psum any_domain (bs_pending (w_st w)) < 2 ^ 64"
    using inv_ledgers(1) [OF assms] by (simp_all add: ledger_ok_def)
  then show ?thesis
    using f [of "lg_total (bs_global (w_st w))" "pending_amounts (bs_pending (w_st w))"]
    by (simp add: total_spent_def psum_any)
qed

lemma release_reserved:
  assumes "i \<notin> fst ` set (bs_pending st)"
  shows "release r (st\<lparr>bs_next_id := n, bs_pending := AList.update i v (bs_pending st)\<rparr>)
    = st\<lparr>bs_next_id := n, bs_pending := AList.delete (rv_id r) (AList.update i v (bs_pending st))\<rparr>"
    and "AList.delete i (AList.update i v (bs_pending st)) = bs_pending st"
proof -
  have "AList.delete i (bs_pending st) = bs_pending st"
    using assms by (force simp: AList.delete_eq filter_id_conv)
  then show "AList.delete i (AList.update i v (bs_pending st)) = bs_pending st"
    by (simp add: update_new [OF assms] AList.delete_eq)
qed (simp add: release_def)

lemma reserve_Ok_iff:
  assumes "tracker_sane b st domain now" and "\<not> bs_frozen st" and "bs_next_id st \<noteq> u64_max"
  shows "(\<exists>r. fst (reserve_at b amount max_fee domain now st) = Ok r)
    \<longleftrightarrow> tracker_fits b st domain (unat amount) now"
proof (cases "fee_allowed b st amount max_fee domain now")
  case (Ok f)
  have "unat (bs_next_id st) + 1 < 2 ^ 64"
    using assms(3) unat_u64_le [of "bs_next_id st"] by (simp add: word_unat_eq_iff)
  moreover have ff: "tracker_fits b st domain (unat amount + unat f) now"
    using fee_allowed_spec [OF assms(1), of amount max_fee] by (simp add: Ok fee_spec_def)
  then have "unat amount + unat f < 2 ^ 64" by (auto simp: tracker_fits_def fits_def)
  ultimately have "\<exists>r. fst (reserve_at b amount max_fee domain now st) = Ok r"
    using assms(2) by (simp add: reserve_at_def Ok checked_add_def add_u64_def Let_def)
  then show ?thesis using tracker_fits_mono [OF ff] by simp
next
  case (Err e)
  then show ?thesis using fee_allowed_spec [OF assms(1), of amount max_fee] assms(2)
    by (simp add: fee_spec_def reserve_at_def)
next
  case Panic
  then show ?thesis using fee_allowed_spec [OF assms(1), of amount max_fee] by (simp add: fee_spec_def)
qed

text \<open>A budget and a world to apply the properties to: 40 of 100 reserved with a fee of 10.\<close>

definition sample_budget :: budget where
  "sample_budget = Budget (Some 50) (Some 80) None (Some 100) (\<lambda>_. None)"

definition sample_world :: world where
  "sample_world = \<lparr>w_st = snd (reserve_at sample_budget 40 20 None 7200 tracker_new), w_now = 7200,
     w_paid = []\<rparr>"

lemma sample_reserve:
  "reserve_at sample_budget 40 20 None 7200 tracker_new =
     (Ok \<lparr>rv_id = 0, rv_max_fee_sats = 10\<rparr>,
      tracker_new\<lparr>bs_next_id := 1, bs_pending := [(0, 50, None)]\<rparr>)"
  by (simp add: reserve_at_def tracker_new_def fee_allowed_def sum_u64_def pending_amounts_def
      allowance_def allowance_checks_def sample_budget_def ledger_default_def bucket_def
      saturating_add_def checked_sub_def checked_add_def add_u64_def u64_max_def Let_def)

lemma sample_reachable: "budget_reachable sample_budget sample_world"
proof -
  define w0 where "w0 = \<lparr>w_st = tracker_new, w_now = 7200, w_paid = []\<rparr>"
  have "reserve_at sample_budget 40 20 None (w_now w0) (w_st w0)
      = (fst (reserve_at sample_budget 40 20 None 7200 tracker_new),
         snd (reserve_at sample_budget 40 20 None 7200 tracker_new))"
    by (simp add: w0_def)
  from budget_step.reserve [OF this]
  have "budget_step sample_budget w0 sample_world" by (simp add: w0_def sample_world_def)
  moreover have "budget_reachable sample_budget w0"
    unfolding w0_def by (rule budget_reachable.start)
  ultimately show ?thesis by (rule budget_reachable.step [rotated])
qed

lemma sample_state: "w_st sample_world = tracker_new\<lparr>bs_next_id := 1, bs_pending := [(0, 50, None)]\<rparr>"
  by (simp add: sample_world_def sample_reserve)

text \<open>What is reserved now may be settled in the current window of \<open>w\<close> seconds or in a later one.\<close>

definition from_now :: "u64 \<Rightarrow> u64 \<Rightarrow> u64 \<Rightarrow> nat \<Rightarrow> nat" where
  "from_now w now k n = (if now div w \<le> k then n else 0)"

lemma ledger_limits:
  assumes "ledger_ok b l h pend now"
  shows "within (paid h + pend) (total_max b)"
    and "within (paid_in 3600 k h + from_now 3600 now k pend) (hourly_max b)"
    and "within (paid_in 86400 k h + from_now 86400 now k pend) (daily_max b)"
  using assms by (simp_all add: ledger_ok_def buckets_ok_def from_now_def)

lemma limits_hold:
  assumes "budget_reachable b w" and "\<not> bs_frozen (w_st w)"
  shows "within (paid (hist any_domain (w_paid w)) + psum any_domain (bs_pending (w_st w))) (total_max b)
    \<and> (\<forall>k. within (paid_in 3600 k (hist any_domain (w_paid w))
             + from_now 3600 (w_now w) k (psum any_domain (bs_pending (w_st w)))) (hourly_max b)
         \<and> within (paid_in 86400 k (hist any_domain (w_paid w))
             + from_now 86400 (w_now w) k (psum any_domain (bs_pending (w_st w)))) (daily_max b))
    \<and> (\<forall>(t, a, d) \<in> set (w_paid w). request_ok b d (unat a))
    \<and> (\<forall>(i, a, d) \<in> set (bs_pending (w_st w)). request_ok b d (unat a))
    \<and> (\<forall>d db. domain_budgets b d = Some db \<longrightarrow>
         within (paid (hist (in_domain d) (w_paid w)) + psum (in_domain d) (bs_pending (w_st w))) (total_max db)
       \<and> (\<forall>k. within (paid_in 3600 k (hist (in_domain d) (w_paid w))
                + from_now 3600 (w_now w) k (psum (in_domain d) (bs_pending (w_st w)))) (hourly_max db)
            \<and> within (paid_in 86400 k (hist (in_domain d) (w_paid w))
                + from_now 86400 (w_now w) k (psum (in_domain d) (bs_pending (w_st w)))) (daily_max db)))"
proof -
  note i = budget_reachable_inv [OF assms(1)]
  have "\<forall>(t, a, d) \<in> set (w_paid w). request_ok b d (unat a)"
    using budget_invD(4) [OF i assms(2)] by auto
  moreover have "\<forall>(j, a, d) \<in> set (bs_pending (w_st w)). request_ok b d (unat a)"
    using budget_invD(3) [OF i] by auto
  ultimately show ?thesis
    using ledger_limits [OF inv_ledgers(1) [OF i assms(2)]] ledger_limits [OF inv_ledgers(2) [OF i assms(2)]] by simp
qed

section \<open>Properties\<close>

text \<open>C1. As long as no settled payment broke its authorization (the tracker is not frozen), whatever
  the order of reservations, settlements, releases and abandoned payments: what was paid and what
  is still reserved stays within the total limit; what was paid in any clock hour or day, and from
  the current one on together with all that is reserved, stays within the hourly and the daily
  limit; every single payment and every single reservation is within the per-request limits. The
  same holds of every domain with a budget of its own.\<close>

theorem budget_never_exceeded:
  assumes "budget_reachable b w" and "\<not> bs_frozen (w_st w)"
  shows "within (paid (hist any_domain (w_paid w)) + psum any_domain (bs_pending (w_st w))) (total_max b)
    \<and> (\<forall>k. within (paid_in 3600 k (hist any_domain (w_paid w))
             + from_now 3600 (w_now w) k (psum any_domain (bs_pending (w_st w)))) (hourly_max b)
         \<and> within (paid_in 86400 k (hist any_domain (w_paid w))
             + from_now 86400 (w_now w) k (psum any_domain (bs_pending (w_st w)))) (daily_max b))
    \<and> (\<forall>(t, a, d) \<in> set (w_paid w). request_ok b d (unat a))
    \<and> (\<forall>(i, a, d) \<in> set (bs_pending (w_st w)). request_ok b d (unat a))
    \<and> (\<forall>d db. domain_budgets b d = Some db \<longrightarrow>
         within (paid (hist (in_domain d) (w_paid w)) + psum (in_domain d) (bs_pending (w_st w))) (total_max db)
       \<and> (\<forall>k. within (paid_in 3600 k (hist (in_domain d) (w_paid w))
                + from_now 3600 (w_now w) k (psum (in_domain d) (bs_pending (w_st w)))) (hourly_max db)
            \<and> within (paid_in 86400 k (hist (in_domain d) (w_paid w))
                + from_now 86400 (w_now w) k (psum (in_domain d) (bs_pending (w_st w)))) (daily_max db)))"
  by (rule limits_hold [OF assms])

theorem budget_never_exceeded_witness:
  "within (paid (hist any_domain (w_paid sample_world)) + psum any_domain (bs_pending (w_st sample_world)))
     (total_max sample_budget)"
  using budget_never_exceeded [OF sample_reachable] by (simp add: sample_state tracker_new_def)

lemma reserve_never_panics:
  assumes "budget_reachable b w"
  shows "fst (reserve_at b amount max_fee domain (w_now w) (w_st w)) \<noteq> Panic"
  using reserve_at_cases(1) [OF inv_sane [OF budget_reachable_inv [OF assms]]]
  by (cases "bs_frozen (w_st w)") (auto simp: reserve_at_def)

text \<open>C20. A reservation is granted exactly if the amount alone fits under every limit, global and
  of the domain, on top of what is settled and pending, and the fee it is granted is the greatest
  one up to the caller's cap that still fits. A refusal changes nothing.\<close>

theorem reserve_grants_greatest_fee:
  assumes "budget_reachable b w" and "\<not> bs_frozen (w_st w)" and "bs_next_id (w_st w) \<noteq> u64_max"
  shows "((\<exists>r. fst (reserve_at b amount max_fee domain (w_now w) (w_st w)) = Ok r)
      \<longleftrightarrow> tracker_fits b (w_st w) domain (unat amount) (w_now w))
    \<and> (\<forall>r g. fst (reserve_at b amount max_fee domain (w_now w) (w_st w)) = Ok r \<longrightarrow>
        (g \<le> rv_max_fee_sats r \<longleftrightarrow>
           g \<le> max_fee \<and> tracker_fits b (w_st w) domain (unat amount + unat g) (w_now w)))
    \<and> (\<forall>e. fst (reserve_at b amount max_fee domain (w_now w) (w_st w)) = Err e \<longrightarrow>
        snd (reserve_at b amount max_fee domain (w_now w) (w_st w)) = w_st w)"
proof -
  note s = inv_sane [OF budget_reachable_inv [OF assms(1)] assms(2), of domain]
  have "g \<le> rv_max_fee_sats r \<longleftrightarrow>
      g \<le> max_fee \<and> tracker_fits b (w_st w) domain (unat amount + unat g) (w_now w)"
    if "fst (reserve_at b amount max_fee domain (w_now w) (w_st w)) = Ok r" for r g
    using reserve_at_cases(3) [OF s that] fee_allowed_spec [OF s, of amount max_fee]
    by (simp add: fee_spec_def)
  then show ?thesis
    using reserve_Ok_iff [OF s assms(2,3), of amount max_fee] reserve_at_cases(2) [OF s] by blast
qed

theorem reserve_grants_greatest_fee_witness:
  "\<exists>r. fst (reserve_at sample_budget 30 5 None 7200 (w_st sample_world)) = Ok r"
proof -
  have "w_now sample_world = 7200" by (simp add: sample_world_def)
  moreover have "tracker_fits sample_budget (w_st sample_world) None (unat (30 :: u64)) 7200"
    by (simp add: tracker_fits_def fits_def within_def sample_budget_def sample_state tracker_new_def
        ledger_default_def bucket_def psum_def)
  ultimately show ?thesis
    using reserve_grants_greatest_fee [OF sample_reachable, of 30 5 None]
    by (simp add: sample_state tracker_new_def u64_max_def)
qed

text \<open>C27. Settling a live reservation always records the payment, in the total and in the ledger of
  its domain, and always frees the reservation. It fails exactly if the backend reports a
  violation or spent more than was reserved, and then the tracker is frozen.\<close>

theorem settle_records_always:
  assumes "map_of (bs_pending st) (rv_id r) = Some (reserved, domain)"
    and "settle_at r amount now violation st = (res, st')"
  shows "bs_pending st' = AList.delete (rv_id r) (bs_pending st)
    \<and> bs_global st' = ledger_record (bs_global st) amount now
    \<and> (\<forall>d. domain_ledger st' d = (if domain = Some d then ledger_record (domain_ledger st d) amount now
                                    else domain_ledger st d))
    \<and> (res = Ok () \<longleftrightarrow> \<not> violation \<and> amount \<le> reserved)
    \<and> (bs_frozen st' \<longleftrightarrow> bs_frozen st \<or> violation \<or> reserved < amount)"
  using assms(2) unfolding settle_at_eq [OF assms(1)]
  by (auto simp: domain_ledger_settle split: if_splits)

theorem settle_records_always_witness:
  "lg_total (bs_global (snd (settle_at \<lparr>rv_id = 0, rv_max_fee_sats = 10\<rparr> 60 7300 False (w_st sample_world)))) = 60
   \<and> bs_frozen (snd (settle_at \<lparr>rv_id = 0, rv_max_fee_sats = 10\<rparr> 60 7300 False (w_st sample_world)))"
  using settle_records_always [of "w_st sample_world" "\<lparr>rv_id = 0, rv_max_fee_sats = 10\<rparr>" 50 None,
      OF _ prod.collapse [symmetric], of 60 7300 False]
  by (simp add: sample_state tracker_new_def ledger_record_def ledger_default_def saturating_add_def)

text \<open>A frozen tracker stays frozen in every later state, and it refuses every reservation
  without changing its state.\<close>

lemma frozen_is_permanent:
  assumes "bs_frozen (w_st w)" and "(budget_step b)\<^sup>*\<^sup>* w w'"
  shows "bs_frozen (w_st w')
    \<and> (\<exists>e. reserve_at b amount max_fee domain now (w_st w') = (Err e, w_st w'))"
proof -
  have s: "bs_frozen (w_st v')" if "budget_step b v v'" "bs_frozen (w_st v)" for v v'
    using that by (cases rule: budget_step.cases)
      (auto simp: reserve_at_def release_def settle_at_eq split: if_splits)
  from assms(2,1) have "bs_frozen (w_st w')"
    by (induction rule: rtranclp_induct) (auto intro: s)
  then show ?thesis by (simp add: reserve_at_def)
qed

text \<open>Releasing a reservation gives back exactly what it held: but for the identifier counter,
  the tracker is as if the reservation had not been made.\<close>

lemma release_undoes_reserve:
  assumes "budget_reachable b w"
    and "reserve_at b amount max_fee domain (w_now w) (w_st w) = (Ok r, st')"
  shows "release r st' = (w_st w)\<lparr>bs_next_id := bs_next_id st'\<rparr>"
proof -
  note i = budget_reachable_inv [OF assms(1)]
  have nf: "\<not> bs_frozen (w_st w)" using assms(2) by (auto simp: reserve_at_def)
  have fresh: "bs_next_id (w_st w) \<notin> fst ` set (bs_pending (w_st w))"
    using budget_invD(2) [OF i] by blast
  have "rv_id r = bs_next_id (w_st w)" and "st' = (w_st w)\<lparr>bs_next_id := bs_next_id (w_st w) + 1,
      bs_pending := AList.update (bs_next_id (w_st w)) (amount + rv_max_fee_sats r, domain) (bs_pending (w_st w))\<rparr>"
    using reserve_at_cases(3) [OF inv_sane [OF i nf, of domain], of amount max_fee r] assms(2) by simp_all
  then show ?thesis using release_reserved(2) [OF fresh] by (simp add: release_def)
qed

end
