(* ===== verification/Client.thy ===== *)
theory Client
  imports Bolt11 Challenge Receipt Budget
begin

text \<open>
  \<open>crates/l402-core/src/client.rs\<close>: the builder, and the request flow of the client. What the
  client calls is the record \<open>env\<close>: the HTTP client, the Lightning backend and the token store
  (the ports), the clocks, and the URL and header functions of the \<open>url\<close> and \<open>http\<close> crates. The
  state behind them is \<open>'w\<close>; a call of a port may change it in any way, and time passes in it.

  A method is a function from the state to a result and a state. The blocks of \<open>pay_challenge\<close>
  that run under one lock are definitions of their own (\<open>claim\<close>, \<open>push_receipt\<close>, ...), which the
  concurrent model reuses. \<open>sy_log\<close> is not in the code: it records the calls of the ports in order.
\<close>

section \<open>Configuration and builder\<close>

record client_config =
  cfg_max_fee_sats :: u64
  cfg_max_retries :: u32
  cfg_user_agent :: string

definition config_default :: "string \<Rightarrow> client_config" where
  "config_default version =
     \<lparr>cfg_max_fee_sats = 100, cfg_max_retries = 1, cfg_user_agent = ''l402/'' @ version\<rparr>"

record ('l, 't, 'h) client_builder =
  bd_ln_backend :: 'l
  bd_token_store :: 't
  bd_budget :: "budget option"
  bd_config :: client_config
  bd_http_client :: "'h option"

definition builder_new :: "string \<Rightarrow> (unit, unit, 'h) client_builder" where
  "builder_new version =
     \<lparr>bd_ln_backend = (), bd_token_store = (), bd_budget = None,
      bd_config = config_default version, bd_http_client = None\<rparr>"

definition with_ln_backend ::
  "('l, 't, 'h) client_builder \<Rightarrow> 'b \<Rightarrow> ('b, 't, 'h) client_builder" where
  "with_ln_backend bd backend =
     \<lparr>bd_ln_backend = backend, bd_token_store = bd_token_store bd, bd_budget = bd_budget bd,
      bd_config = bd_config bd, bd_http_client = bd_http_client bd\<rparr>"

definition with_token_store ::
  "('l, 't, 'h) client_builder \<Rightarrow> 's \<Rightarrow> ('l, 's, 'h) client_builder" where
  "with_token_store bd store =
     \<lparr>bd_ln_backend = bd_ln_backend bd, bd_token_store = store, bd_budget = bd_budget bd,
      bd_config = bd_config bd, bd_http_client = bd_http_client bd\<rparr>"

definition with_budget :: "('l, 't, 'h) client_builder \<Rightarrow> budget \<Rightarrow> ('l, 't, 'h) client_builder" where
  "with_budget bd b = bd\<lparr>bd_budget := Some b\<rparr>"

definition with_config ::
  "('l, 't, 'h) client_builder \<Rightarrow> client_config \<Rightarrow> ('l, 't, 'h) client_builder" where
  "with_config bd c = bd\<lparr>bd_config := c\<rparr>"

definition with_http_client ::
  "('l, 't, 'h) client_builder \<Rightarrow> 'h \<Rightarrow> ('l, 't, 'h) client_builder" where
  "with_http_client bd h = bd\<lparr>bd_http_client := Some h\<rparr>"

text \<open>The shared state of a client.\<close>

record client_state =
  cl_budget :: budget_state
  cl_receipts :: "receipt list"
  cl_payments :: "string \<Rightarrow> (payment_result \<times> nat) option option"
  cl_unpersisted :: "string \<Rightarrow> l402_token option"

definition client_start :: client_state where
  "client_start = \<lparr>cl_budget = tracker_new, cl_receipts = [], cl_payments = (\<lambda>_. None),
     cl_unpersisted = (\<lambda>_. None)\<rparr>"

text \<open>The fixed parts and the state of a built client; \<open>build_http\<close> is the HTTP client's builder,
  given the user agent and whether redirects are switched off (on native targets they are).\<close>

record ('l, 't, 'h) built_client =
  bc_ln_backend :: 'l
  bc_token_store :: 't
  bc_limits :: budget
  bc_config :: client_config
  bc_http_client :: 'h
  bc_state :: client_state

definition build ::
  "(string \<Rightarrow> bool \<Rightarrow> string + 'h) \<Rightarrow> bool \<Rightarrow> ('l, 't, 'h) client_builder
   \<Rightarrow> (('l, 't, 'h) built_client, client_error) rres" where
  "build build_http native bd =
     rbind (case bd_http_client bd of
              Some h \<Rightarrow> Ok h
            | None \<Rightarrow> (case build_http (cfg_user_agent (bd_config bd)) native of
                Inl e \<Rightarrow> Err (Backend (''failed to build HTTP client: '' @ e))
              | Inr h \<Rightarrow> Ok h)) (\<lambda>http.
     Ok \<lparr>bc_ln_backend = bd_ln_backend bd, bc_token_store = bd_token_store bd,
         bc_limits = (case bd_budget bd of None \<Rightarrow> unlimited | Some b \<Rightarrow> b),
         bc_config = bd_config bd, bc_http_client = http, bc_state = client_start\<rparr>)"

section \<open>The ports\<close>

record http_request =
  rq_method :: string
  rq_url :: string
  rq_body :: "string option"
  rq_authorization :: "string option"

record http_response =
  rs_status :: u16
  rs_origin :: string
  rs_www_authenticate :: "string option"
  rs_body :: string

record parsed_url =
  u_origin :: string
  u_host :: "string option"

record 'w env =
  e_send :: "'w \<Rightarrow> http_request \<Rightarrow> (string + http_response) \<times> 'w"
  e_supports_fee_limit :: "'w \<Rightarrow> bool"
  e_pay_invoice :: "'w \<Rightarrow> string \<Rightarrow> u64 \<Rightarrow> (payment_result, client_error) rres \<times> 'w"
  e_put :: "'w \<Rightarrow> string \<Rightarrow> string \<Rightarrow> string \<Rightarrow> (unit, client_error) rres \<times> 'w"
  e_get :: "'w \<Rightarrow> string \<Rightarrow> ((string \<times> string) option, client_error) rres \<times> 'w"
  e_remove :: "'w \<Rightarrow> string \<Rightarrow> (unit, client_error) rres \<times> 'w"
  e_clock :: "'w \<Rightarrow> u64 option"
  e_instant :: "'w \<Rightarrow> nat"
  e_url_parse :: "string \<Rightarrow> string + parsed_url"
  e_header_value :: "string \<Rightarrow> string + string"
  e_header_to_str :: "string \<Rightarrow> string option"
  e_b64_std :: b64_decode
  e_b64_url :: b64_decode

datatype port_call =
    HttpSent http_request "string + http_response"
  | PaySent string u64
  | PaySettled payment_result
  | StorePut string l402_token
  | StoreRemoved string

record 'w sys =
  sy_ext :: 'w
  sy_cl :: client_state
  sy_log :: "port_call list"

type_synonym ('a, 'w) act = "'w sys \<Rightarrow> ('a, client_error) rres \<times> 'w sys"

definition ret :: "'a \<Rightarrow> ('a, 'w) act" where
  "ret a s = (Ok a, s)"

definition fail :: "client_error \<Rightarrow> ('a, 'w) act" where
  "fail e s = (Err e, s)"

definition bind_act :: "('a, 'w) act \<Rightarrow> ('a \<Rightarrow> ('b, 'w) act) \<Rightarrow> ('b, 'w) act" where
  "bind_act m f s = (case m s of
       (Ok a, s') \<Rightarrow> f a s' | (Err e, s') \<Rightarrow> (Err e, s') | (Panic, s') \<Rightarrow> (Panic, s'))"

definition lift_res :: "('a, client_error) rres \<Rightarrow> ('a, 'w) act" where
  "lift_res r s = (r, s)"

definition log_call :: "port_call \<Rightarrow> 'w sys \<Rightarrow> 'w sys" where
  "log_call c s = s\<lparr>sy_log := sy_log s @ [c]\<rparr>"

text \<open>A block of the client that changes its own state only.\<close>

definition on_cl :: "(client_state \<Rightarrow> ('a, client_error) rres \<times> client_state) \<Rightarrow> ('a, 'w) act" where
  "on_cl f s = (case f (sy_cl s) of (r, cl) \<Rightarrow> (r, s\<lparr>sy_cl := cl\<rparr>))"

definition now_secs :: "'w env \<Rightarrow> 'w \<Rightarrow> u64" where
  "now_secs E w = (case e_clock E w of None \<Rightarrow> 0 | Some t \<Rightarrow> t)"

definition elapsed_ms :: "'w env \<Rightarrow> nat \<Rightarrow> 'w \<Rightarrow> u64" where
  "elapsed_ms E start w =
     (let ms = e_instant E w - start in if ms < 2 ^ 64 then of_nat ms else u64_max)"

section \<open>HTTP\<close>

text \<open>Sending, then the check of the final origin, as both methods do it.\<close>

definition send_checked :: "'w env \<Rightarrow> http_request \<Rightarrow> (http_response, 'w) act" where
  "send_checked E rq s =
     (case e_send E (sy_ext s) rq of (res, w') \<Rightarrow>
        let s' = log_call (HttpSent rq res) (s\<lparr>sy_ext := w'\<rparr>) in
        case res of
          Inl e \<Rightarrow> (Err (Http e), s')
        | Inr response \<Rightarrow>
           (case e_url_parse E (rq_url rq) of
              Inl e \<Rightarrow> (Err (Http e), s')
            | Inr requested \<Rightarrow>
                if rs_origin response \<noteq> u_origin requested
                then (Err (Http ''cross-origin redirect refused''), s')
                else (Ok response, s')))"

definition send_request ::
  "'w env \<Rightarrow> string \<Rightarrow> string \<Rightarrow> string option \<Rightarrow> (http_response, 'w) act" where
  "send_request E meth url body =
     send_checked E \<lparr>rq_method = meth, rq_url = url, rq_body = body, rq_authorization = None\<rparr>"

definition send_with_auth ::
  "'w env \<Rightarrow> string \<Rightarrow> string \<Rightarrow> string option \<Rightarrow> l402_token \<Rightarrow> (http_response, 'w) act" where
  "send_with_auth E meth url body token =
     (case e_header_value E (to_header_value token) of
        Inl e \<Rightarrow> fail (Backend (''invalid authorization header value: '' @ e))
      | Inr auth_value \<Rightarrow> send_checked E
          \<lparr>rq_method = meth, rq_url = url, rq_body = body, rq_authorization = Some auth_value\<rparr>)"

definition extract_challenge :: "'w env \<Rightarrow> http_response \<Rightarrow> (l402_challenge, client_error) rres" where
  "extract_challenge E response =
     rbind (ok_or MissingChallenge (rs_www_authenticate response)) (\<lambda>header.
     rbind (ok_or MissingChallenge (e_header_to_str E header)) (\<lambda>header_str.
     map_err Protocol (challenge_from_header (e_b64_std E) (e_b64_url E) header_str)))"

section \<open>The token store\<close>

definition store_get :: "'w env \<Rightarrow> string \<Rightarrow> ((string \<times> string) option, 'w) act" where
  "store_get E url s = (case e_get E (sy_ext s) url of (r, w') \<Rightarrow> (r, s\<lparr>sy_ext := w'\<rparr>))"

definition store_remove :: "'w env \<Rightarrow> string \<Rightarrow> (unit, 'w) act" where
  "store_remove E url s =
     (case e_remove E (sy_ext s) url of (r, w') \<Rightarrow>
        (r, log_call (StoreRemoved url) (s\<lparr>sy_ext := w'\<rparr>)))"

definition store_put :: "'w env \<Rightarrow> string \<Rightarrow> l402_token \<Rightarrow> (unit, 'w) act" where
  "store_put E url token s =
     (case e_put E (sy_ext s) url (tk_macaroon token) (tk_preimage token) of (r, w') \<Rightarrow>
        (r, log_call (StorePut url token) (s\<lparr>sy_ext := w'\<rparr>)))"

definition keep_unpersisted :: "string \<Rightarrow> l402_token \<Rightarrow> client_state \<Rightarrow> (unit, client_error) rres \<times> client_state" where
  "keep_unpersisted url token cl =
     (Ok (), cl\<lparr>cl_unpersisted := (cl_unpersisted cl)(url \<mapsto> token)\<rparr>)"

definition drop_unpersisted :: "string \<Rightarrow> client_state \<Rightarrow> (unit, client_error) rres \<times> client_state" where
  "drop_unpersisted url cl = (Ok (), cl\<lparr>cl_unpersisted := (cl_unpersisted cl)(url := None)\<rparr>)"

definition drop_if_saved ::
  "string \<Rightarrow> l402_token \<Rightarrow> client_state \<Rightarrow> (unit, client_error) rres \<times> client_state" where
  "drop_if_saved url token cl =
     (case cl_unpersisted cl url of
        None \<Rightarrow> (Ok (), cl)
      | Some saved \<Rightarrow>
          if tk_macaroon saved = tk_macaroon token \<and> tk_preimage saved = tk_preimage token
          then drop_unpersisted url cl else (Ok (), cl))"

definition persist_token :: "'w env \<Rightarrow> string \<Rightarrow> l402_token \<Rightarrow> (unit, 'w) act" where
  "persist_token E url token =
     bind_act (on_cl (keep_unpersisted url token)) (\<lambda>_.
     bind_act (store_put E url token) (\<lambda>_.
     on_cl (drop_if_saved url token)))"

section \<open>Paying a challenge\<close>

text \<open>What the map of payments knows of an invoice: \<open>Some None\<close> is in flight or unknown.\<close>

type_synonym known_payment = "payment_result \<times> nat"

text \<open>The block under the lock of \<open>payments\<close>: a settled payment is known (\<open>Inl\<close>), or the amount is
  reserved and the invoice is claimed (\<open>Inr\<close>).\<close>

definition claim ::
  "budget \<Rightarrow> client_config \<Rightarrow> bool \<Rightarrow> string \<Rightarrow> u64 \<Rightarrow> string option \<Rightarrow> u64 \<Rightarrow> client_state
   \<Rightarrow> (known_payment + reservation, client_error) rres \<times> client_state" where
  "claim limits cfg supports invoice_key amount domain now cl =
     (case cl_payments cl invoice_key of
        Some previous \<Rightarrow>
          (case previous of None \<Rightarrow> (Err PaymentUncertain, cl) | Some known \<Rightarrow> (Ok (Inl known), cl))
      | None \<Rightarrow>
          if \<not> supports then (Err FeeLimitUnsupported, cl)
          else (case reserve_at limits amount (cfg_max_fee_sats cfg) domain now (cl_budget cl) of
              (Ok r, b') \<Rightarrow> (Ok (Inr r), cl\<lparr>cl_budget := b',
                  cl_payments := (cl_payments cl)(invoice_key \<mapsto> None)\<rparr>)
            | (Err e, b') \<Rightarrow> (Err e, cl\<lparr>cl_budget := b'\<rparr>)
            | (Panic, b') \<Rightarrow> (Panic, cl\<lparr>cl_budget := b'\<rparr>)))"

definition is_confirmed_rejection :: "client_error \<Rightarrow> bool" where
  "is_confirmed_rejection e \<longleftrightarrow> (case e of PaymentRejected _ \<Rightarrow> True | FeeLimitUnsupported \<Rightarrow> True | _ \<Rightarrow> False)"

definition release_claim :: "reservation \<Rightarrow> client_state \<Rightarrow> (unit, client_error) rres \<times> client_state" where
  "release_claim r cl = (Ok (), cl\<lparr>cl_budget := release r (cl_budget cl)\<rparr>)"

definition forget_claim :: "string \<Rightarrow> client_state \<Rightarrow> (unit, client_error) rres \<times> client_state" where
  "forget_claim invoice_key cl = (Ok (), cl\<lparr>cl_payments := (cl_payments cl)(invoice_key := None)\<rparr>)"

definition push_receipt :: "receipt \<Rightarrow> client_state \<Rightarrow> (nat, client_error) rres \<times> client_state" where
  "push_receipt rc cl = (Ok (length (cl_receipts cl)), cl\<lparr>cl_receipts := cl_receipts cl @ [rc]\<rparr>)"

definition payment_total :: "payment_result \<Rightarrow> u64 option" where
  "payment_total p = checked_add (pr_amount_sats p) (pr_fee_sats p)"

definition payment_violation :: "u64 \<Rightarrow> u64 \<Rightarrow> payment_result \<Rightarrow> bool" where
  "payment_violation amount max_fee p \<longleftrightarrow>
     pr_amount_sats p \<noteq> amount \<or> max_fee < pr_fee_sats p \<or> payment_total p = None"

text \<open>\<open>settle_payment\<close> with the total, or the greatest amount if the total does not fit.\<close>

definition settle_payment ::
  "reservation \<Rightarrow> payment_result \<Rightarrow> u64 \<Rightarrow> bool \<Rightarrow> client_state \<Rightarrow> (unit, client_error) rres \<times> client_state" where
  "settle_payment r p now violation cl =
     (case settle_at r (case payment_total p of None \<Rightarrow> u64_max | Some t \<Rightarrow> t) now violation (cl_budget cl) of
        (res, b') \<Rightarrow> (res, cl\<lparr>cl_budget := b'\<rparr>))"

definition commit_payment ::
  "string \<Rightarrow> known_payment \<Rightarrow> client_state \<Rightarrow> (unit, client_error) rres \<times> client_state" where
  "commit_payment invoice_key known cl =
     (Ok (), cl\<lparr>cl_payments := (cl_payments cl)(invoice_key \<mapsto> Some known)\<rparr>)"

definition payment_receipt ::
  "u64 option \<Rightarrow> string \<Rightarrow> payment_result \<Rightarrow> u64 \<Rightarrow> (receipt, client_error) rres" where
  "payment_receipt clock url p latency =
     receipt_new clock url (pr_amount_sats p) (pr_fee_sats p) (pr_payment_hash p) (pr_preimage p) 0 latency"

definition violation_text :: string where
  "violation_text = ''settled payment violated the authorized amount or fee cap; receipt retained and further payments disabled''"

text \<open>What follows a successful call of the backend.\<close>

definition after_payment ::
  "'w env \<Rightarrow> string \<Rightarrow> u64 \<Rightarrow> string \<Rightarrow> nat \<Rightarrow> reservation \<Rightarrow> payment_result \<Rightarrow> (known_payment, 'w) act" where
  "after_payment E invoice_key amount url start r payment s =
     (let violation = payment_violation amount (rv_max_fee_sats r) payment in
      bind_act (lift_res (payment_receipt (e_clock E (sy_ext s)) url payment
                  (elapsed_ms E start (sy_ext s)))) (\<lambda>rc.
      bind_act (on_cl (push_receipt rc)) (\<lambda>receipt_index s1.
      case on_cl (settle_payment r payment (now_secs E (sy_ext s1)) violation) s1 of
        (Panic, s2) \<Rightarrow> (Panic, s2)
      | (settlement, s2) \<Rightarrow>
          if violation then (Err (Backend violation_text), s2)
          else bind_act (lift_res settlement) (\<lambda>_.
               bind_act (on_cl (commit_payment invoice_key (payment, receipt_index))) (\<lambda>_.
               ret (payment, receipt_index))) s2)) s)"

definition call_pay :: "'w env \<Rightarrow> string \<Rightarrow> u64 \<Rightarrow> (payment_result, 'w) act" where
  "call_pay E invoice max_fee s =
     (case e_pay_invoice E (sy_ext s) invoice max_fee of (r, w') \<Rightarrow>
        let s1 = log_call (PaySent invoice max_fee) (s\<lparr>sy_ext := w'\<rparr>) in
        (r, case r of Ok p \<Rightarrow> log_call (PaySettled p) s1 | _ \<Rightarrow> s1))"

definition pay_new ::
  "'w env \<Rightarrow> string \<Rightarrow> string \<Rightarrow> u64 \<Rightarrow> string \<Rightarrow> nat \<Rightarrow> reservation \<Rightarrow> (known_payment, 'w) act" where
  "pay_new E invoice invoice_key amount url start r s =
     (case call_pay E invoice (rv_max_fee_sats r) s of
        (Ok payment, s1) \<Rightarrow> after_payment E invoice_key amount url start r payment s1
      | (Err e, s1) \<Rightarrow>
          if is_confirmed_rejection e
          then bind_act (on_cl (release_claim r)) (\<lambda>_.
               bind_act (on_cl (forget_claim invoice_key)) (\<lambda>_. fail e)) s1
          else (Err e, s1)
      | (Panic, s1) \<Rightarrow> (Panic, s1))"

definition pay_challenge ::
  "'w env \<Rightarrow> budget \<Rightarrow> client_config \<Rightarrow> string \<Rightarrow> u64 \<Rightarrow> string option \<Rightarrow> string \<Rightarrow> nat
   \<Rightarrow> (payment_result \<times> nat \<times> bool, 'w) act" where
  "pay_challenge E limits cfg invoice amount domain url start s =
     (let invoice_key = to_ascii_lowercase invoice in
      bind_act (on_cl (claim limits cfg (e_supports_fee_limit E (sy_ext s)) invoice_key amount domain
                        (now_secs E (sy_ext s)))) (\<lambda>c.
      case c of
        Inl (payment, idx) \<Rightarrow> ret (payment, idx, False)
      | Inr r \<Rightarrow>
          bind_act (pay_new E invoice invoice_key amount url start r) (\<lambda>(payment, idx).
          ret (payment, idx, True))) s)"

section \<open>A request\<close>

record l402_response =
  lr_inner :: http_response
  lr_paid :: bool
  lr_cached_token :: bool
  lr_receipt :: "receipt option"

definition status :: "l402_response \<Rightarrow> u16" where
  "status r = rs_status (lr_inner r)"

text \<open>Reading the body: \<open>read\<close> is the reader of the HTTP library, for text, bytes or a JSON value.\<close>

definition response_text :: "(string \<Rightarrow> string + string) \<Rightarrow> l402_response \<Rightarrow> (string, client_error) rres" where
  "response_text read r = (case read (rs_body (lr_inner r)) of Inl e \<Rightarrow> Err (Http e) | Inr t \<Rightarrow> Ok t)"

definition response_bytes :: "(string \<Rightarrow> string + string) \<Rightarrow> l402_response \<Rightarrow> (string, client_error) rres" where
  "response_bytes read r = (case read (rs_body (lr_inner r)) of Inl e \<Rightarrow> Err (Http e) | Inr b \<Rightarrow> Ok b)"

definition response_json :: "(string \<Rightarrow> string + 'j) \<Rightarrow> l402_response \<Rightarrow> ('j, client_error) rres" where
  "response_json read r = (case read (rs_body (lr_inner r)) of Inl e \<Rightarrow> Err (Http e) | Inr j \<Rightarrow> Ok j)"

definition PAYMENT_REQUIRED :: u16 where
  "PAYMENT_REQUIRED = 402"

text \<open>The token of the first lookups: what is kept because it is not yet persisted, else the store.\<close>

definition find_token :: "'w env \<Rightarrow> string \<Rightarrow> (l402_token option, 'w) act" where
  "find_token E url s =
     (case cl_unpersisted (sy_cl s) url of
        Some token \<Rightarrow> ret (Some token) s
      | None \<Rightarrow> bind_act (store_get E url) (\<lambda>c.
          ret (case c of None \<Rightarrow> None | Some (macaroon, preimage) \<Rightarrow> Some (token_new macaroon preimage))) s)"

text \<open>The attempt with a cached token: \<open>Some\<close> response ends the request.\<close>

definition try_cached ::
  "'w env \<Rightarrow> string \<Rightarrow> string \<Rightarrow> string option \<Rightarrow> l402_token option \<Rightarrow> (l402_response option, 'w) act" where
  "try_cached E meth url body token =
     (case token of
        None \<Rightarrow> ret None
      | Some token \<Rightarrow>
          bind_act (send_with_auth E meth url body token) (\<lambda>response.
          if rs_status response \<noteq> PAYMENT_REQUIRED
          then ret (Some \<lparr>lr_inner = response, lr_paid = False, lr_cached_token = True, lr_receipt = None\<rparr>)
          else bind_act (on_cl (drop_unpersisted url)) (\<lambda>_.
               bind_act (store_remove E url) (\<lambda>_. ret None))))"

text \<open>The host without its trailing dots names the domain budget.\<close>

definition request_domain :: "'w env \<Rightarrow> string \<Rightarrow> string option" where
  "request_domain E url =
     (case e_url_parse E url of Inl _ \<Rightarrow> None
      | Inr u \<Rightarrow> map_option (trim_end_matches (CHR ''.'')) (u_host u))"

definition invoice_amount_sats :: "string \<Rightarrow> (u64, client_error) rres" where
  "invoice_amount_sats invoice =
     rbind (map_err Protocol (decode_bolt11_amount invoice)) (\<lambda>a.
     rbind (ok_or (Protocol (InvalidInvoice ''automatic L402 payments require an explicit invoice amount'')) a)
       (\<lambda>amount. Ok (satoshis amount)))"

text \<open>The receipt is completed in place; an index out of range would panic.\<close>

definition update_receipt ::
  "nat \<Rightarrow> u16 \<Rightarrow> u64 \<Rightarrow> client_state \<Rightarrow> (receipt, client_error) rres \<times> client_state" where
  "update_receipt i st latency cl =
     (if i < length (cl_receipts cl)
      then let rc = (cl_receipts cl ! i)\<lparr>rc_response_status := st, rc_latency_ms := latency\<rparr> in
           (Ok rc, cl\<lparr>cl_receipts := (cl_receipts cl)[i := rc]\<rparr>)
      else (Panic, cl))"

text \<open>After the payment: keep the token, retry with it, complete the receipt.\<close>

definition retry_paid ::
  "'w env \<Rightarrow> string \<Rightarrow> string \<Rightarrow> string option \<Rightarrow> nat \<Rightarrow> string \<Rightarrow> payment_result \<times> nat \<times> bool
   \<Rightarrow> (l402_response, 'w) act" where
  "retry_paid E meth url body start macaroon paid_res =
     (case paid_res of (payment, receipt_index, newly_paid) \<Rightarrow>
      let token = token_new macaroon (pr_preimage payment) in
      bind_act (persist_token E url token) (\<lambda>_.
      bind_act (send_with_auth E meth url body token) (\<lambda>retry_response.
      bind_act (\<lambda>s. on_cl (update_receipt receipt_index (rs_status retry_response)
                     (elapsed_ms E start (sy_ext s))) s) (\<lambda>rc.
      if rs_status retry_response = PAYMENT_REQUIRED
      then bind_act (on_cl (drop_unpersisted url)) (\<lambda>_.
           bind_act (store_remove E url) (\<lambda>_.
           fail (RetryFailed ''server returned 402 again after payment; receipt retained'')))
      else ret \<lparr>lr_inner = retry_response, lr_paid = newly_paid, lr_cached_token = \<not> newly_paid,
                lr_receipt = Some rc\<rparr>))))"

text \<open>After a 402: read the challenge, check the amount, pay, retry.\<close>

definition answer_challenge ::
  "'w env \<Rightarrow> budget \<Rightarrow> client_config \<Rightarrow> string \<Rightarrow> string \<Rightarrow> string option \<Rightarrow> nat \<Rightarrow> http_response
   \<Rightarrow> (l402_response, 'w) act" where
  "answer_challenge E limits cfg meth url body start response =
     bind_act (lift_res (extract_challenge E response)) (\<lambda>challenge.
     bind_act (lift_res (invoice_amount_sats (c_invoice challenge))) (\<lambda>amount.
     bind_act (pay_challenge E limits cfg (c_invoice challenge) amount (request_domain E url) url start)
       (retry_paid E meth url body start (c_macaroon challenge))))"

definition request ::
  "'w env \<Rightarrow> budget \<Rightarrow> client_config \<Rightarrow> string \<Rightarrow> string \<Rightarrow> string option \<Rightarrow> (l402_response, 'w) act" where
  "request E limits cfg meth url body s0 =
     (let start = e_instant E (sy_ext s0) in
      bind_act (find_token E url) (\<lambda>token.
      bind_act (try_cached E meth url body token) (\<lambda>done1.
      case done1 of
        Some r \<Rightarrow> ret r
      | None \<Rightarrow>
          bind_act (send_request E meth url body) (\<lambda>response.
          if rs_status response \<noteq> PAYMENT_REQUIRED
          then ret \<lparr>lr_inner = response, lr_paid = False, lr_cached_token = False, lr_receipt = None\<rparr>
          else answer_challenge E limits cfg meth url body start response))) s0)"

definition http_get ::
  "'w env \<Rightarrow> budget \<Rightarrow> client_config \<Rightarrow> string \<Rightarrow> (l402_response, 'w) act" where
  "http_get E limits cfg url = request E limits cfg ''GET'' url None"

definition http_post ::
  "'w env \<Rightarrow> budget \<Rightarrow> client_config \<Rightarrow> string \<Rightarrow> string option \<Rightarrow> (l402_response, 'w) act" where
  "http_post E limits cfg url body = request E limits cfg ''POST'' url body"

definition client_receipts :: "client_state \<Rightarrow> receipt list" where
  "client_receipts cl = cl_receipts cl"

definition client_total_spent :: "client_state \<Rightarrow> u64" where
  "client_total_spent cl = total_spent (cl_budget cl)"

end
