(* ===== verification/Client_Props.thy ===== *)
theory Client_Props
  imports Client
begin

text \<open>What a single request does: which ports it calls, in which order, and what it leaves in the
  client's state, on every path including the failures after a payment.\<close>

section \<open>Composition\<close>

lemma bind_actE:
  assumes "bind_act m f s = (r, s')"
  obtains (ok) a s1 where "m s = (Ok a, s1)" and "f a s1 = (r, s')"
    | (err) e where "m s = (Err e, s')" and "r = Err e"
    | (panic) "m s = (Panic, s')" and "r = Panic"
  using assms by (auto simp: bind_act_def split: prod.splits rres.splits)

lemma act_simps [simp]:
  "ret a s = (Ok a, s)" "fail e s = (Err e, s)" "lift_res r s = (r, s)"
  by (simp_all add: ret_def fail_def lift_res_def)

lemma bind_act_Ok [simp]: "m s = (Ok a, s1) \<Longrightarrow> bind_act m f s = f a s1"
  by (simp add: bind_act_def)

lemma bind_act_Err: "m s = (Err e, s1) \<Longrightarrow> bind_act m f s = (Err e, s1)"
  by (simp add: bind_act_def)

lemma bind_lift [simp]:
  "bind_act (lift_res (Ok a)) f s = f a s" "bind_act (lift_res (Err e)) f s = (Err e, s)"
  "bind_act (lift_res Panic) f s = (Panic, s)"
  by (simp_all add: bind_act_def)

lemma bind_ret [simp]: "bind_act (ret a) f s = f a s"
  by (simp add: bind_act_def)

lemma on_cl_eq: "on_cl f s = (fst (f (sy_cl s)), s\<lparr>sy_cl := snd (f (sy_cl s))\<rparr>)"
  by (simp add: on_cl_def split: prod.splits)

text \<open>The calls of a log.\<close>

fun pays :: "port_call list \<Rightarrow> (string \<times> u64) list" where
  "pays [] = []"
| "pays (PaySent invoice fee # cs) = (invoice, fee) # pays cs"
| "pays (_ # cs) = pays cs"

fun settled_payments :: "port_call list \<Rightarrow> payment_result list" where
  "settled_payments [] = []"
| "settled_payments (PaySettled p # cs) = p # settled_payments cs"
| "settled_payments (_ # cs) = settled_payments cs"

lemma pays_append [simp]: "pays (a @ b) = pays a @ pays b"
  by (induction a rule: pays.induct) auto

lemma settled_append [simp]: "settled_payments (a @ b) = settled_payments a @ settled_payments b"
  by (induction a rule: settled_payments.induct) auto

text \<open>The part of a receipt that a later update does not change.\<close>

definition receipt_core :: "receipt \<Rightarrow> string \<times> u64 \<times> u64 \<times> string \<times> string" where
  "receipt_core rc = (rc_endpoint rc, rc_amount_sats rc, rc_fee_sats rc, rc_payment_hash rc, rc_preimage rc)"

definition payment_core :: "string \<Rightarrow> payment_result \<Rightarrow> string \<times> u64 \<times> u64 \<times> string \<times> string" where
  "payment_core url p = (url, pr_amount_sats p, pr_fee_sats p, pr_payment_hash p, pr_preimage p)"

section \<open>The HTTP calls\<close>

definition request_of :: "string \<Rightarrow> string \<Rightarrow> string option \<Rightarrow> port_call \<Rightarrow> bool" where
  "request_of meth url body c =
     (case c of HttpSent rq res \<Rightarrow> rq_method rq = meth \<and> rq_url rq = url \<and> rq_body rq = body | _ \<Rightarrow> True)"

definition same_origin :: "'w env \<Rightarrow> string \<Rightarrow> http_response \<Rightarrow> bool" where
  "same_origin E url response \<longleftrightarrow>
     (case e_url_parse E url of Inl _ \<Rightarrow> False | Inr u \<Rightarrow> rs_origin response = u_origin u)"

lemma send_checked_run:
  assumes "send_checked E rq s = (r, s')"
  shows "\<exists>res. sy_log s' = sy_log s @ [HttpSent rq res] \<and> sy_cl s' = sy_cl s
    \<and> (\<forall>x. r = Ok x \<longrightarrow> res = Inr x \<and> same_origin E (rq_url rq) x) \<and> r \<noteq> Panic"
  using assms by (auto simp: send_checked_def log_call_def Let_def same_origin_def
      split: prod.splits sum.splits if_splits)

lemma send_request_run:
  assumes "send_request E meth url body s = (r, s')"
  shows "\<exists>res. sy_log s' = sy_log s @
      [HttpSent \<lparr>rq_method = meth, rq_url = url, rq_body = body, rq_authorization = None\<rparr> res]
    \<and> sy_cl s' = sy_cl s \<and> (\<forall>x. r = Ok x \<longrightarrow> res = Inr x \<and> same_origin E url x) \<and> r \<noteq> Panic"
  using send_checked_run [of E "\<lparr>rq_method = meth, rq_url = url, rq_body = body, rq_authorization = None\<rparr>" s r s']
    assms by (simp add: send_request_def)

lemma send_with_auth_run:
  assumes "send_with_auth E meth url body token s = (r, s')"
  shows "\<exists>\<Delta>. sy_log s' = sy_log s @ \<Delta> \<and> list_all (request_of meth url body) \<Delta> \<and> pays \<Delta> = []
    \<and> settled_payments \<Delta> = [] \<and> sy_cl s' = sy_cl s
    \<and> (\<forall>x. r = Ok x \<longrightarrow> same_origin E url x) \<and> r \<noteq> Panic"
proof (cases "e_header_value E (to_header_value token)")
  case (Inl e)
  then show ?thesis using assms by (auto simp: send_with_auth_def intro!: exI [of _ "[]"])
next
  case (Inr h)
  then have "send_checked E \<lparr>rq_method = meth, rq_url = url, rq_body = body, rq_authorization = Some h\<rparr> s = (r, s')"
    using assms by (simp add: send_with_auth_def)
  from send_checked_run [OF this] show ?thesis by (auto simp: request_of_def)
qed

section \<open>Before the payment\<close>

lemma find_token_run:
  assumes "find_token E url s = (r, s')"
  shows "sy_log s' = sy_log s \<and> sy_cl s' = sy_cl s"
  using assms by (auto simp: find_token_def store_get_def split: option.splits prod.splits
      elim!: bind_actE)

definition same_books :: "client_state \<Rightarrow> client_state \<Rightarrow> bool" where
  "same_books cl cl' \<longleftrightarrow> cl_budget cl' = cl_budget cl
     \<and> map receipt_core (cl_receipts cl') = map receipt_core (cl_receipts cl)
     \<and> cl_payments cl' = cl_payments cl"

text \<open>A stretch of a request without payment: its HTTP calls are those of the request, and the books
  stay as they are.\<close>

definition quiet :: "string \<Rightarrow> string \<Rightarrow> string option \<Rightarrow> 'w sys \<Rightarrow> 'w sys \<Rightarrow> bool" where
  "quiet meth url body s s' \<longleftrightarrow>
     (\<exists>\<Delta>. sy_log s' = sy_log s @ \<Delta> \<and> list_all (request_of meth url body) \<Delta> \<and> pays \<Delta> = []
        \<and> settled_payments \<Delta> = [] \<and> same_books (sy_cl s) (sy_cl s'))"

lemma quiet_refl [simp]: "quiet meth url body s s"
  by (auto simp: quiet_def same_books_def)

lemma quiet_trans:
  assumes "quiet meth url body s1 s2" and "quiet meth url body s2 s3"
  shows "quiet meth url body s1 s3"
proof -
  obtain d1 d2 where "sy_log s2 = sy_log s1 @ d1" "sy_log s3 = sy_log s2 @ d2"
    "list_all (request_of meth url body) d1" "list_all (request_of meth url body) d2"
    "pays d1 = []" "pays d2 = []" "settled_payments d1 = []" "settled_payments d2 = []"
    "same_books (sy_cl s1) (sy_cl s2)" "same_books (sy_cl s2) (sy_cl s3)"
    using assms unfolding quiet_def by blast
  then show ?thesis unfolding quiet_def by (intro exI [of _ "d1 @ d2"]) (simp add: same_books_def)
qed

definition quiet_act :: "string \<Rightarrow> string \<Rightarrow> string option \<Rightarrow> ('a, 'w) act \<Rightarrow> bool" where
  "quiet_act meth url body m \<longleftrightarrow> (\<forall>s r s'. m s = (r, s') \<longrightarrow> quiet meth url body s s')"

named_theorems quiet_intros \<open>the acts that do not touch the books\<close>

lemma quiet_actD: "quiet_act meth url body m \<Longrightarrow> m s = (r, s') \<Longrightarrow> quiet meth url body s s'"
  by (simp add: quiet_act_def)

lemma quiet_pure [quiet_intros]:
  "quiet_act meth url body (ret a)" "quiet_act meth url body (fail e)"
  "quiet_act meth url body (lift_res x)"
  by (simp_all add: quiet_act_def)

lemma quiet_bind [quiet_intros]:
  assumes "quiet_act meth url body m" and "\<And>a. quiet_act meth url body (f a)"
  shows "quiet_act meth url body (bind_act m f)"
  unfolding quiet_act_def
proof (intro allI impI)
  fix s r s' assume "bind_act m f s = (r, s')"
  then show "quiet meth url body s s'"
  proof (cases rule: bind_actE)
    case (ok a s1)
    then show ?thesis by (blast intro: quiet_trans quiet_actD assms)
  qed (auto intro: quiet_actD assms)
qed

lemma quiet_send_with_auth [quiet_intros]: "quiet_act meth url body (send_with_auth E meth url body token)"
  unfolding quiet_act_def using send_with_auth_run [of E meth url body token]
  by (force simp: quiet_def same_books_def)

lemma quiet_send_request [quiet_intros]: "quiet_act meth url body (send_request E meth url body)"
  unfolding quiet_act_def using send_request_run [of E meth url body]
  by (fastforce simp: quiet_def same_books_def request_of_def)

lemma quiet_store [quiet_intros]:
  "quiet_act meth url body (store_remove E url')" "quiet_act meth url body (store_put E url' token)"
  "quiet_act meth url body (store_get E url')"
  by (auto simp: store_remove_def store_put_def store_get_def quiet_act_def quiet_def same_books_def
      log_call_def request_of_def split: prod.splits)

lemma quiet_unpersisted [quiet_intros]:
  "quiet_act meth url body (on_cl (keep_unpersisted url' token))"
  "quiet_act meth url body (on_cl (drop_unpersisted url'))"
  "quiet_act meth url body (on_cl (drop_if_saved url' token))"
  by (auto simp: quiet_act_def on_cl_eq quiet_def same_books_def keep_unpersisted_def
      drop_unpersisted_def drop_if_saved_def split: option.splits)

lemma quiet_find_token [quiet_intros]: "quiet_act meth url body (find_token E url)"
  unfolding quiet_act_def using find_token_run [of E url]
  by (force simp: quiet_def same_books_def)

lemma quiet_try_cached [quiet_intros]: "quiet_act meth url body (try_cached E meth url body token)"
  by (cases token) (auto simp: try_cached_def intro!: quiet_intros)

lemma quiet_persist [quiet_intros]: "quiet_act meth url body (persist_token E url' token)"
  by (auto simp: persist_token_def intro!: quiet_intros)

section \<open>The payment\<close>

text \<open>\<open>pay_challenge\<close> either answers from the map of payments, or it reserves, calls the backend
  once and books what the backend answered.\<close>

definition answered_from_map :: "string \<Rightarrow> client_state \<Rightarrow> (payment_result \<times> nat \<times> bool, client_error) rres \<Rightarrow> bool" where
  "answered_from_map key cl r \<longleftrightarrow>
     (case cl_payments cl key of None \<Rightarrow> False
      | Some None \<Rightarrow> r = Err PaymentUncertain
      | Some (Some (p, i)) \<Rightarrow> r = Ok (p, i, False))"

definition booked ::
  "string \<Rightarrow> string \<Rightarrow> u64 \<Rightarrow> reservation \<Rightarrow> budget_state \<Rightarrow> (payment_result, client_error) rres
   \<Rightarrow> client_state \<Rightarrow> client_state \<Rightarrow> (payment_result \<times> nat \<times> bool, client_error) rres \<Rightarrow> bool" where
  "booked key url amount rv b pr cl cl' r \<longleftrightarrow>
     (case pr of
        Panic \<Rightarrow> r = Panic
      | Err e \<Rightarrow> r = Err e \<and> cl_receipts cl' = cl_receipts cl
          \<and> (if is_confirmed_rejection e
             then cl_payments cl' = cl_payments cl \<and> cl_budget cl' = release rv b
             else cl_payments cl' = (cl_payments cl)(key \<mapsto> None) \<and> cl_budget cl' = b)
      | Ok p \<Rightarrow> r = Panic
          \<or> (map receipt_core (cl_receipts cl') = map receipt_core (cl_receipts cl) @ [payment_core url p]
             \<and> (if payment_violation amount (rv_max_fee_sats rv) p
                then r = Err (Backend violation_text) \<and> cl_payments cl' = (cl_payments cl)(key \<mapsto> None)
                else cl_payments cl' key \<noteq> None
                  \<and> (\<forall>x. r = Ok x \<longrightarrow> x = (p, length (cl_receipts cl), True)
                       \<and> cl_payments cl' = (cl_payments cl)(key \<mapsto> Some (p, length (cl_receipts cl)))))))"

lemma after_payment_run:
  assumes "after_payment E key amount url start rv p s = (r, s')"
    and "cl_payments (sy_cl s) key = Some None"
  shows "sy_log s' = sy_log s \<and> (r = Panic
    \<or> (map receipt_core (cl_receipts (sy_cl s')) =
         map receipt_core (cl_receipts (sy_cl s)) @ [payment_core url p]
       \<and> (if payment_violation amount (rv_max_fee_sats rv) p
          then r = Err (Backend violation_text) \<and> cl_payments (sy_cl s') = cl_payments (sy_cl s)
          else cl_payments (sy_cl s') key \<noteq> None
            \<and> (\<forall>x. r = Ok x \<longrightarrow> x = (p, length (cl_receipts (sy_cl s)))
                 \<and> cl_payments (sy_cl s') = (cl_payments (sy_cl s))
                      (key \<mapsto> Some (p, length (cl_receipts (sy_cl s))))))))"
proof (cases "payment_receipt (e_clock E (sy_ext s)) url p (elapsed_ms E start (sy_ext s))")
  case (Ok rc)
  then have core: "receipt_core rc = payment_core url p"
    by (auto simp: payment_receipt_def receipt_new_def receipt_core_def payment_core_def
        split: option.splits)
  let ?s1 = "s\<lparr>sy_cl := (sy_cl s)\<lparr>cl_receipts := cl_receipts (sy_cl s) @ [rc]\<rparr>\<rparr>"
  obtain res b' where st: "settle_at rv (case payment_total p of None \<Rightarrow> u64_max | Some t \<Rightarrow> t)
      (now_secs E (sy_ext s)) (payment_violation amount (rv_max_fee_sats rv) p) (cl_budget (sy_cl s)) = (res, b')"
    by fastforce
  have push: "on_cl (push_receipt rc) s = (Ok (length (cl_receipts (sy_cl s))), ?s1)"
    by (simp add: on_cl_eq push_receipt_def)
  show ?thesis
    using assms core st push
    by (cases res) (auto simp: after_payment_def Ok Let_def on_cl_eq settle_payment_def commit_payment_def
        bind_act_def)
next
  case (Err e)
  then show ?thesis by (simp add: payment_receipt_def receipt_new_def split: option.splits)
next
  case Panic
  then show ?thesis using assms by (simp add: after_payment_def Let_def)
qed


lemma booked_payment:
  assumes "P \<Longrightarrow> L \<and> (r = Panic
    \<or> (map receipt_core (cl_receipts cl') = map receipt_core (cl_receipts cl1) @ [payment_core url p]
       \<and> (if payment_violation amount (rv_max_fee_sats rv) p
          then r = Err (Backend violation_text) \<and> cl_payments cl' = cl_payments cl1
          else cl_payments cl' key \<noteq> None
            \<and> (\<forall>x. r = Ok x \<longrightarrow> x = (p, length (cl_receipts cl1))
                 \<and> cl_payments cl' = (cl_payments cl1)(key \<mapsto> Some (p, length (cl_receipts cl1)))))))"
    and "r' = (case r of Ok (p, i) \<Rightarrow> Ok (p, i, True) | Err e \<Rightarrow> Err e | Panic \<Rightarrow> Panic)"
    and "cl_receipts cl = cl_receipts cl1" and "cl_payments cl1 = (cl_payments cl)(key \<mapsto> None)" and P
  shows "L \<and> booked key url amount rv b (Ok p) cl cl' r'"
  using assms(1) [OF assms(5)] unfolding assms(2) booked_def assms(3) assms(4)
  by (cases r) auto

lemma pay_new_run:
  assumes "pay_new E invoice key amount url start rv s = (r, s')"
    and "cl_payments (sy_cl s) key = Some None"
    and "r' = (case r of Ok (p, i) \<Rightarrow> Ok (p, i, True) | Err e \<Rightarrow> Err e | Panic \<Rightarrow> Panic)"
    and "cl_payments cl = (cl_payments (sy_cl s))(key := None)"
    and "cl_receipts cl = cl_receipts (sy_cl s)"
  shows "\<exists>pr. pr = fst (e_pay_invoice E (sy_ext s) invoice (rv_max_fee_sats rv))
    \<and> sy_log s' = sy_log s @ PaySent invoice (rv_max_fee_sats rv) #
        (case pr of Ok p \<Rightarrow> [PaySettled p] | _ \<Rightarrow> [])
    \<and> booked key url amount rv (cl_budget (sy_cl s)) pr cl (sy_cl s') r'"
proof -
  obtain pr w' where e: "e_pay_invoice E (sy_ext s) invoice (rv_max_fee_sats rv) = (pr, w')"
    by fastforce
  have pay: "cl_payments (sy_cl s) = (cl_payments cl)(key \<mapsto> None)"
    using assms(2,4) by (auto simp: fun_eq_iff)
  have triv: "(cl_payments cl)(key := None) = cl_payments cl"
    by (simp add: assms(4) fun_upd_idem_iff)
  show ?thesis
  proof (cases pr)
    case (Ok p)
    let ?s1 = "log_call (PaySettled p) (log_call (PaySent invoice (rv_max_fee_sats rv)) (s\<lparr>sy_ext := w'\<rparr>))"
    have c: "sy_cl ?s1 = sy_cl s" by (simp add: log_call_def)
    have "after_payment E key amount url start rv p ?s1 = (r, s')"
      using assms(1) by (simp add: pay_new_def call_pay_def e Ok Let_def)
    from booked_payment [OF after_payment_run [OF this] assms(3), where cl = cl] assms(2,5) c pay
    have "sy_log s' = sy_log ?s1 \<and> booked key url amount rv (cl_budget (sy_cl s)) (Ok p) cl (sy_cl s') r'"
      by simp
    then show ?thesis by (simp add: e Ok log_call_def)
  next
    case (Err er)
    then show ?thesis
      using assms(1,3,5)
      by (auto simp: pay_new_def call_pay_def e Let_def log_call_def booked_def pay triv on_cl_eq
          release_claim_def forget_claim_def bind_act_def split: if_splits)
  next
    case Panic
    then show ?thesis using assms(1,3)
      by (auto simp: pay_new_def call_pay_def e Let_def log_call_def booked_def)
  qed
qed

text \<open>The state in which the backend is called: reserved in the tracker, and the invoice in flight.\<close>

definition claimed_in :: "string \<Rightarrow> budget_state \<Rightarrow> 'w sys \<Rightarrow> 'w sys" where
  "claimed_in key b s = s\<lparr>sy_cl := (sy_cl s)\<lparr>cl_budget := b,
     cl_payments := (cl_payments (sy_cl s))(key \<mapsto> None)\<rparr>\<rparr>"

lemma reserved_entry:
  assumes "reserve_at limits amount max_fee domain now st = (Ok rv, b)"
  shows "map_of (bs_pending b) (rv_id rv) = Some (amount + rv_max_fee_sats rv, domain)
    \<and> unat amount + unat (rv_max_fee_sats rv) < 2 ^ 64"
  using assms
  by (auto simp: reserve_at_def Let_def add_u64_def update_conv' split: if_splits rres.splits option.splits)

lemma pay_challenge_run:
  assumes "pay_challenge E limits cfg invoice amount domain url start s = (r, s')"
  defines "key \<equiv> to_ascii_lowercase invoice"
  shows "(s' = s \<and> answered_from_map key (sy_cl s) r)
    \<or> (sy_log s' = sy_log s \<and> cl_payments (sy_cl s) key = None \<and> (\<forall>x. r \<noteq> Ok x)
       \<and> cl_receipts (sy_cl s') = cl_receipts (sy_cl s) \<and> cl_payments (sy_cl s') = cl_payments (sy_cl s))
    \<or> (\<exists>rv b pr. cl_payments (sy_cl s) key = None
       \<and> reserve_at limits amount (cfg_max_fee_sats cfg) domain (now_secs E (sy_ext s)) (cl_budget (sy_cl s))
           = (Ok rv, b)
       \<and> pr = fst (e_pay_invoice E (sy_ext s) invoice (rv_max_fee_sats rv))
       \<and> sy_log s' = sy_log s @ PaySent invoice (rv_max_fee_sats rv) #
           (case pr of Ok p \<Rightarrow> [PaySettled p] | _ \<Rightarrow> [])
       \<and> booked key url amount rv b pr (sy_cl s) (sy_cl s') r
       \<and> snd (pay_new E invoice key amount url start rv (claimed_in key b s)) = s')"
proof (cases "cl_payments (sy_cl s) key")
  case (Some known)
  then show ?thesis using assms(1)
    by (cases known) (auto simp: pay_challenge_def key_def [symmetric] Let_def on_cl_eq claim_def
        bind_act_def answered_from_map_def)
next
  case None
  obtain res b where rs: "reserve_at limits amount (cfg_max_fee_sats cfg) domain
      (now_secs E (sy_ext s)) (cl_budget (sy_cl s)) = (res, b)" by fastforce
  show ?thesis
  proof (cases "e_supports_fee_limit E (sy_ext s) \<and> (\<exists>rv. res = Ok rv)")
    case False
    then show ?thesis using assms(1) None rs
      by (cases res) (auto simp: pay_challenge_def key_def [symmetric] Let_def on_cl_eq claim_def
          bind_act_def split: if_splits)
  next
    case True
    then obtain rv where rv: "res = Ok rv" and sup: "e_supports_fee_limit E (sy_ext s)" by blast
    let ?s1 = "s\<lparr>sy_cl := (sy_cl s)\<lparr>cl_budget := b, cl_payments := (cl_payments (sy_cl s))(key \<mapsto> None)\<rparr>\<rparr>"
    obtain r2 s2 where n: "pay_new E invoice key amount url start rv ?s1 = (r2, s2)" by fastforce
    have "s' = s2" and r: "r = (case r2 of Ok (p, i) \<Rightarrow> Ok (p, i, True) | Err e \<Rightarrow> Err e | Panic \<Rightarrow> Panic)"
      using assms(1) None rs rv sup n
      by (cases r2; auto simp: pay_challenge_def key_def [symmetric] Let_def on_cl_eq claim_def
          bind_act_def)+
    have "\<exists>pr. pr = fst (e_pay_invoice E (sy_ext ?s1) invoice (rv_max_fee_sats rv))
      \<and> sy_log s2 = sy_log ?s1 @ PaySent invoice (rv_max_fee_sats rv) #
          (case pr of Ok p \<Rightarrow> [PaySettled p] | _ \<Rightarrow> [])
      \<and> booked key url amount rv (cl_budget (sy_cl ?s1)) pr (sy_cl s) (sy_cl s2) r"
      by (rule pay_new_run [OF n _ r]) (use None in \<open>auto simp: fun_eq_iff\<close>)
    then show ?thesis using None rs rv n \<open>s' = s2\<close> by (auto simp: claimed_in_def)
  qed
qed


section \<open>After the payment, and the request as a whole\<close>

lemma quiet_update_receipt [quiet_intros]:
  "quiet_act meth url body (\<lambda>s. on_cl (update_receipt i st (l s)) s)"
  by (auto simp: quiet_act_def on_cl_eq quiet_def same_books_def update_receipt_def Let_def map_update
      receipt_core_def list_update_same_conv)

lemma quiet_retry: "quiet_act meth url body (retry_paid E meth url body start macaroon x)"
  by (cases x) (auto simp: retry_paid_def Let_def intro!: quiet_intros)

text \<open>The run of a request that pays and is answered, put together from its actions.\<close>

lemma request_paid:
  assumes "find_token E url s = (Ok None, s)" and "send_request E meth url body s = (Ok demand, s1)"
    and "rs_status demand = PAYMENT_REQUIRED"
    and "extract_challenge E demand = Ok ch" and "invoice_amount_sats (c_invoice ch) = Ok amount"
    and "pay_challenge E limits cfg (c_invoice ch) amount (request_domain E url) url (e_instant E (sy_ext s)) s1
      = (Ok (p, i, newly), s2)"
    and "persist_token E url (token_new (c_macaroon ch) (pr_preimage p)) s2 = (Ok (), s3)"
    and "send_with_auth E meth url body (token_new (c_macaroon ch) (pr_preimage p)) s3 = (Ok response, s4)"
    and "rs_status response \<noteq> PAYMENT_REQUIRED"
    and "update_receipt i (rs_status response) (elapsed_ms E (e_instant E (sy_ext s)) (sy_ext s4)) (sy_cl s4) = (Ok rc, cl)"
  shows "request E limits cfg meth url body s =
    (Ok \<lparr>lr_inner = response, lr_paid = newly, lr_cached_token = \<not> newly, lr_receipt = Some rc\<rparr>, s4\<lparr>sy_cl := cl\<rparr>)"
proof -
  have "on_cl (update_receipt i (rs_status response) (elapsed_ms E (e_instant E (sy_ext s)) (sy_ext s4))) s4
      = (Ok rc, s4\<lparr>sy_cl := cl\<rparr>)" by (simp add: on_cl_def assms(10))
  then have "retry_paid E meth url body (e_instant E (sy_ext s)) (c_macaroon ch) (p, i, newly) s2 =
    (Ok \<lparr>lr_inner = response, lr_paid = newly, lr_cached_token = \<not> newly, lr_receipt = Some rc\<rparr>, s4\<lparr>sy_cl := cl\<rparr>)"
    using assms(7-9) by (simp add: retry_paid_def Let_def)
  then have "answer_challenge E limits cfg meth url body (e_instant E (sy_ext s)) demand s1 =
    (Ok \<lparr>lr_inner = response, lr_paid = newly, lr_cached_token = \<not> newly, lr_receipt = Some rc\<rparr>, s4\<lparr>sy_cl := cl\<rparr>)"
    using assms(4-6) by (simp add: answer_challenge_def)
  then show ?thesis using assms(1-3) by (simp add: request_def try_cached_def)
qed

abbreviation plain_request :: "string \<Rightarrow> string \<Rightarrow> string option \<Rightarrow> http_request" where
  "plain_request meth url body \<equiv>
     \<lparr>rq_method = meth, rq_url = url, rq_body = body, rq_authorization = None\<rparr>"

lemma request_parts:
  assumes "request E limits cfg meth url body s = (r, s')"
  shows "quiet meth url body s s' \<or> (\<exists>s1 s2 response. quiet meth url body s s1
    \<and> sy_log s2 = sy_log s1 @ [HttpSent (plain_request meth url body) (Inr response)]
    \<and> sy_cl s2 = sy_cl s1 \<and> rs_status response = PAYMENT_REQUIRED
    \<and> answer_challenge E limits cfg meth url body (e_instant E (sy_ext s)) response s2 = (r, s'))"
proof -
  let ?start = "e_instant E (sy_ext s)"
  have "bind_act (find_token E url) (\<lambda>token.
      bind_act (try_cached E meth url body token) (\<lambda>done1. case done1 of
        Some r \<Rightarrow> ret r
      | None \<Rightarrow> bind_act (send_request E meth url body) (\<lambda>response.
          if rs_status response \<noteq> PAYMENT_REQUIRED
          then ret \<lparr>lr_inner = response, lr_paid = False, lr_cached_token = False, lr_receipt = None\<rparr>
          else answer_challenge E limits cfg meth url body ?start response))) s = (r, s')"
    using assms by (simp add: request_def Let_def)
  then show ?thesis
  proof (cases rule: bind_actE)
    case (ok token s0)
    have q0: "quiet meth url body s s0" using quiet_find_token ok(1) by (rule quiet_actD)
    from ok(2) show ?thesis
    proof (cases rule: bind_actE)
      case (ok done1 s1)
      have q1: "quiet meth url body s s1"
        using q0 quiet_actD [OF quiet_try_cached ok(1)] by (rule quiet_trans)
      show ?thesis
      proof (cases done1)
        case (Some x)
        then show ?thesis using ok(2) q1 by simp
      next
        case None
        from ok(2) have "bind_act (send_request E meth url body) (\<lambda>response.
          if rs_status response \<noteq> PAYMENT_REQUIRED
          then ret \<lparr>lr_inner = response, lr_paid = False, lr_cached_token = False, lr_receipt = None\<rparr>
          else answer_challenge E limits cfg meth url body ?start response) s1 = (r, s')"
          by (simp add: None)
        then show ?thesis
        proof (cases rule: bind_actE)
          case (ok response s2)
          show ?thesis
          proof (cases "rs_status response = PAYMENT_REQUIRED")
            case True
            then show ?thesis using ok q1 send_request_run [OF ok(1)] by auto
          next
            case False
            then show ?thesis using ok quiet_trans [OF q1 quiet_actD [OF quiet_send_request ok(1)]] by simp
          qed
        qed (blast intro: quiet_trans [OF q1 quiet_actD [OF quiet_send_request]])+
      qed
    qed (blast intro: quiet_trans [OF q0 quiet_actD [OF quiet_try_cached]])+
  qed (auto intro: quiet_actD quiet_find_token)
qed

text \<open>A request that calls the backend: the calls before are none of the backend, then the plain request
  is answered with the challenge, and in the state after it (\<open>sa\<close>), whose books are those at the
  start, the amount is reserved (tracker \<open>b\<close>) and the invoice is marked; in that state the backend
  is called (\<open>pay_new\<close>), and not again afterwards.\<close>

definition paid_for ::
  "'w env \<Rightarrow> budget \<Rightarrow> client_config \<Rightarrow> string \<Rightarrow> string \<Rightarrow> string option \<Rightarrow> 'w sys \<Rightarrow> 'w sys \<Rightarrow> bool" where
  "paid_for E limits cfg meth url body s s' \<longleftrightarrow>
     (\<exists>pre response challenge amount rv b sa s2 post rest.
        let invoice = c_invoice challenge; key = to_ascii_lowercase invoice in
        sy_log sa = sy_log s @ pre @ [HttpSent (plain_request meth url body) (Inr response)]
      \<and> sy_log s' = sy_log sa @ PaySent invoice (rv_max_fee_sats rv) # post
      \<and> pays pre = [] \<and> settled_payments pre = [] \<and> pays post = [] \<and> length (settled_payments post) \<le> 1
      \<and> rs_status response = PAYMENT_REQUIRED
      \<and> extract_challenge E response = Ok challenge
      \<and> invoice_amount_sats invoice = Ok amount
      \<and> same_books (sy_cl s) (sy_cl sa) \<and> cl_payments (sy_cl s) key = None
      \<and> reserve_at limits amount (cfg_max_fee_sats cfg) (request_domain E url) (now_secs E (sy_ext sa))
          (cl_budget (sy_cl s)) = (Ok rv, b)
      \<and> map_of (bs_pending b) (rv_id rv) = Some (amount + rv_max_fee_sats rv, request_domain E url)
      \<and> unat amount + unat (rv_max_fee_sats rv) < 2 ^ 64
      \<and> snd (pay_new E invoice key amount url (e_instant E (sy_ext s)) rv (claimed_in key b sa)) = s2
      \<and> sy_log s' = sy_log s2 @ rest)"

text \<open>The same from the answer to the plain request on.\<close>

definition pay_calls ::
  "'w env \<Rightarrow> budget \<Rightarrow> client_config \<Rightarrow> string \<Rightarrow> nat \<Rightarrow> 'w sys \<Rightarrow> string \<Rightarrow> u64 \<Rightarrow> port_call list \<Rightarrow> bool" where
  "pay_calls E limits cfg url start s invoice amount \<Delta> \<longleftrightarrow>
     (\<exists>rv b post s2 rest. \<Delta> = PaySent invoice (rv_max_fee_sats rv) # post
        \<and> pays post = [] \<and> length (settled_payments post) \<le> 1
        \<and> cl_payments (sy_cl s) (to_ascii_lowercase invoice) = None
        \<and> reserve_at limits amount (cfg_max_fee_sats cfg) (request_domain E url) (now_secs E (sy_ext s))
            (cl_budget (sy_cl s)) = (Ok rv, b)
        \<and> snd (pay_new E invoice (to_ascii_lowercase invoice) amount url start rv
            (claimed_in (to_ascii_lowercase invoice) b s)) = s2
        \<and> sy_log s @ \<Delta> = sy_log s2 @ rest)"

lemma pay_calls_append:
  assumes "pay_calls E limits cfg url start s invoice amount d1" and "pays d2 = []" and "settled_payments d2 = []"
  shows "pay_calls E limits cfg url start s invoice amount (d1 @ d2)"
proof -
  obtain rv b post s2 rest where "d1 = PaySent invoice (rv_max_fee_sats rv) # post"
    "pays post = []" "length (settled_payments post) \<le> 1"
    "cl_payments (sy_cl s) (to_ascii_lowercase invoice) = None"
    "reserve_at limits amount (cfg_max_fee_sats cfg) (request_domain E url) (now_secs E (sy_ext s))
       (cl_budget (sy_cl s)) = (Ok rv, b)"
    "snd (pay_new E invoice (to_ascii_lowercase invoice) amount url start rv
       (claimed_in (to_ascii_lowercase invoice) b s)) = s2"
    "sy_log s @ d1 = sy_log s2 @ rest"
    using assms(1) unfolding pay_calls_def by blast
  then show ?thesis unfolding pay_calls_def using assms(2,3)
    by (intro exI [of _ rv] exI [of _ b] exI [of _ "post @ d2"] exI [of _ s2] exI [of _ "rest @ d2"])
      (simp flip: append_assoc)
qed

lemma pay_calls_paid_for:
  assumes "pay_calls E limits cfg url (e_instant E (sy_ext s)) sa (c_invoice ch) amount \<Delta>"
    and "rs_status response = PAYMENT_REQUIRED" and "extract_challenge E response = Ok ch"
    and "invoice_amount_sats (c_invoice ch) = Ok amount"
    and "pays pre = []" and "settled_payments pre = []" and "same_books (sy_cl s) (sy_cl sa)"
    and "sy_log sa = sy_log s @ pre @ [HttpSent (plain_request meth url body) (Inr response)]"
    and "sy_log s' = sy_log sa @ \<Delta>"
  shows "paid_for E limits cfg meth url body s s'"
proof -
  let ?i = "c_invoice ch"
  obtain rv b post s2 rest where c: "\<Delta> = PaySent ?i (rv_max_fee_sats rv) # post"
    "pays post = []" "length (settled_payments post) \<le> 1"
    "cl_payments (sy_cl sa) (to_ascii_lowercase ?i) = None"
    "reserve_at limits amount (cfg_max_fee_sats cfg) (request_domain E url) (now_secs E (sy_ext sa))
       (cl_budget (sy_cl sa)) = (Ok rv, b)"
    "snd (pay_new E ?i (to_ascii_lowercase ?i) amount url (e_instant E (sy_ext s)) rv
       (claimed_in (to_ascii_lowercase ?i) b sa)) = s2"
    "sy_log sa @ \<Delta> = sy_log s2 @ rest"
    using assms(1) unfolding pay_calls_def by blast
  have "cl_payments (sy_cl s) (to_ascii_lowercase ?i) = None" "cl_budget (sy_cl s) = cl_budget (sy_cl sa)"
    using assms(7) c(4) by (simp_all add: same_books_def)
  then show ?thesis unfolding paid_for_def Let_def using assms(2-9) c reserved_entry [OF c(5)]
    by (intro exI [of _ pre] exI [of _ response] exI [of _ ch] exI [of _ amount] exI [of _ rv] exI [of _ b]
        exI [of _ sa] exI [of _ s2] exI [of _ post] exI [of _ rest]) simp
qed

lemma pay_challenge_log:
  assumes "pay_challenge E limits cfg invoice amount (request_domain E url) url start s = (r, s')"
  shows "\<exists>\<Delta>. sy_log s' = sy_log s @ \<Delta> \<and> list_all (request_of meth url' body) \<Delta>
    \<and> (pays \<Delta> = [] \<and> settled_payments \<Delta> = [] \<or> pay_calls E limits cfg url start s invoice amount \<Delta>)
    \<and> (r \<noteq> Panic \<longrightarrow> map receipt_core (cl_receipts (sy_cl s')) =
         map receipt_core (cl_receipts (sy_cl s)) @ map (payment_core url) (settled_payments \<Delta>))"
  using pay_challenge_run [OF assms]
proof (elim disjE exE conjE, goal_cases)
  case (3 rv b pr)
  let ?post = "case pr of Ok p \<Rightarrow> [PaySettled p] | _ \<Rightarrow> []"
  let ?d = "PaySent invoice (rv_max_fee_sats rv) # ?post"
  have "r \<noteq> Panic \<longrightarrow> map receipt_core (cl_receipts (sy_cl s')) =
     map receipt_core (cl_receipts (sy_cl s)) @ map (payment_core url) (settled_payments ?d)"
    using 3(5) by (cases pr) (auto simp: booked_def)
  moreover have "list_all (request_of meth url' body) ?d" "pays ?post = []"
    "length (settled_payments ?post) \<le> 1"
    by (cases pr; simp add: request_of_def)+
  moreover have "pay_calls E limits cfg url start s invoice amount ?d"
    unfolding pay_calls_def using 3(1,2,4,6) calculation(3,4)
    by (intro exI [of _ rv] exI [of _ b] exI [of _ ?post] exI [of _ s'] exI [of _ "[]"]) simp
  ultimately show ?case using 3(4) by blast
qed (auto intro: exI [of _ "[]"])

lemma answer_challenge_run:
  assumes "answer_challenge E limits cfg meth url body start response s = (r, s')"
  shows "\<exists>\<Delta>. sy_log s' = sy_log s @ \<Delta> \<and> list_all (request_of meth url body) \<Delta>
    \<and> (pays \<Delta> = [] \<and> settled_payments \<Delta> = []
       \<or> (\<exists>ch amount. extract_challenge E response = Ok ch
            \<and> invoice_amount_sats (c_invoice ch) = Ok amount
            \<and> pay_calls E limits cfg url start s (c_invoice ch) amount \<Delta>))
    \<and> (r \<noteq> Panic \<longrightarrow> map receipt_core (cl_receipts (sy_cl s')) =
         map receipt_core (cl_receipts (sy_cl s)) @ map (payment_core url) (settled_payments \<Delta>))"
proof (cases "extract_challenge E response")
  case ch: (Ok ch)
  show ?thesis
  proof (cases "invoice_amount_sats (c_invoice ch)")
    case a: (Ok amount)
    let ?calls = "pay_calls E limits cfg url start s (c_invoice ch) amount"
    note pay = pay_challenge_log [of E limits cfg "c_invoice ch" amount url start s
        _ _ meth url body]
    have "bind_act (pay_challenge E limits cfg (c_invoice ch) amount (request_domain E url) url start)
        (retry_paid E meth url body start (c_macaroon ch)) s = (r, s')"
      using assms(1) by (simp add: answer_challenge_def ch a)
    then show ?thesis
    proof (cases rule: bind_actE)
      case (ok x s1)
      obtain d1 where d1: "sy_log s1 = sy_log s @ d1" "list_all (request_of meth url body) d1"
        "pays d1 = [] \<and> settled_payments d1 = [] \<or> ?calls d1"
        "map receipt_core (cl_receipts (sy_cl s1)) =
           map receipt_core (cl_receipts (sy_cl s)) @ map (payment_core url) (settled_payments d1)"
        using pay [OF ok(1)] by auto
      obtain d2 where d2: "sy_log s' = sy_log s1 @ d2" "list_all (request_of meth url body) d2"
        "pays d2 = []" "settled_payments d2 = []" "same_books (sy_cl s1) (sy_cl s')"
        using quiet_actD [OF quiet_retry ok(2)] unfolding quiet_def by blast
      have "pays (d1 @ d2) = [] \<and> settled_payments (d1 @ d2) = [] \<or> ?calls (d1 @ d2)"
        using d1(3)
      proof
        assume "?calls d1"
        from pay_calls_append [OF this d2(3,4)] show ?thesis ..
      qed (use d2(3,4) in simp)
      then show ?thesis using d1 d2 ch a by (intro exI [of _ "d1 @ d2"]) (auto simp: same_books_def)
    next
      case (err e)
      then show ?thesis using pay [OF err(1)] ch a by blast
    next
      case panic
      then show ?thesis using pay [OF panic(1)] ch a by blast
    qed
  qed (use assms(1) in \<open>auto simp: answer_challenge_def ch\<close>)
qed (use assms(1) in \<open>auto simp: answer_challenge_def\<close>)

lemma request_run:
  assumes "request E limits cfg meth url body s = (r, s')"
  shows "\<exists>\<Delta>. sy_log s' = sy_log s @ \<Delta> \<and> list_all (request_of meth url body) \<Delta>
    \<and> (pays \<Delta> = [] \<and> settled_payments \<Delta> = [] \<or> paid_for E limits cfg meth url body s s')
    \<and> (r \<noteq> Panic \<longrightarrow> map receipt_core (cl_receipts (sy_cl s')) =
         map receipt_core (cl_receipts (sy_cl s)) @ map (payment_core url) (settled_payments \<Delta>))"
  using request_parts [OF assms]
proof (elim disjE exE conjE)
  assume "quiet meth url body s s'"
  then show ?thesis unfolding quiet_def same_books_def by auto
next
  fix s1 s2 response
  let ?rq = "HttpSent (plain_request meth url body) (Inr response)"
  assume q: "quiet meth url body s s1" and s2: "sy_log s2 = sy_log s1 @ [?rq]" "sy_cl s2 = sy_cl s1"
    and st: "rs_status response = PAYMENT_REQUIRED"
    and a: "answer_challenge E limits cfg meth url body (e_instant E (sy_ext s)) response s2 = (r, s')"
  obtain d0 where d0: "sy_log s1 = sy_log s @ d0" "list_all (request_of meth url body) d0"
    "pays d0 = []" "settled_payments d0 = []" "same_books (sy_cl s) (sy_cl s1)"
    using q unfolding quiet_def by blast
  obtain d where d: "sy_log s' = sy_log s2 @ d" "list_all (request_of meth url body) d"
    "pays d = [] \<and> settled_payments d = [] \<or> (\<exists>ch amount. extract_challenge E response = Ok ch
       \<and> invoice_amount_sats (c_invoice ch) = Ok amount
       \<and> pay_calls E limits cfg url (e_instant E (sy_ext s)) s2 (c_invoice ch) amount d)"
    "r \<noteq> Panic \<longrightarrow> map receipt_core (cl_receipts (sy_cl s')) =
       map receipt_core (cl_receipts (sy_cl s2)) @ map (payment_core url) (settled_payments d)"
    using answer_challenge_run [OF a] by blast
  have "pays (d0 @ ?rq # d) = [] \<and> settled_payments (d0 @ ?rq # d) = [] \<or> paid_for E limits cfg meth url body s s'"
    using d(3)
  proof (elim disjE exE conjE, goal_cases)
    case 1
    then show ?case using d0(3,4) by simp
  next
    case (2 ch amount)
    have "paid_for E limits cfg meth url body s s'"
      by (rule pay_calls_paid_for [OF 2(3) st 2(1,2) d0(3,4)]) (use d0(1,5) s2 d(1) in simp_all)
    then show ?case ..
  qed
  moreover have "list_all (request_of meth url body) (d0 @ ?rq # d)"
    using d0(2) d(2) by (simp add: request_of_def)
  moreover have "sy_log s' = sy_log s @ d0 @ ?rq # d" using d0(1) s2(1) d(1) by simp
  moreover have "r \<noteq> Panic \<longrightarrow> map receipt_core (cl_receipts (sy_cl s')) =
      map receipt_core (cl_receipts (sy_cl s)) @ map (payment_core url) (settled_payments (d0 @ ?rq # d))"
    using d(4) d0(4,5) s2(2) by (simp add: same_books_def)
  ultimately show ?thesis by blast
qed


section \<open>The origin of the response\<close>

definition origin_act :: "'w env \<Rightarrow> string \<Rightarrow> (l402_response, 'w) act \<Rightarrow> bool" where
  "origin_act E url m \<longleftrightarrow> (\<forall>s x s'. m s = (Ok x, s') \<longrightarrow> same_origin E url (lr_inner x))"

lemma origin_bind:
  assumes "\<And>a s s1. m s = (Ok a, s1) \<Longrightarrow> origin_act E url (f a)"
  shows "origin_act E url (bind_act m f)"
  unfolding origin_act_def
proof (intro allI impI)
  fix s x s' assume "bind_act m f s = (Ok x, s')"
  then show "same_origin E url (lr_inner x)"
  proof (cases rule: bind_actE)
    case (ok a s1)
    then show ?thesis using assms [OF ok(1)] unfolding origin_act_def by blast
  qed auto
qed

lemma origin_pure:
  "same_origin E url (lr_inner x) \<Longrightarrow> origin_act E url (ret x)" "origin_act E url (fail e)"
  by (simp_all add: origin_act_def)

lemma send_origin:
  "send_with_auth E meth url body token s = (Ok x, s') \<Longrightarrow> same_origin E url x"
  "send_request E meth url body s = (Ok x, s') \<Longrightarrow> same_origin E url x"
  using send_with_auth_run send_request_run by blast+

lemma origin_retry: "origin_act E url (retry_paid E meth url body start macaroon x)"
  by (cases x) (auto simp: retry_paid_def Let_def intro!: origin_bind origin_pure, erule send_origin)

lemma origin_answer: "origin_act E url (answer_challenge E limits cfg meth url body start response)"
  unfolding answer_challenge_def by (intro origin_bind origin_retry)

lemma try_cached_origin:
  assumes "try_cached E meth url body token s = (Ok (Some x), s')"
  shows "same_origin E url (lr_inner x)"
  using assms by (cases token) (auto simp: try_cached_def split: if_splits elim!: bind_actE, erule send_origin)

lemma origin_request: "origin_act E url (request E limits cfg meth url body)"
proof -
  have "origin_act E url (bind_act (find_token E url) (\<lambda>token.
      bind_act (try_cached E meth url body token) (\<lambda>done1. case done1 of
        Some r \<Rightarrow> ret r
      | None \<Rightarrow> bind_act (send_request E meth url body) (\<lambda>response.
          if rs_status response \<noteq> PAYMENT_REQUIRED
          then ret \<lparr>lr_inner = response, lr_paid = False, lr_cached_token = False, lr_receipt = None\<rparr>
          else answer_challenge E limits cfg meth url body start response))))" for start
    by (auto intro!: origin_bind origin_pure origin_answer split: option.splits)
      (erule send_origin try_cached_origin)+
  then show ?thesis unfolding origin_act_def request_def Let_def by blast
qed

section \<open>A client to apply the properties to\<close>

text \<open>A server that answers every request without authorization with a challenge for 1000
  satoshis, a backend that pays it, and a store that fails to store.\<close>

definition sample_header :: string where
  "sample_header = ''L402 '' @ render_params [(''macaroon'', ''QQ''), (''invoice'', ''lnbc10u1x'')]"

definition sample_payment :: payment_result where
  "sample_payment = \<lparr>pr_preimage = ''aa'', pr_payment_hash = ''bb'', pr_amount_sats = 1000, pr_fee_sats = 1\<rparr>"

definition sample_env :: "unit env" where
  "sample_env = \<lparr>
     e_send = (\<lambda>w rq. (Inr (if rq_authorization rq = None
        then \<lparr>rs_status = 402, rs_origin = ''o'', rs_www_authenticate = Some sample_header, rs_body = []\<rparr>
        else \<lparr>rs_status = 200, rs_origin = ''o'', rs_www_authenticate = None, rs_body = ''data''\<rparr>), w)),
     e_supports_fee_limit = (\<lambda>_. True),
     e_pay_invoice = (\<lambda>w invoice fee. (Ok sample_payment, w)),
     e_put = (\<lambda>w e m p. (Err (Backend ''disk full''), w)),
     e_get = (\<lambda>w e. (Ok None, w)),
     e_remove = (\<lambda>w e. (Ok (), w)),
     e_clock = (\<lambda>_. Some 7200), e_instant = (\<lambda>_. 0),
     e_url_parse = (\<lambda>u. Inr \<lparr>u_origin = ''o'', u_host = Some ''h.''\<rparr>),
     e_header_value = Inr, e_header_to_str = Some, e_b64_std = Inr, e_b64_url = Inr\<rparr>"

definition sample_sys :: "unit sys" where
  "sample_sys = \<lparr>sy_ext = (), sy_cl = client_start, sy_log = []\<rparr>"

lemma sample_challenge:
  "extract_challenge sample_env \<lparr>rs_status = 402, rs_origin = ''o'',
     rs_www_authenticate = Some sample_header, rs_body = []\<rparr>
   = Ok \<lparr>c_macaroon = ''QQ'', c_invoice = ''lnbc10u1x'', c_address = None\<rparr>"
proof -
  define kvs :: "(string \<times> string) list" where
    "kvs = [(''macaroon'', ''QQ''), (''invoice'', ''lnbc10u1x'')]"
  define c where "c = \<lparr>c_macaroon = ''QQ'', c_invoice = ''lnbc10u1x'', c_address = None\<rparr>"
  have "params_ok kvs"
    by (simp add: kvs_def params_ok_def key_ok_def value_ok_def solid_char_def str_eval)
  moreover have "binding kvs ''macaroon'' = Some ''QQ''" "binding kvs ''invoice'' = Some ''lnbc10u1x''"
    "binding kvs ''address'' = None"
    by (simp_all add: kvs_def binding_def str_eval)
  ultimately have "challenge_from_header Inr Inr (''L402 '' @ render_params kvs) = Ok c"
    using challenge_from_rendered [of kvs "''L402 ''" Inr Inr]
    by (simp add: finish_challenge_Ok_iff c_def starts_with_def)
  then show ?thesis
    by (simp add: extract_challenge_def sample_env_def sample_header_def kvs_def c_def)
qed

lemma sample_amount: "invoice_amount_sats ''lnbc10u1x'' = Ok 1000"
proof -
  have "decode_bolt11_amount ''lnbc10u1x'' = decode_amount_str ''10u''"
    by (rule decode_rendered [of "''lnbc''" _ "''x''"]) (simp_all add: str_eval)
  moreover have "decode_amount_str ''10u'' = Ok (Some (InvoiceAmount 1000000))"
    by (simp add: decode_amount_str_def MULTIPLIERS_def parse_amount_with_multiplier_def
        parse_integer_def checked_msat_def checked_mul_def str_eval Let_def)
  ultimately show ?thesis by (simp add: invoice_amount_sats_def satoshis_def div_ceil_def)
qed

lemma sample_reserved:
  "reserve_at unlimited 1000 100 (Some ''h'') 7200 tracker_new =
     (Ok \<lparr>rv_id = 0, rv_max_fee_sats = 100\<rparr>,
      tracker_new\<lparr>bs_next_id := 1, bs_pending := [(0, 1100, Some ''h'')]\<rparr>)"
  by (simp add: reserve_at_def tracker_new_def fee_allowed_def sum_u64_def pending_amounts_def
      allowance_def allowance_checks_def unlimited_def ledger_default_def bucket_def
      saturating_add_def checked_sub_def checked_add_def add_u64_def u64_max_def Let_def)

abbreviation sample_config :: client_config where
  "sample_config \<equiv> config_default ''0.6.0''"

lemma sample_lower: "to_ascii_lowercase ''lnbc10u1x'' = ''lnbc10u1x''"
  by (simp add: str_eval)

lemma sample_domain: "request_domain sample_env u = Some ''h''"
  by (simp add: request_domain_def sample_env_def trim_end_matches_def)

text \<open>The payment succeeds; the store then refuses the token.\<close>

definition sample_paid_cl :: client_state where
  "sample_paid_cl = snd (commit_payment ''lnbc10u1x'' (sample_payment, 0)
     (snd (settle_payment \<lparr>rv_id = 0, rv_max_fee_sats = 100\<rparr> sample_payment 7200 False
       (client_start\<lparr>cl_budget := tracker_new\<lparr>bs_next_id := 1, bs_pending := [(0, 1100, Some ''h'')]\<rparr>,
          cl_payments := [''lnbc10u1x'' \<mapsto> None],
          cl_receipts := [\<lparr>rc_timestamp = 7200, rc_endpoint = ''u'', rc_amount_sats = 1000,
             rc_fee_sats = 1, rc_payment_hash = ''bb'', rc_preimage = ''aa'',
             rc_response_status = 0, rc_latency_ms = 0\<rparr>]\<rparr>))))"

lemma sample_pay_challenge:
  "pay_challenge sample_env unlimited sample_config ''lnbc10u1x'' 1000 (Some ''h'') ''u'' 0
     (sample_sys\<lparr>sy_log := l\<rparr>)
   = (Ok (sample_payment, 0, True), sample_sys\<lparr>sy_cl := sample_paid_cl,
        sy_log := l @ [PaySent ''lnbc10u1x'' 100, PaySettled sample_payment]\<rparr>)"
  by (simp add: pay_challenge_def Let_def sample_lower on_cl_eq claim_def sample_sys_def client_start_def
      sample_env_def config_default_def now_secs_def sample_reserved bind_act_def pay_new_def call_pay_def
      log_call_def after_payment_def payment_receipt_def receipt_new_def elapsed_ms_def
      payment_violation_def sample_payment_def payment_total_def checked_add_def push_receipt_def
      settle_payment_def settle_at_def commit_payment_def sample_paid_cl_def lift_res_def)


lemma sample_persist:
  "persist_token sample_env url tok s = (Err (Backend ''disk full''),
     s\<lparr>sy_cl := (sy_cl s)\<lparr>cl_unpersisted := (cl_unpersisted (sy_cl s))(url \<mapsto> tok)\<rparr>,
       sy_log := sy_log s @ [StorePut url tok]\<rparr>)"
  by (simp add: persist_token_def on_cl_eq keep_unpersisted_def store_put_def sample_env_def log_call_def
      bind_act_def)

lemma sample_request:
  "request sample_env unlimited sample_config ''GET'' ''u'' None sample_sys =
     (Err (Backend ''disk full''),
      sample_sys\<lparr>sy_cl := sample_paid_cl\<lparr>cl_unpersisted := [''u'' \<mapsto> token_new ''QQ'' ''aa'']\<rparr>,
        sy_log := [HttpSent (plain_request ''GET'' ''u'' None) (Inr \<lparr>rs_status = 402, rs_origin = ''o'',
            rs_www_authenticate = Some sample_header, rs_body = []\<rparr>),
          PaySent ''lnbc10u1x'' 100, PaySettled sample_payment, StorePut ''u'' (token_new ''QQ'' ''aa'')]\<rparr>)"
proof -
  let ?s = "sample_sys\<lparr>sy_log := [HttpSent (plain_request ''GET'' ''u'' None) (Inr \<lparr>rs_status = 402,
      rs_origin = ''o'', rs_www_authenticate = Some sample_header, rs_body = []\<rparr>)]\<rparr>"
  have send: "send_request sample_env ''GET'' ''u'' None sample_sys = (Ok \<lparr>rs_status = 402,
      rs_origin = ''o'', rs_www_authenticate = Some sample_header, rs_body = []\<rparr>, ?s)"
    by (simp add: send_request_def send_checked_def sample_env_def log_call_def sample_sys_def)
  have find: "find_token sample_env ''u'' sample_sys = (Ok None, sample_sys)"
    by (simp add: find_token_def sample_sys_def client_start_def store_get_def sample_env_def bind_act_def)
  have un: "cl_unpersisted sample_paid_cl = (\<lambda>_. None)"
    by (simp add: sample_paid_cl_def commit_payment_def settle_payment_def client_start_def
        split: prod.splits)
  have inst: "e_instant sample_env x = 0" for x by (simp add: sample_env_def)
  have b1: "bind_act (find_token sample_env ''u'') f sample_sys = f None sample_sys" for f
    by (simp add: bind_act_def find)
  have b2: "bind_act (send_request sample_env ''GET'' ''u'' None) f sample_sys = f \<lparr>rs_status = 402,
      rs_origin = ''o'', rs_www_authenticate = Some sample_header, rs_body = []\<rparr> ?s" for f
    by (simp add: bind_act_def send)
  have b3: "bind_act (pay_challenge sample_env unlimited sample_config ''lnbc10u1x'' 1000 (Some ''h'') ''u'' 0)
      f (sample_sys\<lparr>sy_log := l\<rparr>) = f (sample_payment, 0, True) (sample_sys\<lparr>sy_cl := sample_paid_cl,
        sy_log := l @ [PaySent ''lnbc10u1x'' 100, PaySettled sample_payment]\<rparr>)" for f l
    by (simp add: bind_act_def sample_pay_challenge)
  have b4: "bind_act (persist_token sample_env url tok) f s = (Err (Backend ''disk full''),
     s\<lparr>sy_cl := (sy_cl s)\<lparr>cl_unpersisted := (cl_unpersisted (sy_cl s))(url \<mapsto> tok)\<rparr>,
       sy_log := sy_log s @ [StorePut url tok]\<rparr>)" for url tok s and f :: "unit \<Rightarrow> (l402_response, unit) act"
    by (simp add: bind_act_def sample_persist)
  show ?thesis
    by (simp add: request_def Let_def inst b1 try_cached_def b2
        PAYMENT_REQUIRED_def answer_challenge_def sample_challenge sample_amount sample_domain
        b3 retry_paid_def b4 un)
      (simp add: sample_payment_def)
qed

section \<open>Properties\<close>



text \<open>C4. Paid money never disappears from the records: unless the clock is before the epoch, every
  payment that the backend settled during a request has a receipt with its amount, fee, hash and
  preimage afterwards, also if the budget, the token store or the retry failed; earlier receipts
  stay, and nothing else is recorded.\<close>

theorem settled_payments_have_receipts:
  assumes "request E limits cfg meth url body s = (r, s')" and "r \<noteq> Panic"
  shows "\<exists>\<Delta>. sy_log s' = sy_log s @ \<Delta> \<and> map receipt_core (cl_receipts (sy_cl s')) =
    map receipt_core (cl_receipts (sy_cl s)) @ map (payment_core url) (settled_payments \<Delta>)"
  using request_run [OF assms(1)] assms(2) by blast

theorem settled_payments_have_receipts_witness:
  "map receipt_core (cl_receipts (sy_cl (snd
     (request sample_env unlimited sample_config ''GET'' ''u'' None sample_sys)))) =
   [payment_core ''u'' sample_payment]"
  using settled_payments_have_receipts [OF sample_request]
  by (simp add: sample_request) (simp add: sample_sys_def client_start_def)

text \<open>C19. An invoice is paid once: after a \<open>pay_challenge\<close> that called the backend, the same invoice in
  any case is not submitted again. After a success it is answered from the map of payments with the
  same payment and receipt, without a change of the state; after a failure that is no confirmed
  rejection, and after a settled payment that broke its authorization, with \<open>PaymentUncertain\<close>.\<close>

theorem invoice_paid_once:
  assumes "pay_challenge E limits cfg invoice amount domain url start s = (r, s')"
    and "to_ascii_lowercase invoice' = to_ascii_lowercase invoice"
    and "pays (drop (length (sy_log s)) (sy_log s')) = [(submitted, cap)]"
    and "fst (e_pay_invoice E (sy_ext s) invoice cap) = answer"
  shows "submitted = invoice
    \<and> (\<forall>p i new. r = Ok (p, i, new) \<longrightarrow> new \<and> answer = Ok p
       \<and> pay_challenge E' limits' cfg' invoice' amount' domain' url' start' s' = (Ok (p, i, False), s'))
    \<and> (\<forall>e. answer = Err e \<longrightarrow> \<not> is_confirmed_rejection e \<longrightarrow> r = Err e
       \<and> pay_challenge E' limits' cfg' invoice' amount' domain' url' start' s' = (Err PaymentUncertain, s'))
    \<and> (\<forall>p. answer = Ok p \<longrightarrow> payment_violation amount cap p \<longrightarrow> r \<noteq> Panic \<longrightarrow> r = Err (Backend violation_text)
       \<and> pay_challenge E' limits' cfg' invoice' amount' domain' url' start' s' = (Err PaymentUncertain, s'))"
proof -
  let ?key = "to_ascii_lowercase invoice"
  have again: "pay_challenge E' limits' cfg' invoice' amount' domain' url' start' s' =
      (case k of None \<Rightarrow> (Err PaymentUncertain, s') | Some (p, i) \<Rightarrow> (Ok (p, i, False), s'))"
    if "cl_payments (sy_cl s') ?key = Some k" for k
    using that by (auto simp: pay_challenge_def Let_def assms(2) on_cl_eq claim_def bind_act_def
        split: option.splits)
  obtain rv b pr where "pr = fst (e_pay_invoice E (sy_ext s) invoice (rv_max_fee_sats rv))"
    and log: "sy_log s' = sy_log s @ PaySent invoice (rv_max_fee_sats rv) #
           (case pr of Ok p \<Rightarrow> [PaySettled p] | _ \<Rightarrow> [])"
    and bk: "booked ?key url amount rv b pr (sy_cl s) (sy_cl s') r"
    using pay_challenge_run [OF assms(1)] assms(3) by auto
  moreover have cap: "submitted = invoice" "rv_max_fee_sats rv = cap"
    using log assms(3) by (simp_all split: rres.splits)
  ultimately have pr: "pr = answer" by (simp add: assms(4))
  have 1: "new \<and> answer = Ok p \<and> cl_payments (sy_cl s') ?key = Some (Some (p, i))" if "r = Ok (p, i, new)" for p i new
    using that bk pr by (cases answer) (auto simp: booked_def split: if_splits)
  have 2: "r = Err e \<and> cl_payments (sy_cl s') ?key = Some None" if "answer = Err e" "\<not> is_confirmed_rejection e" for e
    using that bk pr by (simp add: booked_def)
  have 3: "r = Err (Backend violation_text) \<and> cl_payments (sy_cl s') ?key = Some None"
    if "answer = Ok p" "payment_violation amount cap p" "r \<noteq> Panic" for p
    using that bk pr cap by (simp add: booked_def)
  show ?thesis
    by (intro conjI allI impI) (use cap(1) 1 2 3 again in auto)
qed

theorem invoice_paid_once_witness:
  "fst (pay_challenge sample_env unlimited sample_config ''LNBC10U1X'' 7 None ''v'' 5
     (sample_sys\<lparr>sy_cl := sample_paid_cl,
        sy_log := [PaySent ''lnbc10u1x'' 100, PaySettled sample_payment]\<rparr>))
   = Ok (sample_payment, 0, False)"
proof -
  have l: "to_ascii_lowercase ''LNBC10U1X'' = to_ascii_lowercase ''lnbc10u1x''"
    by (simp add: str_eval)
  let ?s' = "sample_sys\<lparr>sy_cl := sample_paid_cl, sy_log := [PaySent ''lnbc10u1x'' 100, PaySettled sample_payment]\<rparr>"
  have run: "pay_challenge sample_env unlimited sample_config ''lnbc10u1x'' 1000 (Some ''h'') ''u'' 0 sample_sys
      = (Ok (sample_payment, 0, True), ?s')"
    using sample_pay_challenge [of "[]"] by (simp add: sample_sys_def)
  have sent: "pays (drop (length (sy_log sample_sys)) (sy_log ?s')) = [(''lnbc10u1x'', 100)]"
    by (simp add: sample_sys_def)
  have "fst (e_pay_invoice sample_env (sy_ext sample_sys) ''lnbc10u1x'' 100) = Ok sample_payment"
    by (simp add: sample_env_def)
  from invoice_paid_once [OF run l sent this, of sample_env unlimited sample_config 7 None "''v''" 5]
  show ?thesis by (simp add: ex_bool_eq)
qed

lemma confirmed_iff:
  "is_confirmed_rejection e \<longleftrightarrow> e = FeeLimitUnsupported \<or> (\<exists>reason. e = PaymentRejected reason)"
  by (simp add: is_confirmed_rejection_def split: client_error.splits)

text \<open>C21. What a failed payment leaves: a confirmed rejection gives the reservation back and forgets
  the invoice, so that it may be tried again; any other failure keeps both, so that it is not.\<close>

theorem failed_payment_books:
  assumes "pay_challenge E limits cfg invoice amount domain url start s = (r, s')"
    and "pays (drop (length (sy_log s)) (sy_log s')) = [(invoice, fee)]"
    and "fst (e_pay_invoice E (sy_ext s) invoice fee) = Err e"
    and "budget_reachable limits \<lparr>w_st = cl_budget (sy_cl s), w_now = now_secs E (sy_ext s), w_paid = ps\<rparr>"
  shows "r = Err e \<and> cl_receipts (sy_cl s') = cl_receipts (sy_cl s)
    \<and> (if e = FeeLimitUnsupported \<or> (\<exists>reason. e = PaymentRejected reason)
       then cl_payments (sy_cl s') = cl_payments (sy_cl s)
          \<and> cl_budget (sy_cl s') = (cl_budget (sy_cl s))\<lparr>bs_next_id := bs_next_id (cl_budget (sy_cl s')) \<rparr>
       else cl_payments (sy_cl s') = (cl_payments (sy_cl s))(to_ascii_lowercase invoice \<mapsto> None)
          \<and> psum any_domain (bs_pending (cl_budget (sy_cl s'))) =
              psum any_domain (bs_pending (cl_budget (sy_cl s))) + unat amount + unat fee)"
proof -
  let ?w = "\<lparr>w_st = cl_budget (sy_cl s), w_now = now_secs E (sy_ext s), w_paid = ps\<rparr>"
  obtain rv b pr where res: "reserve_at limits amount (cfg_max_fee_sats cfg) domain
      (now_secs E (sy_ext s)) (cl_budget (sy_cl s)) = (Ok rv, b)"
    and pr: "pr = fst (e_pay_invoice E (sy_ext s) invoice (rv_max_fee_sats rv))"
    and log: "sy_log s' = sy_log s @ PaySent invoice (rv_max_fee_sats rv) #
           (case pr of Ok p \<Rightarrow> [PaySettled p] | _ \<Rightarrow> [])"
    and bk: "booked (to_ascii_lowercase invoice) url amount rv b pr (sy_cl s) (sy_cl s') r"
    using pay_challenge_run [OF assms(1)] assms(2) by auto
  have fee: "rv_max_fee_sats rv = fee" using log assms(2) by simp
  then have "pr = Err e" using pr assms(3) by simp
  note bk = bk [unfolded this booked_def]
  note i = budget_reachable_inv [OF assms(4)]
  have nf: "\<not> bs_frozen (w_st ?w)" using res by (auto simp: reserve_at_def)
  note sane = inv_sane [OF i nf, of domain]
  have fresh: "bs_next_id (cl_budget (sy_cl s)) \<notin> fst ` set (bs_pending (cl_budget (sy_cl s)))"
    using budget_invD(2) [OF i] by auto
  have st: "rv_id rv = bs_next_id (cl_budget (sy_cl s))" "unat amount + unat fee < 2 ^ 64"
    "b = (cl_budget (sy_cl s))\<lparr>bs_next_id := bs_next_id (cl_budget (sy_cl s)) + 1,
       bs_pending := AList.update (bs_next_id (cl_budget (sy_cl s))) (amount + fee, domain)
         (bs_pending (cl_budget (sy_cl s)))\<rparr>"
    using reserve_at_cases(3) [OF sane, of amount "cfg_max_fee_sats cfg" rv] res fee by simp_all
  have "psum any_domain (bs_pending b) = psum any_domain (bs_pending (cl_budget (sy_cl s))) + unat amount + unat fee"
    using psum_update_new [OF fresh, of any_domain "amount + fee" domain] st(2,3)
      unat_add_u64_no_overflow [OF st(2)] by simp
  moreover have "release rv b = (cl_budget (sy_cl s))\<lparr>bs_next_id := bs_next_id (cl_budget (sy_cl s)) + 1\<rparr>"
    using release_reserved(2) [OF fresh] st(1,3) by (simp add: release_def)
  ultimately show ?thesis using bk unfolding confirmed_iff [symmetric]
    by (cases "is_confirmed_rejection e") simp_all
qed

theorem failed_payment_books_witness:
  "fst (pay_challenge (sample_env\<lparr>e_pay_invoice := \<lambda>w i f. (Err (Http ''timeout''), w)\<rparr>) unlimited
     sample_config ''lnbc10u1x'' 1000 (Some ''h'') ''u'' 0 sample_sys) = Err (Http ''timeout'')"
proof -
  let ?E = "sample_env\<lparr>e_pay_invoice := \<lambda>w i f. (Err (Http ''timeout''), w)\<rparr>"
  have now: "now_secs ?E () = 7200" by (simp add: now_secs_def sample_env_def)
  obtain r s' where run: "pay_challenge ?E unlimited sample_config ''lnbc10u1x'' 1000 (Some ''h'') ''u'' 0 sample_sys
      = (r, s')" by fastforce
  have "sy_log s' = [PaySent ''lnbc10u1x'' 100]"
    using run
    by (auto simp: pay_challenge_def Let_def sample_lower on_cl_eq claim_def sample_sys_def client_start_def
      sample_env_def config_default_def now_secs_def sample_reserved bind_act_def pay_new_def call_pay_def
      log_call_def is_confirmed_rejection_def)
  then have p: "pays (drop (length (sy_log sample_sys)) (sy_log s')) = [(''lnbc10u1x'', 100)]"
    by (simp add: sample_sys_def)
  have b: "budget_reachable unlimited \<lparr>w_st = cl_budget (sy_cl sample_sys),
      w_now = now_secs ?E (sy_ext sample_sys), w_paid = []\<rparr>"
    by (simp add: sample_sys_def client_start_def budget_reachable.start)
  have a: "fst (e_pay_invoice ?E (sy_ext sample_sys) ''lnbc10u1x'' 100) = Err (Http ''timeout'')" by simp
  show ?thesis using failed_payment_books [OF run p a b] run by simp
qed

text \<open>C28. A paid token survives a failing token store: if storing it fails in any way, the next
  request for the same URL finds it without asking the store, and as soon as it is stored, the
  client drops its own copy.\<close>

theorem proof_survives_store_failure:
  assumes "persist_token E url token s = (r, s')"
  shows "(r = fst (e_put E (sy_ext s) url (tk_macaroon token) (tk_preimage token)))
    \<and> (if r = Ok () then cl_unpersisted (sy_cl s') url = None
       else find_token E' url s' = (Ok (Some token), s'))"
  using assms
  by (cases "e_put E (sy_ext s) url (tk_macaroon token) (tk_preimage token)"; cases "fst (e_put E (sy_ext s) url (tk_macaroon token) (tk_preimage token))")
    (auto simp: persist_token_def on_cl_eq keep_unpersisted_def store_put_def log_call_def bind_act_def
      drop_if_saved_def drop_unpersisted_def find_token_def)

theorem proof_survives_store_failure_witness:
  "find_token sample_env ''u'' (snd (persist_token sample_env ''u'' (token_new ''QQ'' ''aa'') sample_sys))
   = (Ok (Some (token_new ''QQ'' ''aa'')), snd (persist_token sample_env ''u'' (token_new ''QQ'' ''aa'') sample_sys))"
  using proof_survives_store_failure [OF sample_persist [of "''u''" "token_new ''QQ'' ''aa''" sample_sys],
      of sample_env]
  by (simp add: sample_persist)


text \<open>C29. A request and its credentials stay with the URL that was asked for: every HTTP call has
  the method, URL and body of the request, with or without authorization, and a response is only
  returned if it came from the origin of that URL.\<close>

theorem request_stays_on_origin:
  assumes "request E limits cfg meth url body s = (r, s')"
  shows "(\<exists>\<Delta>. sy_log s' = sy_log s @ \<Delta> \<and> list_all (request_of meth url body) \<Delta>)
    \<and> (\<forall>response. r = Ok response \<longrightarrow> same_origin E url (lr_inner response))"
  using request_run [OF assms] origin_request [of E url limits cfg meth body] assms
  unfolding origin_act_def by blast

theorem request_stays_on_origin_witness:
  "list_all (request_of ''GET'' ''u'' None)
     (sy_log (snd (request sample_env unlimited sample_config ''GET'' ''u'' None sample_sys)))"
  using request_stays_on_origin [OF sample_request]
  by (simp add: sample_request) (simp add: sample_sys_def)

end
