(* ===== verification/Client_Calls.thy ===== *)
theory Client_Calls
  imports Client_Props "HOL-Library.Sublist"
begin

text \<open>
  The calls a request makes on the outside, in their order. \<open>calls_within p m\<close> bounds an action by a
  pattern: its calls are a subsequence of \<open>p\<close>. The patterns of the actions compose to that of a
  request, which is a bound on its traffic and a protocol: what is removed, paid, stored and sent,
  and in which order.
\<close>

section \<open>Patterns of calls\<close>

datatype call_kind =
    SentPlain
  | SentCredential
  | Paid
  | PaidSettled
  | StoredCredential
  | RemovedCredential
  | OtherEndpoint

text \<open>The kind of a call in a request for a URL.\<close>

fun kind_of_call :: "string \<Rightarrow> port_call \<Rightarrow> call_kind" where
  "kind_of_call url (HttpSent rq res) =
     (if rq_url rq \<noteq> url then OtherEndpoint
      else if rq_authorization rq = None then SentPlain else SentCredential)"
| "kind_of_call url (PaySent invoice fee) = Paid"
| "kind_of_call url (PaySettled p) = PaidSettled"
| "kind_of_call url (StorePut u token) = (if u = url then StoredCredential else OtherEndpoint)"
| "kind_of_call url (StoreRemoved u) = (if u = url then RemovedCredential else OtherEndpoint)"

definition calls_within :: "string \<Rightarrow> call_kind list \<Rightarrow> ('a, 'w) act \<Rightarrow> bool" where
  "calls_within url p m \<longleftrightarrow> (\<forall>s r s'. m s = (r, s') \<longrightarrow>
     (\<exists>calls. sy_log s' = sy_log s @ calls \<and> subseq (map (kind_of_call url) calls) p))"

lemma calls_withinD:
  "calls_within url p m \<Longrightarrow> m s = (r, s') \<Longrightarrow>
     \<exists>calls. sy_log s' = sy_log s @ calls \<and> subseq (map (kind_of_call url) calls) p"
  unfolding calls_within_def by blast

lemma within_longer: "calls_within url p m \<Longrightarrow> subseq p q \<Longrightarrow> calls_within url q m"
  unfolding calls_within_def by (meson subseq_order.order_trans)

lemma within_bind:
  assumes "calls_within url p m" and "\<And>a. calls_within url q (f a)"
  shows "calls_within url (p @ q) (bind_act m f)"
  unfolding calls_within_def
proof (intro allI impI)
  fix s r s'
  assume run: "bind_act m f s = (r, s')"
  obtain r1 s1 where m: "m s = (r1, s1)" by fastforce
  obtain c1 where c1: "sy_log s1 = sy_log s @ c1" "subseq (map (kind_of_call url) c1) p"
    using calls_withinD [OF assms(1) m] by blast
  show "\<exists>calls. sy_log s' = sy_log s @ calls \<and> subseq (map (kind_of_call url) calls) (p @ q)"
  proof (cases "\<exists>a. r1 = Ok a")
    case True
    then obtain a where "f a s1 = (r, s')" using run m by auto
    then obtain c2 where "sy_log s' = sy_log s1 @ c2" "subseq (map (kind_of_call url) c2) q"
      using calls_withinD [OF assms(2)] by blast
    then show ?thesis using c1 by (intro exI [of _ "c1 @ c2"]) (simp add: list_emb_append_mono)
  next
    case False
    then have "s' = s1" using run m by (cases r1) (auto simp: bind_act_def)
    then show ?thesis using c1 by (intro exI [of _ c1]) (simp add: subseq_rev_drop_many)
  qed
qed

lemma within_bind_same:
  "calls_within url p m \<Longrightarrow> (\<And>a. calls_within url [] (f a)) \<Longrightarrow> calls_within url p (bind_act m f)"
  using within_bind [of url p m "[]" f] by simp

lemma within_bind_none:
  "calls_within url [] m \<Longrightarrow> (\<And>a. calls_within url q (f a)) \<Longrightarrow> calls_within url q (bind_act m f)"
  using within_bind [of url "[]" m q f] by simp

lemma within_silent: "(\<And>s r s'. m s = (r, s') \<Longrightarrow> sy_log s' = sy_log s) \<Longrightarrow> calls_within url p m"
  unfolding calls_within_def by fastforce

lemma within_pure: "calls_within url p (ret a)" "calls_within url p (fail e)" "calls_within url p (lift_res x)"
  "calls_within url p (on_cl f)"
  by (auto intro!: within_silent simp: on_cl_eq)

section \<open>The pattern of each action\<close>

lemma within_send:
  "calls_within url [SentPlain] (send_request E meth url body)"
  "calls_within url [SentCredential] (send_with_auth E meth url body token)"
  by (auto simp: calls_within_def send_request_def send_with_auth_def send_checked_def log_call_def Let_def
      split: prod.splits sum.splits if_splits)

lemma within_store:
  "calls_within url [StoredCredential] (store_put E url token)"
  "calls_within url [RemovedCredential] (store_remove E url)"
  by (auto simp: calls_within_def store_put_def store_remove_def log_call_def split: prod.splits)

lemma within_find: "calls_within url p (find_token E url)"
  by (rule within_silent) (auto simp: find_token_def store_get_def elim!: bind_actE split: option.splits prod.splits)

lemma within_persist: "calls_within url [StoredCredential] (persist_token E url token)"
  unfolding persist_token_def by (intro within_bind_none within_bind_same within_pure within_store)

lemma within_removal:
  assumes "\<And>a. calls_within url [] (f a)"
  shows "calls_within url [RemovedCredential] (bind_act (on_cl g) (\<lambda>_. bind_act (store_remove E url) f))"
  by (intro within_bind_none [OF within_pure(4)] within_bind_same [OF within_store(2)] assms)

lemma within_cached: "calls_within url [SentCredential, RemovedCredential] (try_cached E meth url body token)"
proof (cases token)
  case (Some t)
  have "calls_within url ([SentCredential] @ [RemovedCredential]) (try_cached E meth url body token)"
    unfolding try_cached_def Some option.case
    by (intro within_bind [OF within_send(2)]) (simp add: within_removal within_pure)
  then show ?thesis by simp
qed (simp add: try_cached_def within_pure)

lemma after_payment_log: "after_payment E key amount u start rv payment s = (r, s') \<Longrightarrow> sy_log s' = sy_log s"
  by (auto simp: after_payment_def Let_def on_cl_eq bind_act_def split: prod.splits rres.splits if_splits)

lemma within_call_pay: "calls_within url [Paid, PaidSettled] (call_pay E invoice fee)"
  by (auto simp: calls_within_def call_pay_def log_call_def Let_def split: prod.splits rres.splits)

lemma pay_new_bind:
  assumes "pay_new E invoice key amount u start rv s = (r, s')"
  shows "\<exists>pr s1. call_pay E invoice (rv_max_fee_sats rv) s = (pr, s1) \<and> sy_log s' = sy_log s1"
proof -
  obtain pr s1 where c: "call_pay E invoice (rv_max_fee_sats rv) s = (pr, s1)" by fastforce
  then have "sy_log s' = sy_log s1" using assms
    by (cases pr) (auto simp: pay_new_def on_cl_eq release_claim_def forget_claim_def bind_act_def
        dest: after_payment_log split: if_splits)
  then show ?thesis using c by blast
qed

lemma within_pay_new: "calls_within url [Paid, PaidSettled] (pay_new E invoice key amount u start rv)"
  unfolding calls_within_def using pay_new_bind calls_withinD [OF within_call_pay] by metis

lemma within_pay: "calls_within url [Paid, PaidSettled] (pay_challenge E limits cfg invoice amount domain u start)"
  unfolding calls_within_def pay_challenge_def Let_def
proof (intro allI impI)
  fix s :: "'a sys" and r s'
  let ?claim = "on_cl (claim limits cfg (e_supports_fee_limit E (sy_ext s)) (to_ascii_lowercase invoice) amount domain (now_secs E (sy_ext s)))"
  let ?rest = "\<lambda>c. case c of Inl (payment, idx) \<Rightarrow> ret (payment, idx, False)
      | Inr rv \<Rightarrow> bind_act (pay_new E invoice (to_ascii_lowercase invoice) amount u start rv) (\<lambda>(payment, idx). ret (payment, idx, True))"
  assume run: "bind_act ?claim ?rest s = (r, s')"
  have "calls_within url [Paid, PaidSettled] (?rest c)" for c
    by (auto intro!: within_pure within_bind_same within_pay_new split: sum.split prod.split)
  then have "calls_within url [Paid, PaidSettled] (bind_act ?claim ?rest)" by (rule within_bind_none [OF within_pure(4)])
  from calls_withinD [OF this run]
  show "\<exists>calls. sy_log s' = sy_log s @ calls \<and> subseq (map (kind_of_call url) calls) [Paid, PaidSettled]" .
qed

lemma within_own: "calls_within url p (\<lambda>s. on_cl (f s) s)"
  by (rule within_silent) (auto simp: on_cl_eq)

lemma within_retry:
  "calls_within url [StoredCredential, SentCredential, RemovedCredential] (retry_paid E meth url body start m res)"
proof -
  obtain payment i newly where res: "res = (payment, i, newly)" by (metis prod_cases3)
  have "calls_within url ([StoredCredential] @ [SentCredential] @ [RemovedCredential]) (retry_paid E meth url body start m res)"
    unfolding retry_paid_def Let_def res prod.case
    by (intro within_bind [OF within_persist] within_bind [OF within_send(2)] within_bind_none [OF within_own])
      (simp add: within_removal within_pure)
  then show ?thesis by simp
qed

lemma within_answer:
  "calls_within url [Paid, PaidSettled, StoredCredential, SentCredential, RemovedCredential]
     (answer_challenge E limits cfg meth url body start response)"
proof -
  have "calls_within url ([Paid, PaidSettled] @ [StoredCredential, SentCredential, RemovedCredential])
      (answer_challenge E limits cfg meth url body start response)"
    unfolding answer_challenge_def
    by (intro within_bind_none [OF within_pure(3)] within_bind [OF within_pay] within_retry)
  then show ?thesis by simp
qed

definition request_pattern :: "call_kind list" where
  "request_pattern = [SentCredential, RemovedCredential, SentPlain, Paid, PaidSettled, StoredCredential,
     SentCredential, RemovedCredential]"

lemma within_request: "request E limits cfg meth url body s = (r, s') \<Longrightarrow>
    \<exists>calls. sy_log s' = sy_log s @ calls \<and> subseq (map (kind_of_call url) calls) request_pattern"
proof -
  assume run: "request E limits cfg meth url body s = (r, s')"
  let ?start = "e_instant E (sy_ext s)"
  let ?first = "\<lambda>response. if rs_status response \<noteq> PAYMENT_REQUIRED
        then ret \<lparr>lr_inner = response, lr_paid = False, lr_cached_token = False, lr_receipt = None\<rparr>
        else answer_challenge E limits cfg meth url body ?start response"
  let ?rest = "\<lambda>done1. case done1 of Some r \<Rightarrow> ret r | None \<Rightarrow> bind_act (send_request E meth url body) ?first"
  have first: "calls_within url [Paid, PaidSettled, StoredCredential, SentCredential, RemovedCredential] (?first response)" for response
    by (auto intro: within_pure within_answer)
  have rest: "calls_within url [SentPlain, Paid, PaidSettled, StoredCredential, SentCredential, RemovedCredential] (?rest d)" for d
    using within_bind [OF within_send(1) first] by (cases d) (auto intro: within_pure)
  have "calls_within url ([SentCredential, RemovedCredential] @ [SentPlain, Paid, PaidSettled, StoredCredential, SentCredential, RemovedCredential])
      (bind_act (find_token E url) (\<lambda>token. bind_act (try_cached E meth url body token) ?rest))"
    by (rule within_bind_none [OF within_find within_bind [OF within_cached rest]])
  from calls_withinD [OF this run [unfolded request_def Let_def]] show ?thesis by (simp add: request_pattern_def)
qed

lemma retries_unread:
  "request E limits (cfg\<lparr>cfg_max_retries := n\<rparr>) meth url body = request E limits cfg meth url body"
proof -
  have fee: "cfg_max_fee_sats (cfg\<lparr>cfg_max_retries := n\<rparr>) = cfg_max_fee_sats cfg" by simp
  have "claim limits (cfg\<lparr>cfg_max_retries := n\<rparr>) = claim limits cfg" unfolding claim_def [abs_def] fee by (rule refl)
  then have pay: "pay_challenge E limits (cfg\<lparr>cfg_max_retries := n\<rparr>) = pay_challenge E limits cfg"
    unfolding pay_challenge_def [abs_def] by simp
  then have ans: "answer_challenge E limits (cfg\<lparr>cfg_max_retries := n\<rparr>) meth url body = answer_challenge E limits cfg meth url body"
    unfolding answer_challenge_def [abs_def] by simp
  show ?thesis unfolding request_def [abs_def] ans by (rule refl)
qed

section \<open>Property\<close>

text \<open>C18. A request is a bounded exchange in a fixed order: at most one attempt with a cached credential, the
  removal of that credential, one plain request, one payment, the storing of the new credential,
  one attempt with it, and its removal, each at most once, in this order and all for the URL of the request. The
  configured number of retries has no influence.\<close>

theorem request_call_order:
  assumes "request E limits cfg meth url body s = (r, s')"
  shows "(\<exists>calls. sy_log s' = sy_log s @ calls
      \<and> subseq (map (kind_of_call url) calls)
          [SentCredential, RemovedCredential, SentPlain, Paid, PaidSettled, StoredCredential,
           SentCredential, RemovedCredential])
    \<and> request E limits (cfg\<lparr>cfg_max_retries := n\<rparr>) meth url body s = (r, s')"
  using within_request [OF assms] assms by (simp add: request_pattern_def retries_unread)

theorem request_call_order_witness:
  "\<exists>r s'. request sample_env unlimited sample_config ''GET'' ''u'' None sample_sys = (r, s')
    \<and> request sample_env unlimited (sample_config\<lparr>cfg_max_retries := 7\<rparr>) ''GET'' ''u'' None sample_sys = (r, s')"
proof -
  obtain r s' where r: "request sample_env unlimited sample_config ''GET'' ''u'' None sample_sys = (r, s')" by fastforce
  show ?thesis using request_call_order [OF r, of 7] r by blast
qed

end
