(* ===== verification/Client_Concurrent.thy ===== *)
theory Client_Concurrent
  imports Client_Props "HOL-Library.Multiset"
begin

text \<open>
  Concurrent calls of \<open>pay_challenge\<close> on one client. A task is one call; its program counter says
  between which two blocks of the code it is, and each step runs one block of \<open>Client.thy\<close>, so that
  the blocks of different tasks interleave in any order. While a task waits for the backend its
  future may be dropped (the step \<open>uncertain\<close>, as for an error that is no confirmed rejection).
  The backend may answer anything.
\<close>

section \<open>Tasks and steps\<close>

datatype pc =
    Paying string u64 "string option" string reservation
  | Paid string u64 "string option" string reservation payment_result
  | Receipted string u64 "string option" reservation payment_result nat
  | Committing string payment_result nat
  | Releasing string u64 "string option" reservation
  | Forgetting string
  | Lost string payment_result
  | Over

text \<open>
  The shared state, and what an observer of the ports sees: the invoices submitted, those the
  backend confirmed as rejected, the payments it settled (with the URL, the authorized amount
  and the fee cap), and the amounts charged to the budget.
\<close>

record conc =
  cc_cl :: client_state
  cc_now :: u64
  cc_tasks :: "pc list"
  cc_sent :: "string list"
  cc_rejected :: "string list"
  cc_settled :: "(string \<times> u64 \<times> u64 \<times> payment_result) list"
  cc_charged :: "(u64 \<times> u64 \<times> string option) list"

definition conc_start :: "u64 \<Rightarrow> conc" where
  "conc_start now = \<lparr>cc_cl = client_start, cc_now = now, cc_tasks = [], cc_sent = [],
     cc_rejected = [], cc_settled = [], cc_charged = []\<rparr>"

definition charge :: "payment_result \<Rightarrow> u64" where
  "charge p = (case payment_total p of None \<Rightarrow> u64_max | Some t \<Rightarrow> t)"

inductive conc_step :: "budget \<Rightarrow> client_config \<Rightarrow> conc \<Rightarrow> conc \<Rightarrow> bool" for limits cfg where
  tick: "cc_now s \<le> now' \<Longrightarrow> conc_step limits cfg s (s\<lparr>cc_now := now'\<rparr>)"
| claimed: "claim limits cfg supports key amount domain (cc_now s) (cc_cl s) = (Ok (Inr rv), cl') \<Longrightarrow>
     conc_step limits cfg s
       (s\<lparr>cc_cl := cl', cc_tasks := cc_tasks s @ [Paying key amount domain url rv],
          cc_sent := cc_sent s @ [key]\<rparr>)"
| refused: "claim limits cfg supports key amount domain (cc_now s) (cc_cl s) = (res, cl') \<Longrightarrow>
     \<forall>rv. res \<noteq> Ok (Inr rv) \<Longrightarrow>
     conc_step limits cfg s (s\<lparr>cc_cl := cl', cc_tasks := cc_tasks s @ [Over]\<rparr>)"
| answered: "cc_tasks s = as @ Paying key amount domain url rv # bs \<Longrightarrow>
     conc_step limits cfg s
       (s\<lparr>cc_tasks := as @ Paid key amount domain url rv p # bs,
          cc_settled := cc_settled s @ [(url, amount, rv_max_fee_sats rv, p)]\<rparr>)"
| rejected: "cc_tasks s = as @ Paying key amount domain url rv # bs \<Longrightarrow> is_confirmed_rejection e \<Longrightarrow>
     conc_step limits cfg s
       (s\<lparr>cc_tasks := as @ Releasing key amount domain rv # bs, cc_rejected := cc_rejected s @ [key]\<rparr>)"
| uncertain: "cc_tasks s = as @ Paying key amount domain url rv # bs \<Longrightarrow>
     conc_step limits cfg s (s\<lparr>cc_tasks := as @ Over # bs\<rparr>)"
| released: "cc_tasks s = as @ Releasing key amount domain rv # bs \<Longrightarrow>
     conc_step limits cfg s
       (s\<lparr>cc_cl := snd (release_claim rv (cc_cl s)), cc_tasks := as @ Forgetting key # bs\<rparr>)"
| forgotten: "cc_tasks s = as @ Forgetting key # bs \<Longrightarrow>
     conc_step limits cfg s (s\<lparr>cc_cl := snd (forget_claim key (cc_cl s)), cc_tasks := as @ Over # bs\<rparr>)"
| receipted: "cc_tasks s = as @ Paid key amount domain url rv p # bs \<Longrightarrow>
     payment_receipt (Some t) url p latency = Ok rc \<Longrightarrow>
     push_receipt rc (cc_cl s) = (Ok i, cl') \<Longrightarrow>
     conc_step limits cfg s
       (s\<lparr>cc_cl := cl', cc_tasks := as @ Receipted key amount domain rv p i # bs\<rparr>)"
| lost: "cc_tasks s = as @ Paid key amount domain url rv p # bs \<Longrightarrow>
     payment_receipt None url p latency = Panic \<Longrightarrow>
     conc_step limits cfg s (s\<lparr>cc_tasks := as @ Lost url p # bs\<rparr>)"
| settled: "cc_tasks s = as @ Receipted key amount domain rv p i # bs \<Longrightarrow>
     settle_payment rv p (cc_now s) (payment_violation amount (rv_max_fee_sats rv) p) (cc_cl s) = (res, cl') \<Longrightarrow>
     pc' = (if payment_violation amount (rv_max_fee_sats rv) p \<or> res \<noteq> Ok () then Over
            else Committing key p i) \<Longrightarrow>
     conc_step limits cfg s
       (s\<lparr>cc_cl := cl', cc_tasks := as @ pc' # bs,
          cc_charged := cc_charged s @ [(cc_now s, charge p, domain)]\<rparr>)"
| committed: "cc_tasks s = as @ Committing key p i # bs \<Longrightarrow>
     conc_step limits cfg s
       (s\<lparr>cc_cl := snd (commit_payment key (p, i) (cc_cl s)), cc_tasks := as @ Over # bs\<rparr>)"

inductive conc_reachable :: "budget \<Rightarrow> client_config \<Rightarrow> conc \<Rightarrow> bool" for limits cfg where
  start: "conc_reachable limits cfg (conc_start now)"
| step: "conc_reachable limits cfg s \<Longrightarrow> conc_step limits cfg s s' \<Longrightarrow> conc_reachable limits cfg s'"

inductive_cases conc_stepE: "conc_step limits cfg s s'"

section \<open>What tasks hold\<close>

fun held :: "pc \<Rightarrow> u64 list" where
  "held (Paying key amount domain url rv) = [rv_id rv]"
| "held (Paid key amount domain url rv p) = [rv_id rv]"
| "held (Receipted key amount domain rv p i) = [rv_id rv]"
| "held (Releasing key amount domain rv) = [rv_id rv]"
| "held _ = []"

definition live :: "pending \<Rightarrow> u64 \<Rightarrow> string option \<Rightarrow> reservation \<Rightarrow> bool" where
  "live ps amount domain rv \<longleftrightarrow>
     unat amount + unat (rv_max_fee_sats rv) < 2 ^ 64
   \<and> map_of ps (rv_id rv) = Some (amount + rv_max_fee_sats rv, domain)"

fun holds_live :: "pending \<Rightarrow> pc \<Rightarrow> bool" where
  "holds_live ps (Paying key amount domain url rv) = live ps amount domain rv"
| "holds_live ps (Paid key amount domain url rv p) = live ps amount domain rv"
| "holds_live ps (Receipted key amount domain rv p i) = live ps amount domain rv"
| "holds_live ps (Releasing key amount domain rv) = live ps amount domain rv"
| "holds_live ps _ = True"

fun working_on :: "pc \<Rightarrow> string list" where
  "working_on (Paying key amount domain url rv) = [key]"
| "working_on (Paid key amount domain url rv p) = [key]"
| "working_on (Receipted key amount domain rv p i) = [key]"
| "working_on (Committing key p i) = [key]"
| "working_on (Releasing key amount domain rv) = [key]"
| "working_on (Forgetting key) = [key]"
| "working_on _ = []"

fun rejecting :: "pc \<Rightarrow> string list" where
  "rejecting (Releasing key amount domain rv) = [key]"
| "rejecting (Forgetting key) = [key]"
| "rejecting _ = []"

fun unrecorded :: "pc \<Rightarrow> (string \<times> u64 \<times> u64 \<times> string \<times> string) list" where
  "unrecorded (Paid key amount domain url rv p) = [payment_core url p]"
| "unrecorded (Lost url p) = [payment_core url p]"
| "unrecorded _ = []"

abbreviation each :: "(pc \<Rightarrow> 'a list) \<Rightarrow> pc list \<Rightarrow> 'a list" where
  "each f ts \<equiv> concat (map f ts)"

definition budget_world :: "conc \<Rightarrow> world" where
  "budget_world s = \<lparr>w_st = cl_budget (cc_cl s), w_now = cc_now s, w_paid = cc_charged s\<rparr>"

text \<open>The payments an observer saw settle outside of what was authorized.\<close>

definition overspent :: "conc \<Rightarrow> bool" where
  "overspent s \<longleftrightarrow> (\<exists>(url, amount, cap, p) \<in> set (cc_settled s). payment_violation amount cap p)"

fun awaited_ok :: "conc \<Rightarrow> pc \<Rightarrow> bool" where
  "awaited_ok s (Paid key amount domain url rv p) \<longleftrightarrow>
     (url, amount, rv_max_fee_sats rv, p) \<in> set (cc_settled s)"
| "awaited_ok s (Receipted key amount domain rv p i) \<longleftrightarrow>
     (\<exists>url. (url, amount, rv_max_fee_sats rv, p) \<in> set (cc_settled s))"
| "awaited_ok s _ \<longleftrightarrow> True"

definition conc_inv :: "budget \<Rightarrow> conc \<Rightarrow> bool" where
  "conc_inv limits s \<longleftrightarrow>
     (let ts = cc_tasks s; cl = cc_cl s; ps = bs_pending (cl_budget cl) in
      budget_reachable limits (budget_world s)
    \<and> (\<forall>t \<in> set ts. holds_live ps t \<and> awaited_ok s t)
    \<and> distinct (each held ts) \<and> distinct (each working_on ts)
    \<and> (\<forall>k \<in> set (each working_on ts). cl_payments cl k = Some None)
    \<and> (\<forall>k. count_list (cc_sent s) k + count_list (each rejecting ts) k
         = count_list (cc_rejected s) k + (if cl_payments cl k = None then 0 else 1))
    \<and> mset (map receipt_core (cl_receipts cl)) + mset (each unrecorded ts)
        = mset (map (\<lambda>(url, amount, cap, p). payment_core url p) (cc_settled s))
    \<and> (bs_frozen (cl_budget cl) \<longrightarrow> overspent s))"

lemma conc_start_inv: "conc_inv limits (conc_start now)"
  using budget_reachable.start [of limits now]
  by (simp add: conc_inv_def conc_start_def client_start_def budget_world_def tracker_new_def)

lemma live_delete:
  "live ps amount domain rv \<Longrightarrow> rv_id rv \<noteq> i \<Longrightarrow> live (AList.delete i ps) amount domain rv"
  by (simp add: live_def delete_conv')

lemma holds_live_delete:
  "holds_live ps t \<Longrightarrow> i \<notin> set (held t) \<Longrightarrow> holds_live (AList.delete i ps) t"
  by (cases t) (auto intro: live_delete)

lemma live_update:
  "live ps amount domain rv \<Longrightarrow> rv_id rv \<noteq> i \<Longrightarrow> live (AList.update i v ps) amount domain rv"
  by (simp add: live_def update_conv')

lemma held_known: "holds_live ps t \<Longrightarrow> i \<in> set (held t) \<Longrightarrow> i \<in> fst ` set ps"
  by (cases t) (auto simp: live_def dest!: map_of_SomeD intro: rev_image_eqI)

lemma holds_live_update:
  "holds_live ps t \<Longrightarrow> i \<notin> fst ` set ps \<Longrightarrow> holds_live (AList.update i v ps) t"
  using held_known [of ps t i] by (cases t) (auto intro!: live_update)

lemma awaited_ok_mono:
  "awaited_ok s t \<Longrightarrow> set (cc_settled s) \<subseteq> set (cc_settled s') \<Longrightarrow> awaited_ok s' t"
  by (cases t) auto

section \<open>The invariant is preserved\<close>

lemma conc_invD:
  assumes "conc_inv limits s"
  shows "budget_reachable limits (budget_world s)"
    and "t \<in> set (cc_tasks s) \<Longrightarrow> holds_live (bs_pending (cl_budget (cc_cl s))) t"
    and "t \<in> set (cc_tasks s) \<Longrightarrow> awaited_ok s t"
    and "distinct (each held (cc_tasks s))" and "distinct (each working_on (cc_tasks s))"
    and "k \<in> set (each working_on (cc_tasks s)) \<Longrightarrow> cl_payments (cc_cl s) k = Some None"
    and "count_list (cc_sent s) k + count_list (each rejecting (cc_tasks s)) k
         = count_list (cc_rejected s) k + (if cl_payments (cc_cl s) k = None then 0 else 1)"
    and "mset (map receipt_core (cl_receipts (cc_cl s))) + mset (each unrecorded (cc_tasks s))
        = mset (map (\<lambda>(url, amount, cap, p). payment_core url p) (cc_settled s))"
    and "bs_frozen (cl_budget (cc_cl s)) \<Longrightarrow> overspent s"
  using assms unfolding conc_inv_def Let_def by blast+

lemma conc_invI:
  assumes "budget_reachable limits (budget_world s)"
    and "\<And>t. t \<in> set (cc_tasks s) \<Longrightarrow> holds_live (bs_pending (cl_budget (cc_cl s))) t"
    and "\<And>t. t \<in> set (cc_tasks s) \<Longrightarrow> awaited_ok s t"
    and "distinct (each held (cc_tasks s))" and "distinct (each working_on (cc_tasks s))"
    and "\<And>k. k \<in> set (each working_on (cc_tasks s)) \<Longrightarrow> cl_payments (cc_cl s) k = Some None"
    and "\<And>k. count_list (cc_sent s) k + count_list (each rejecting (cc_tasks s)) k
         = count_list (cc_rejected s) k + (if cl_payments (cc_cl s) k = None then 0 else 1)"
    and "mset (map receipt_core (cl_receipts (cc_cl s))) + mset (each unrecorded (cc_tasks s))
        = mset (map (\<lambda>(url, amount, cap, p). payment_core url p) (cc_settled s))"
    and "bs_frozen (cl_budget (cc_cl s)) \<Longrightarrow> overspent s"
  shows "conc_inv limits s"
  unfolding conc_inv_def Let_def using assms by simp

lemma claim_new:
  assumes "claim limits cfg supports key amount domain now cl = (Ok (Inr rv), cl')"
  shows "cl_payments cl key = None
    \<and> (\<exists>b. reserve_at limits amount (cfg_max_fee_sats cfg) domain now (cl_budget cl) = (Ok rv, b)
         \<and> cl' = cl\<lparr>cl_budget := b, cl_payments := (cl_payments cl)(key \<mapsto> None)\<rparr>)"
  using assms by (auto simp: claim_def split: option.splits if_splits prod.splits rres.splits)

lemma claim_refused:
  assumes "claim limits cfg supports key amount domain now cl = (res, cl')"
    and "\<forall>rv. res \<noteq> Ok (Inr rv)"
  shows "cl' = cl \<or> (\<exists>r b. reserve_at limits amount (cfg_max_fee_sats cfg) domain now (cl_budget cl) = (r, b)
     \<and> (\<forall>rv. r \<noteq> Ok rv) \<and> cl' = cl\<lparr>cl_budget := b\<rparr>)"
  using assms by (auto simp: claim_def split: option.splits if_splits prod.splits rres.splits)

lemma inv_claimed:
  assumes i: "conc_inv limits s"
    and c: "claim limits cfg supports key amount domain (cc_now s) (cc_cl s) = (Ok (Inr rv), cl')"
  shows "conc_inv limits (s\<lparr>cc_cl := cl', cc_tasks := cc_tasks s @ [Paying key amount domain url rv],
    cc_sent := cc_sent s @ [key]\<rparr>)" (is "conc_inv limits ?s'")
proof -
  obtain b where none: "cl_payments (cc_cl s) key = None"
    and r: "reserve_at limits amount (cfg_max_fee_sats cfg) domain (cc_now s) (cl_budget (cc_cl s)) = (Ok rv, b)"
    and cl': "cl' = (cc_cl s)\<lparr>cl_budget := b, cl_payments := (cl_payments (cc_cl s))(key \<mapsto> None)\<rparr>"
    using claim_new [OF c] by blast
  note bi = budget_reachable_inv [OF conc_invD(1) [OF i]]
  have nf: "\<not> bs_frozen (w_st (budget_world s))" using r by (auto simp: budget_world_def reserve_at_def)
  let ?ps = "bs_pending (cl_budget (cc_cl s))" and ?id = "bs_next_id (cl_budget (cc_cl s))"
  have b: "rv_id rv = ?id" "unat amount + unat (rv_max_fee_sats rv) < 2 ^ 64"
    "b = (cl_budget (cc_cl s))\<lparr>bs_next_id := ?id + 1,
        bs_pending := AList.update ?id (amount + rv_max_fee_sats rv, domain) ?ps\<rparr>"
    "\<not> bs_frozen (cl_budget (cc_cl s))"
    using reserve_at_cases(3) [OF inv_sane [OF bi nf, of domain], of amount "cfg_max_fee_sats cfg" rv]
      r nf by (auto simp: budget_world_def)
  have fresh: "?id \<notin> fst ` set ?ps"
    using budget_invD(2) [OF bi] by (auto simp: budget_world_def)
  have step: "budget_step limits (budget_world s) (budget_world ?s')"
    using budget_step.reserve [of limits amount "cfg_max_fee_sats cfg" domain "budget_world s" "Ok rv" b] r
    by (simp add: budget_world_def cl')
  have nk: "key \<notin> set (each working_on (cc_tasks s))" using conc_invD(6) [OF i] none by force
  have nh: "?id \<notin> set (each held (cc_tasks s))"
    using conc_invD(2) [OF i] held_known fresh by auto
  show ?thesis
  proof (rule conc_invI, goal_cases)
    case 1
    show ?case using conc_invD(1) [OF i] step by (rule budget_reachable.step)
  next
    case (2 t)
    then show ?case
      using conc_invD(2) [OF i, of t] holds_live_update [OF _ fresh] b
      by (auto simp: cl' live_def update_conv')
  next
    case (3 t)
    then show ?case using awaited_ok_mono [OF conc_invD(3) [OF i, of t], of ?s'] by auto
  next
    case 4
    show ?case using conc_invD(4) [OF i] nh b(1) by simp
  next
    case 5
    show ?case using conc_invD(5) [OF i] nk by simp
  next
    case (6 k)
    then show ?case using conc_invD(6) [OF i, of k] by (auto simp: cl')
  next
    case (7 k)
    show ?case using conc_invD(7) [OF i, of k] none by (auto simp: cl')
  next
    case 8
    show ?case using conc_invD(8) [OF i] by (simp add: cl')
  next
    case 9
    then show ?case using b by (simp add: cl')
  qed
qed

lemma inv_refused:
  assumes i: "conc_inv limits s"
    and c: "claim limits cfg supports key amount domain (cc_now s) (cc_cl s) = (res, cl')"
    and n: "\<forall>rv. res \<noteq> Ok (Inr rv)"
  shows "conc_inv limits (s\<lparr>cc_cl := cl', cc_tasks := cc_tasks s @ [Over]\<rparr>)"
proof -
  note bi = budget_reachable_inv [OF conc_invD(1) [OF i]]
  have same: "cl' = cc_cl s"
    using claim_refused [OF c n]
  proof (elim disjE exE conjE)
    fix r b assume r: "reserve_at limits amount (cfg_max_fee_sats cfg) domain (cc_now s) (cl_budget (cc_cl s)) = (r, b)"
      and no: "\<forall>rv. r \<noteq> Ok rv" and cl': "cl' = (cc_cl s)\<lparr>cl_budget := b\<rparr>"
    have "b = cl_budget (cc_cl s)"
    proof (cases "bs_frozen (cl_budget (cc_cl s))")
      case True
      then show ?thesis using r by (simp add: reserve_at_def)
    next
      case False
      then have sane: "tracker_sane limits (cl_budget (cc_cl s)) domain (cc_now s)"
        using inv_sane [OF bi, of domain] by (simp add: budget_world_def)
      show ?thesis using reserve_at_cases(1,2) [OF sane, of amount "cfg_max_fee_sats cfg"] r no
        by (cases r) auto
    qed
    then show ?thesis by (simp add: cl')
  qed
  have "awaited_ok (s\<lparr>cc_tasks := ts\<rparr>) t = awaited_ok s t" for t ts by (cases t) simp_all
  then show ?thesis using i by (simp add: same conc_inv_def budget_world_def overspent_def Let_def)
qed

text \<open>The invariant with one task in front of the others.\<close>

lemma conc_invD_task:
  assumes "conc_inv limits s" and "cc_tasks s = as @ t # bs"
  shows "holds_live (bs_pending (cl_budget (cc_cl s))) t" and "awaited_ok s t"
    and "x \<in> set as \<union> set bs \<Longrightarrow> holds_live (bs_pending (cl_budget (cc_cl s))) x \<and> awaited_ok s x"
    and "distinct (held t @ each held as @ each held bs)"
    and "distinct (working_on t @ each working_on as @ each working_on bs)"
    and "k \<in> set (working_on t) \<union> set (each working_on as) \<union> set (each working_on bs) \<Longrightarrow>
      cl_payments (cc_cl s) k = Some None"
    and "count_list (cc_sent s) k + (count_list (rejecting t) k + count_list (each rejecting as) k
        + count_list (each rejecting bs) k)
      = count_list (cc_rejected s) k + (if cl_payments (cc_cl s) k = None then 0 else 1)"
    and "mset (map receipt_core (cl_receipts (cc_cl s))) + (mset (unrecorded t) + mset (each unrecorded as)
        + mset (each unrecorded bs))
      = mset (map (\<lambda>(url, amount, cap, p). payment_core url p) (cc_settled s))"
  using conc_invD [OF assms(1)] assms(2) by (auto simp: ac_simps)

lemma conc_invI_task:
  assumes "budget_reachable limits (budget_world s)"
    and "cc_tasks s = as @ t # bs"
    and "holds_live (bs_pending (cl_budget (cc_cl s))) t" and "awaited_ok s t"
    and "\<And>x. x \<in> set as \<union> set bs \<Longrightarrow> holds_live (bs_pending (cl_budget (cc_cl s))) x \<and> awaited_ok s x"
    and "distinct (held t @ each held as @ each held bs)"
    and "distinct (working_on t @ each working_on as @ each working_on bs)"
    and "\<And>k. k \<in> set (working_on t) \<union> set (each working_on as) \<union> set (each working_on bs) \<Longrightarrow>
      cl_payments (cc_cl s) k = Some None"
    and "\<And>k. count_list (cc_sent s) k + (count_list (rejecting t) k + count_list (each rejecting as) k
        + count_list (each rejecting bs) k)
      = count_list (cc_rejected s) k + (if cl_payments (cc_cl s) k = None then 0 else 1)"
    and "mset (map receipt_core (cl_receipts (cc_cl s))) + (mset (unrecorded t) + mset (each unrecorded as)
        + mset (each unrecorded bs))
      = mset (map (\<lambda>(url, amount, cap, p). payment_core url p) (cc_settled s))"
    and "bs_frozen (cl_budget (cc_cl s)) \<Longrightarrow> overspent s"
  shows "conc_inv limits s"
proof (rule conc_invI, goal_cases)
  case 1
  show ?case by fact
next
  case (2 x)
  then show ?case using assms(2,3,5) by auto
next
  case (3 x)
  then show ?case using assms(2,4,5) by auto
next
  case 4
  show ?case using assms(2,6) by auto
next
  case 5
  show ?case using assms(2,7) by auto
next
  case (6 k)
  then show ?case using assms(2,8) by auto
next
  case (7 k)
  show ?case using assms(2) assms(9) [of k] by (simp add: ac_simps)
next
  case 8
  show ?case using assms(2,10) by (simp add: ac_simps)
next
  case 9
  then show ?case by fact
qed

text \<open>A step of one task that leaves the client's state alone.\<close>

lemma inv_move:
  assumes i: "conc_inv limits s" and ts: "cc_tasks s = as @ t # bs"
    and "cc_cl s' = cc_cl s" "cc_now s' = cc_now s" "cc_charged s' = cc_charged s" "cc_sent s' = cc_sent s"
    and ts': "cc_tasks s' = as @ t' # bs"
    and mono: "set (cc_settled s) \<subseteq> set (cc_settled s')" and aw: "awaited_ok s' t'"
    and hl: "holds_live (bs_pending (cl_budget (cc_cl s))) t \<Longrightarrow> holds_live (bs_pending (cl_budget (cc_cl s))) t'"
    and hw: "held t' = held t \<or> held t' = []" "working_on t' = working_on t \<or> working_on t' = []"
    and rj: "\<And>k. count_list (rejecting t') k + count_list (cc_rejected s) k
        = count_list (rejecting t) k + count_list (cc_rejected s') k"
    and un: "mset (unrecorded t') + mset (map (\<lambda>(url, amount, cap, p). payment_core url p) (cc_settled s))
        = mset (unrecorded t) + mset (map (\<lambda>(url, amount, cap, p). payment_core url p) (cc_settled s'))"
  shows "conc_inv limits s'"
proof (rule conc_invI_task [OF _ ts'], goal_cases)
  case 1
  show ?case using conc_invD(1) [OF i] assms(3-5) by (simp add: budget_world_def)
next
  case 2
  show ?case using hl conc_invD_task(1) [OF i ts] assms(3) by simp
next
  case 3
  show ?case by fact
next
  case (4 x)
  then show ?case using conc_invD_task(3) [OF i ts 4] awaited_ok_mono [OF _ mono, of x] assms(3) by simp
next
  case 5
  show ?case using conc_invD_task(4) [OF i ts] hw(1) by auto
next
  case 6
  show ?case using conc_invD_task(5) [OF i ts] hw(2) by auto
next
  case (7 k)
  then show ?case using conc_invD_task(6) [OF i ts, of k] hw(2) assms(3) by auto
next
  case (8 k)
  show ?case using conc_invD_task(7) [OF i ts, of k] rj [of k] assms(3,6) by simp
next
  case 9
  have "mset (map receipt_core (cl_receipts (cc_cl s))) + (mset (unrecorded t) + mset (each unrecorded as)
      + mset (each unrecorded bs)) + mset (unrecorded t')
    = mset (unrecorded t) + mset (map (\<lambda>(url, amount, cap, p). payment_core url p) (cc_settled s'))"
    using conc_invD_task(8) [OF i ts] un by (simp add: ac_simps)
  then show ?case using assms(3) by (simp add: ac_simps)
next
  case 10
  then show ?case using conc_invD(9) [OF i] assms(3) mono by (auto simp: overspent_def)
qed

lemma inv_released:
  assumes i: "conc_inv limits s" and ts: "cc_tasks s = as @ Releasing key amount domain rv # bs"
  shows "conc_inv limits
    (s\<lparr>cc_cl := snd (release_claim rv (cc_cl s)), cc_tasks := as @ Forgetting key # bs\<rparr>)"
    (is "conc_inv limits ?s'")
proof (rule conc_invI_task [where as = as and bs = bs and t = "Forgetting key"], goal_cases)
  case 1
  have "live (bs_pending (cl_budget (cc_cl s))) amount domain rv"
    using conc_invD_task(1) [OF i ts] by simp
  then have "budget_step limits (budget_world s) (budget_world ?s')"
    using budget_step.released [of "budget_world s" rv limits]
    by (simp add: budget_world_def release_claim_def live_def)
  then show ?case using conc_invD(1) [OF i] by (rule budget_reachable.step [rotated])
next
  case (5 x)
  then have "rv_id rv \<notin> set (held x)" using conc_invD_task(4) [OF i ts] by auto
  then show ?case using conc_invD_task(3) [OF i ts 5] holds_live_delete awaited_ok_mono [of s x ?s']
    by (simp add: release_claim_def release_def)
next
  case 6
  show ?case using conc_invD_task(4) [OF i ts] by simp
next
  case 7
  show ?case using conc_invD_task(5) [OF i ts] by simp
next
  case (8 k)
  then show ?case using conc_invD_task(6) [OF i ts, of k] by (simp add: release_claim_def)
next
  case (9 k)
  then show ?case using conc_invD_task(7) [OF i ts, of k] by (simp add: release_claim_def)
next
  case 10
  then show ?case using conc_invD_task(8) [OF i ts] by (simp add: release_claim_def)
next
  case 11
  then show ?case using conc_invD(9) [OF i] by (simp add: release_claim_def release_def overspent_def)
qed simp_all

lemma inv_forgotten:
  assumes i: "conc_inv limits s" and ts: "cc_tasks s = as @ Forgetting key # bs"
  shows "conc_inv limits (s\<lparr>cc_cl := snd (forget_claim key (cc_cl s)), cc_tasks := as @ Over # bs\<rparr>)"
    (is "conc_inv limits ?s'")
proof (rule conc_invI_task [where as = as and bs = bs and t = Over], goal_cases)
  case 1
  show ?case using conc_invD(1) [OF i] by (simp add: budget_world_def forget_claim_def)
next
  case (5 x)
  then show ?case using conc_invD_task(3) [OF i ts 5] awaited_ok_mono [of s x ?s']
    by (simp add: forget_claim_def)
next
  case 6
  show ?case using conc_invD_task(4) [OF i ts] by simp
next
  case 7
  show ?case using conc_invD_task(5) [OF i ts] by simp
next
  case (8 k)
  then have "k \<noteq> key" using conc_invD_task(5) [OF i ts] by auto
  then show ?case using conc_invD_task(6) [OF i ts, of k] 8 by (auto simp: forget_claim_def)
next
  case (9 k)
  then show ?case using conc_invD_task(7) [OF i ts, of k] conc_invD_task(6) [OF i ts, of key]
    by (auto simp: forget_claim_def)
next
  case 10
  then show ?case using conc_invD_task(8) [OF i ts] by (simp add: forget_claim_def)
next
  case 11
  then show ?case using conc_invD(9) [OF i] by (simp add: forget_claim_def overspent_def)
qed simp_all

lemma receipt_core_of:
  "payment_receipt clock url p latency = Ok rc \<Longrightarrow> receipt_core rc = payment_core url p"
  by (auto simp: payment_receipt_def receipt_new_def receipt_core_def payment_core_def
      split: option.splits)

lemma inv_receipted:
  assumes i: "conc_inv limits s" and ts: "cc_tasks s = as @ Paid key amount domain url rv p # bs"
    and rc: "payment_receipt (Some tm) url p latency = Ok rc"
    and push: "push_receipt rc (cc_cl s) = (Ok n, cl')"
  shows "conc_inv limits (s\<lparr>cc_cl := cl', cc_tasks := as @ Receipted key amount domain rv p n # bs\<rparr>)"
    (is "conc_inv limits ?s'")
proof -
  have cl': "cl' = (cc_cl s)\<lparr>cl_receipts := cl_receipts (cc_cl s) @ [rc]\<rparr>"
    using push by (simp add: push_receipt_def)
  show ?thesis
  proof (rule conc_invI_task [where as = as and bs = bs and t = "Receipted key amount domain rv p n"], goal_cases)
    case 1
    show ?case using conc_invD(1) [OF i] by (simp add: budget_world_def cl')
  next
    case 3
    show ?case using conc_invD_task(1) [OF i ts] by (simp add: cl')
  next
    case 4
    show ?case using conc_invD_task(2) [OF i ts] by auto
  next
    case (5 x)
    then show ?case using conc_invD_task(3) [OF i ts 5] awaited_ok_mono [of s x ?s'] by (simp add: cl')
  next
    case 6
    show ?case using conc_invD_task(4) [OF i ts] by simp
  next
    case 7
    show ?case using conc_invD_task(5) [OF i ts] by simp
  next
    case (8 k)
    then show ?case using conc_invD_task(6) [OF i ts, of k] by (simp add: cl')
  next
    case (9 k)
    then show ?case using conc_invD_task(7) [OF i ts, of k] by (simp add: cl')
  next
    case 10
    then show ?case using conc_invD_task(8) [OF i ts] receipt_core_of [OF rc] by (simp add: cl')
  next
    case 11
    then show ?case using conc_invD(9) [OF i] by (simp add: cl' overspent_def)
  qed simp_all
qed

lemma within_reservation:
  assumes "\<not> payment_violation amount cap p" and "unat amount + unat cap < 2 ^ 64"
  shows "charge p \<le> amount + cap"
proof -
  obtain v where v: "payment_total p = Some v" and le: "pr_amount_sats p = amount" "pr_fee_sats p \<le> cap"
    using assms(1) by (auto simp: payment_violation_def)
  have "unat v = unat (pr_amount_sats p) + unat (pr_fee_sats p)"
    using v by (simp add: payment_total_def checked_add_Some_iff)
  then show ?thesis using le unat_add_u64_no_overflow [OF assms(2)]
    by (simp add: charge_def v word_le_nat_alt)
qed

lemma inv_settled:
  assumes i: "conc_inv limits s" and ts: "cc_tasks s = as @ Receipted key amount domain rv p n # bs"
    and st: "settle_payment rv p (cc_now s) (payment_violation amount (rv_max_fee_sats rv) p) (cc_cl s) = (res, cl')"
    and pc': "pc' = (if payment_violation amount (rv_max_fee_sats rv) p \<or> res \<noteq> Ok () then Over
            else Committing key p n)"
  shows "conc_inv limits (s\<lparr>cc_cl := cl', cc_tasks := as @ pc' # bs,
          cc_charged := cc_charged s @ [(cc_now s, charge p, domain)]\<rparr>)" (is "conc_inv limits ?s'")
proof -
  let ?v = "payment_violation amount (rv_max_fee_sats rv) p" and ?b = "cl_budget (cc_cl s)"
  obtain b' where b': "settle_at rv (charge p) (cc_now s) ?v ?b = (res, b')"
    and cl': "cl' = (cc_cl s)\<lparr>cl_budget := b'\<rparr>"
    using st by (auto simp: settle_payment_def charge_def split: prod.splits)
  have lv: "live (bs_pending ?b) amount domain rv" using conc_invD_task(1) [OF i ts] by simp
  then have m: "map_of (bs_pending ?b) (rv_id rv) = Some (amount + rv_max_fee_sats rv, domain)"
    and fit: "unat amount + unat (rv_max_fee_sats rv) < 2 ^ 64" by (simp_all add: live_def)
  have pend: "bs_pending b' = AList.delete (rv_id rv) (bs_pending ?b)"
    using b' by (auto simp: settle_at_eq [OF m] split: if_splits)
  have fr: "bs_frozen b' \<Longrightarrow> bs_frozen ?b \<or> ?v"
    using b' within_reservation [OF _ fit, of p]
    by (auto simp: settle_at_eq [OF m] split: if_splits)
  have pc: "held pc' = []" "rejecting pc' = []" "unrecorded pc' = []"
    "set (working_on pc') \<subseteq> {key}" "distinct (working_on pc')" "holds_live x pc'" "awaited_ok y pc'" for x y
    by (simp_all add: pc')
  show ?thesis
  proof (rule conc_invI_task [where as = as and bs = bs and t = pc'], goal_cases)
    case 1
    have "budget_step limits (budget_world s) (budget_world ?s')"
      using budget_step.settled [of "budget_world s" rv "amount + rv_max_fee_sats rv" domain "charge p" ?v res b' limits]
        m b' by (simp add: budget_world_def cl')
    then show ?case using conc_invD(1) [OF i] by (rule budget_reachable.step [rotated])
  next
    case (5 x)
    then have "rv_id rv \<notin> set (held x)" using conc_invD_task(4) [OF i ts] by auto
    then show ?case using conc_invD_task(3) [OF i ts 5] holds_live_delete awaited_ok_mono [of s x ?s']
      by (simp add: cl' pend)
  next
    case 6
    show ?case using conc_invD_task(4) [OF i ts] pc by simp
  next
    case 7
    show ?case using conc_invD_task(5) [OF i ts] pc(4,5) by auto
  next
    case (8 k)
    then show ?case using conc_invD_task(6) [OF i ts, of k] pc(4) by (auto simp: cl')
  next
    case (9 k)
    then show ?case using conc_invD_task(7) [OF i ts, of k] pc by (simp add: cl')
  next
    case 10
    then show ?case using conc_invD_task(8) [OF i ts] pc by (simp add: cl')
  next
    case 11
    then show ?case using conc_invD(9) [OF i] fr conc_invD_task(2) [OF i ts]
      by (auto simp: cl' overspent_def)
  qed (simp_all add: pc)
qed

lemma inv_committed:
  assumes i: "conc_inv limits s" and ts: "cc_tasks s = as @ Committing key p n # bs"
  shows "conc_inv limits (s\<lparr>cc_cl := snd (commit_payment key (p, n) (cc_cl s)), cc_tasks := as @ Over # bs\<rparr>)"
    (is "conc_inv limits ?s'")
proof (rule conc_invI_task [where as = as and bs = bs and t = Over], goal_cases)
  case 1
  show ?case using conc_invD(1) [OF i] by (simp add: budget_world_def commit_payment_def)
next
  case (5 x)
  then show ?case using conc_invD_task(3) [OF i ts 5] awaited_ok_mono [of s x ?s']
    by (simp add: commit_payment_def)
next
  case 6
  show ?case using conc_invD_task(4) [OF i ts] by simp
next
  case 7
  show ?case using conc_invD_task(5) [OF i ts] by simp
next
  case (8 k)
  then have "k \<noteq> key" using conc_invD_task(5) [OF i ts] by auto
  then show ?case using conc_invD_task(6) [OF i ts, of k] 8 by (auto simp: commit_payment_def)
next
  case (9 k)
  then show ?case using conc_invD_task(7) [OF i ts, of k] conc_invD_task(6) [OF i ts, of key]
    by (auto simp: commit_payment_def)
next
  case 10
  then show ?case using conc_invD_task(8) [OF i ts] by (simp add: commit_payment_def)
next
  case 11
  then show ?case using conc_invD(9) [OF i] by (simp add: commit_payment_def overspent_def)
qed simp_all

lemma inv_conc_tick:
  assumes i: "conc_inv limits s" and le: "cc_now s \<le> now'"
  shows "conc_inv limits (s\<lparr>cc_now := now'\<rparr>)"
proof -
  have "budget_reachable limits (budget_world (s\<lparr>cc_now := now'\<rparr>))"
    using budget_reachable.step [OF conc_invD(1) [OF i] budget_step.tick, of now'] le
    by (simp add: budget_world_def)
  moreover have "awaited_ok (s\<lparr>cc_now := now'\<rparr>) t = awaited_ok s t" for t by (cases t) simp_all
  ultimately show ?thesis using i by (simp add: conc_inv_def overspent_def Let_def)
qed

lemmas inv_blocks = inv_conc_tick inv_claimed inv_refused inv_released inv_forgotten inv_receipted
  inv_settled inv_committed

lemma conc_step_inv: "conc_step limits cfg s s' \<Longrightarrow> conc_inv limits s \<Longrightarrow> conc_inv limits s'"
  by (induction rule: conc_step.induct)
    ((erule inv_blocks, assumption+) | ((auto elim!: inv_move)[1]))+

lemma conc_reachable_inv: "conc_reachable limits cfg s \<Longrightarrow> conc_inv limits s"
  by (induction rule: conc_reachable.induct) (auto intro: conc_start_inv conc_step_inv)

section \<open>Properties\<close>

text \<open>C5. Under concurrent requests on one client, in any interleaving and with futures dropped at any
  time, an invoice is submitted to the backend at most once more often than the backend has
  confirmed its rejection: no invoice is paid twice. No two tasks ever work on the same invoice.\<close>

theorem no_double_payment:
  assumes "conc_reachable limits cfg s"
  shows "count_list (cc_sent s) key \<le> count_list (cc_rejected s) key + 1
    \<and> distinct (each working_on (cc_tasks s))"
  using conc_invD(7) [OF conc_reachable_inv [OF assms], of key]
    conc_invD(5) [OF conc_reachable_inv [OF assms]]
  by (auto split: if_splits)

text \<open>A reachable state with one payment in flight.\<close>

definition sample_conc :: conc where
  "sample_conc = \<lparr>cc_cl = client_start\<lparr>cl_budget := tracker_new\<lparr>bs_next_id := 1,
       bs_pending := [(0, 1100, Some ''h'')]\<rparr>, cl_payments := [''lnbc10u1x'' \<mapsto> None]\<rparr>,
     cc_now = 7200,
     cc_tasks = [Paying ''lnbc10u1x'' 1000 (Some ''h'') ''u'' \<lparr>rv_id = 0, rv_max_fee_sats = 100\<rparr>],
     cc_sent = [''lnbc10u1x''], cc_rejected = [], cc_settled = [], cc_charged = []\<rparr>"

lemma sample_claim:
  "claim unlimited sample_config True ''lnbc10u1x'' 1000 (Some ''h'') 7200 client_start =
     (Ok (Inr \<lparr>rv_id = 0, rv_max_fee_sats = 100\<rparr>), client_start\<lparr>cl_budget := tracker_new\<lparr>bs_next_id := 1,
       bs_pending := [(0, 1100, Some ''h'')]\<rparr>, cl_payments := [''lnbc10u1x'' \<mapsto> None]\<rparr>)"
  by (simp add: claim_def client_start_def config_default_def sample_reserved)

lemma sample_conc_reachable: "conc_reachable unlimited sample_config sample_conc"
proof -
  have "conc_step unlimited sample_config (conc_start 7200) sample_conc"
    using conc_step.claimed [of unlimited sample_config True "''lnbc10u1x''" 1000 "Some ''h''" "conc_start 7200"
        "\<lparr>rv_id = 0, rv_max_fee_sats = 100\<rparr>" _ "''u''"] sample_claim
    by (simp add: conc_start_def sample_conc_def)
  then show ?thesis by (rule conc_reachable.step [OF conc_reachable.start])
qed

theorem no_double_payment_witness:
  "count_list (cc_sent sample_conc) ''lnbc10u1x'' \<le> 1"
  using no_double_payment [OF sample_conc_reachable, of "''lnbc10u1x''"] by (simp add: sample_conc_def)

text \<open>C6. The receipts are exactly the payments the backend settled: whatever the interleaving, every
  settled payment has its receipt, except those whose task has not yet come to write it (or met a
  clock before the epoch, on which the code panics).\<close>

theorem receipts_are_settled_payments:
  assumes "conc_reachable limits cfg s"
  shows "mset (map receipt_core (cl_receipts (cc_cl s))) + mset (each unrecorded (cc_tasks s))
    = mset (map (\<lambda>(url, amount, cap, p). payment_core url p) (cc_settled s))"
  by (rule conc_invD(8) [OF conc_reachable_inv [OF assms]])

theorem receipts_are_settled_payments_witness:
  "mset (map receipt_core (cl_receipts (cc_cl sample_conc))) = {#}"
  using receipts_are_settled_payments [OF sample_conc_reachable] by (simp add: sample_conc_def)

text \<open>The concurrent client runs the budget as its specification demands: its tracker only takes
  steps of the tracker, so that the limits hold of everything that was charged and reserved, and
  they hold for as long as no payment settled outside of its authorized amount and fee cap.\<close>

lemma concurrent_budget_safe:
  assumes "conc_reachable limits cfg s" and "\<not> overspent s"
  shows "budget_reachable limits (budget_world s) \<and> \<not> bs_frozen (cl_budget (cc_cl s))
    \<and> within (paid (hist any_domain (cc_charged s)) + psum any_domain (bs_pending (cl_budget (cc_cl s))))
        (total_max limits)
    \<and> (\<forall>(t, a, d) \<in> set (cc_charged s). request_ok limits d (unat a))"
proof -
  note i = conc_reachable_inv [OF assms(1)]
  have nf: "\<not> bs_frozen (w_st (budget_world s))"
    using conc_invD(9) [OF i] assms(2) by (auto simp: budget_world_def)
  note b = budget_reachable_inv [OF conc_invD(1) [OF i]]
  have "\<forall>(t, a, d) \<in> set (cc_charged s). request_ok limits d (unat a)"
    using budget_invD(4) [OF b nf] by (auto simp: budget_world_def)
  then show ?thesis using inv_ledgers(1) [OF b nf] conc_invD(1) [OF i] nf
    by (simp add: budget_world_def ledger_ok_def)
qed

end
