(* ===== verification/Client_Life.thy ===== *)
theory Client_Life
  imports Client_Concurrent
begin

text \<open>
  The books of a client over its whole life: any number of requests, to any URLs, with any answers of
  servers, stores and backend, one after another. The receipts a client shows are the entries of its
  budget tracker, in order; so the limits of the budget hold of the receipts themselves.
\<close>

section \<open>Receipts as entries of the tracker\<close>

definition expense :: "'w env \<Rightarrow> receipt \<Rightarrow> u64 \<times> u64 \<times> string option" where
  "expense E rc = (rc_timestamp rc, total_cost_sats rc, request_domain E (rc_endpoint rc))"

definition expenses :: "'w env \<Rightarrow> 'w sys \<Rightarrow> (u64 \<times> u64 \<times> string option) list" where
  "expenses E s = map (expense E) (cl_receipts (sy_cl s))"

text \<open>The tracker of the client is in a state it reaches by paying exactly for the receipts.\<close>

definition balanced :: "'w env \<Rightarrow> budget \<Rightarrow> 'w sys \<Rightarrow> bool" where
  "balanced E limits s \<longleftrightarrow> budget_reachable limits
     \<lparr>w_st = cl_budget (sy_cl s), w_now = now_secs E (sy_ext s), w_paid = expenses E s\<rparr>"

text \<open>Whatever the client calls, the clock does not run backwards.\<close>

definition clock_forward :: "'w env \<Rightarrow> bool" where
  "clock_forward E \<longleftrightarrow> (\<forall>w.
     (\<forall>rq. now_secs E w \<le> now_secs E (snd (e_send E w rq)))
   \<and> (\<forall>invoice fee. now_secs E w \<le> now_secs E (snd (e_pay_invoice E w invoice fee)))
   \<and> (\<forall>e m p. now_secs E w \<le> now_secs E (snd (e_put E w e m p)))
   \<and> (\<forall>e. now_secs E w \<le> now_secs E (snd (e_get E w e)))
   \<and> (\<forall>e. now_secs E w \<le> now_secs E (snd (e_remove E w e))))"

section \<open>What leaves the books alone\<close>

definition steady :: "'w env \<Rightarrow> ('a, 'w) act \<Rightarrow> bool" where
  "steady E m \<longleftrightarrow> (\<forall>s r s'. m s = (r, s') \<longrightarrow> now_secs E (sy_ext s) \<le> now_secs E (sy_ext s')
     \<and> cl_budget (sy_cl s') = cl_budget (sy_cl s) \<and> expenses E s' = expenses E s)"

named_theorems steady_intros \<open>the acts that leave tracker and receipts alone\<close>

lemma steady_pure [steady_intros]: "steady E (ret a)" "steady E (fail e)" "steady E (lift_res x)"
  by (auto simp: steady_def)

lemma steady_bind [steady_intros]: "steady E m \<Longrightarrow> (\<And>a. steady E (f a)) \<Longrightarrow> steady E (bind_act m f)"
  unfolding steady_def by (fastforce elim!: bind_actE)

lemma log_call_fields [simp]: "sy_ext (log_call c s) = sy_ext s" "sy_cl (log_call c s) = sy_cl s"
  by (simp_all add: log_call_def)

lemma clock_forwardD:
  assumes "clock_forward E"
  shows "e_send E w rq = (r1, w') \<Longrightarrow> now_secs E w \<le> now_secs E w'"
    and "e_pay_invoice E w invoice fee = (r2, w') \<Longrightarrow> now_secs E w \<le> now_secs E w'"
    and "e_put E w e m p = (r3, w') \<Longrightarrow> now_secs E w \<le> now_secs E w'"
    and "e_get E w e = (r4, w') \<Longrightarrow> now_secs E w \<le> now_secs E w'"
    and "e_remove E w e = (r3, w') \<Longrightarrow> now_secs E w \<le> now_secs E w'"
  using assms unfolding clock_forward_def by (metis snd_conv)+

lemma steady_http [steady_intros]:
  assumes "clock_forward E"
  shows "steady E (send_request E meth url body)" "steady E (send_with_auth E meth url body token)"
  using clock_forwardD(1) [OF assms]
  by (auto simp: steady_def send_request_def send_with_auth_def send_checked_def expenses_def Let_def
      split: prod.splits sum.splits if_splits)

lemma steady_store [steady_intros]:
  assumes "clock_forward E"
  shows "steady E (store_get E url)" "steady E (store_put E url token)" "steady E (store_remove E url)"
  using clock_forwardD(3-5) [OF assms]
  by (auto simp: steady_def store_get_def store_put_def store_remove_def expenses_def split: prod.splits)

lemma steady_tokens [steady_intros]:
  "steady E (on_cl (keep_unpersisted url token))" "steady E (on_cl (drop_unpersisted url))"
  "steady E (on_cl (drop_if_saved url token))"
  by (auto simp: steady_def on_cl_eq keep_unpersisted_def drop_unpersisted_def drop_if_saved_def expenses_def
      split: option.splits)

lemma steady_update [steady_intros]: "steady E (\<lambda>s. on_cl (update_receipt i st (f s)) s)"
proof -
  have "expense E (rc\<lparr>rc_response_status := st, rc_latency_ms := l\<rparr>) = expense E rc" for rc :: receipt and l
    by (simp add: expense_def total_cost_sats_def)
  then show ?thesis
    by (auto simp: steady_def on_cl_eq update_receipt_def expenses_def Let_def map_update list_update_same_conv)
qed

lemma steady_find [steady_intros]: "clock_forward E \<Longrightarrow> steady E (find_token E url)"
  unfolding steady_def find_token_def
  by (auto simp: store_get_def expenses_def split: option.splits prod.splits elim!: bind_actE)
    (erule (1) clock_forwardD(4))+

lemma steady_try [steady_intros]: "clock_forward E \<Longrightarrow> steady E (try_cached E meth url body token)"
  by (cases token) (auto simp: try_cached_def intro!: steady_intros)

lemma steady_retry [steady_intros]: "clock_forward E \<Longrightarrow> steady E (retry_paid E meth url body start m x)"
  by (cases x) (auto simp: retry_paid_def persist_token_def Let_def intro!: steady_intros)

section \<open>A payment is an entry\<close>

lemma reachable_tick:
  "budget_reachable limits \<lparr>w_st = st, w_now = now, w_paid = ps\<rparr> \<Longrightarrow> now \<le> now' \<Longrightarrow>
   budget_reachable limits \<lparr>w_st = st, w_now = now', w_paid = ps\<rparr>"
  using budget_reachable.step [OF _ budget_step.tick, of limits "\<lparr>w_st = st, w_now = now, w_paid = ps\<rparr>" now'] by simp

lemma reachable_reserve:
  assumes "budget_reachable limits \<lparr>w_st = st, w_now = now, w_paid = ps\<rparr>"
    and "reserve_at limits amount max_fee domain now st = (res, st')"
  shows "budget_reachable limits \<lparr>w_st = st', w_now = now, w_paid = ps\<rparr>"
    and "res = Ok rv \<Longrightarrow> map_of (bs_pending st') (rv_id rv) = Some (amount + rv_max_fee_sats rv, domain)"
proof -
  let ?w = "\<lparr>w_st = st, w_now = now, w_paid = ps\<rparr>"
  show "budget_reachable limits \<lparr>w_st = st', w_now = now, w_paid = ps\<rparr>"
    using budget_reachable.step [OF assms(1) budget_step.reserve, of amount max_fee domain res st'] assms(2) by simp
  assume ok: "res = Ok rv"
  then have nf: "\<not> bs_frozen (w_st ?w)" using assms(2) by (auto simp: reserve_at_def)
  show "map_of (bs_pending st') (rv_id rv) = Some (amount + rv_max_fee_sats rv, domain)"
    using reserve_at_cases(3) [OF inv_sane [OF budget_reachable_inv [OF assms(1)] nf, of domain], of amount max_fee rv]
      assms(2) ok by (simp add: update_conv')
qed

lemma balanced_booking:
  assumes "after_payment E key amount url start rv p s = (r, s')" and "r \<noteq> Panic" and "balanced E limits s"
    and "map_of (bs_pending (cl_budget (sy_cl s))) (rv_id rv) = Some (reserved, request_domain E url)"
  shows "balanced E limits s' \<and> sy_ext s' = sy_ext s"
proof -
  let ?v = "payment_violation amount (rv_max_fee_sats rv) p" and ?now = "now_secs E (sy_ext s)"
  obtain t where clock: "e_clock E (sy_ext s) = Some t"
    using assms(1,2) by (cases "e_clock E (sy_ext s)")
      (auto simp: after_payment_def Let_def payment_receipt_def receipt_new_def bind_act_def lift_res_def)
  define rc :: receipt where "rc = \<lparr>rc_timestamp = t, rc_endpoint = url, rc_amount_sats = pr_amount_sats p,
     rc_fee_sats = pr_fee_sats p, rc_payment_hash = pr_payment_hash p, rc_preimage = pr_preimage p,
     rc_response_status = 0, rc_latency_ms = elapsed_ms E start (sy_ext s)\<rparr>"
  have receipt: "payment_receipt (e_clock E (sy_ext s)) url p (elapsed_ms E start (sy_ext s)) = Ok rc"
    by (simp add: clock payment_receipt_def receipt_new_def rc_def)
  have cost: "(case payment_total p of None \<Rightarrow> u64_max | Some t \<Rightarrow> t) = total_cost_sats rc"
    by (simp add: payment_total_def total_cost_sats_def rc_def saturating_add_def checked_add_def)
  have now: "?now = t" by (simp add: now_secs_def clock)
  obtain res b where settle: "settle_at rv (total_cost_sats rc) ?now ?v (cl_budget (sy_cl s)) = (res, b)" by fastforce
  have "budget_reachable limits \<lparr>w_st = b, w_now = ?now,
      w_paid = expenses E s @ [(?now, total_cost_sats rc, request_domain E url)]\<rparr>"
    using budget_reachable.step [OF assms(3) [unfolded balanced_def] budget_step.settled, of rv reserved
        "request_domain E url" "total_cost_sats rc" ?v res b] assms(4) settle by simp
  moreover have "sy_ext s' = sy_ext s \<and> cl_budget (sy_cl s') = b \<and> cl_receipts (sy_cl s') = cl_receipts (sy_cl s) @ [rc]"
    using assms(1,2) settle
    by (auto simp: after_payment_def Let_def receipt on_cl_eq push_receipt_def settle_payment_def commit_payment_def
        cost elim!: bind_actE split: prod.splits rres.splits if_splits)
  ultimately show ?thesis
    by (simp add: balanced_def expenses_def expense_def now [symmetric]) (simp add: rc_def now)
qed

lemma balanced_paying:
  assumes "pay_new E invoice key amount url start rv s = (r, s')" and "r \<noteq> Panic" and "balanced E limits s"
    and "map_of (bs_pending (cl_budget (sy_cl s))) (rv_id rv) = Some (reserved, request_domain E url)"
    and "clock_forward E"
  shows "balanced E limits s'"
proof -
  obtain pr s1 where call: "call_pay E invoice (rv_max_fee_sats rv) s = (pr, s1)" by fastforce
  have cl: "sy_cl s1 = sy_cl s" and "now_secs E (sy_ext s) \<le> now_secs E (sy_ext s1)"
    using call clock_forwardD(2) [OF assms(5)] by (auto simp: call_pay_def Let_def split: prod.splits rres.splits)
  then have b1: "balanced E limits s1"
    using assms(3) reachable_tick by (auto simp: balanced_def expenses_def)
  show ?thesis
  proof (cases pr)
    case (Ok p)
    then have "after_payment E key amount url start rv p s1 = (r, s')"
      using assms(1) call by (simp add: pay_new_def)
    from balanced_booking [OF this assms(2) b1] show ?thesis using assms(4) cl by simp
  next
    case (Err e)
    show ?thesis
    proof (cases "is_confirmed_rejection e")
      case True
      have "budget_reachable limits \<lparr>w_st = release rv (cl_budget (sy_cl s1)), w_now = now_secs E (sy_ext s1),
          w_paid = expenses E s1\<rparr>"
        using budget_reachable.step [OF b1 [unfolded balanced_def] budget_step.released, of rv] assms(4) cl by simp
      then show ?thesis using assms(1) call Err True
        by (auto simp: pay_new_def balanced_def expenses_def on_cl_eq bind_act_def release_claim_def forget_claim_def)
    qed (use assms(1) call Err b1 in \<open>simp add: pay_new_def\<close>)
  qed (use assms(1,2) call in \<open>simp add: pay_new_def\<close>)
qed

lemma balanced_payment:
  assumes "pay_challenge E limits cfg invoice amount (request_domain E url) url start s = (r, s')" and "r \<noteq> Panic"
    and "balanced E limits s" and "clock_forward E"
  shows "balanced E limits s'"
proof -
  let ?key = "to_ascii_lowercase invoice" and ?now = "now_secs E (sy_ext s)"
  obtain res cl where c: "claim limits cfg (e_supports_fee_limit E (sy_ext s)) ?key amount (request_domain E url)
      ?now (sy_cl s) = (res, cl)" by fastforce
  let ?s1 = "s\<lparr>sy_cl := cl\<rparr>"
  show ?thesis
  proof (cases "\<exists>rv. res = Ok (Inr rv)")
    case True
    then obtain rv where rv: "res = Ok (Inr rv)" by blast
    then obtain b where b: "reserve_at limits amount (cfg_max_fee_sats cfg) (request_domain E url) ?now (cl_budget (sy_cl s))
        = (Ok rv, b)" "cl_budget cl = b" "cl_receipts cl = cl_receipts (sy_cl s)"
      using claim_new c by fastforce
    note reserved = reachable_reserve [OF assms(3) [unfolded balanced_def] b(1)]
    have b1: "balanced E limits ?s1" using reserved(1) b by (simp add: balanced_def expenses_def)
    obtain r2 where n: "pay_new E invoice ?key amount url start rv ?s1 = (r2, s')" "r2 = Panic \<longrightarrow> r = Panic"
      using assms(1) c rv by (auto simp: pay_challenge_def Let_def on_cl_eq bind_act_def split: prod.splits rres.splits)
    show ?thesis
      using balanced_paying [OF n(1) _ b1 _ assms(4)] n(2) assms(2) reserved(2) b(2) by fastforce
  next
    case False
    then have "balanced E limits ?s1"
      using claim_refused [OF c] reachable_reserve(1) [OF assms(3) [unfolded balanced_def]] assms(3)
      by (auto simp: balanced_def expenses_def)
    moreover have "s' = ?s1"
      using assms(1) c False by (auto simp: pay_challenge_def Let_def on_cl_eq bind_act_def split: rres.splits sum.splits)
    ultimately show ?thesis by simp
  qed
qed

lemma steady_balanced: "steady E m \<Longrightarrow> m s = (r, s') \<Longrightarrow> balanced E limits s \<Longrightarrow> balanced E limits s'"
  unfolding steady_def balanced_def by (metis reachable_tick)

lemma balanced_request:
  assumes "request E limits cfg meth url body s = (r, s')" and "r \<noteq> Panic" and "balanced E limits s"
    and cf: "clock_forward E"
  shows "balanced E limits s'"
proof -
  note steady = steady_balanced [OF steady_find [OF cf]] steady_balanced [OF steady_try [OF cf]]
    steady_balanced [OF steady_http(1) [OF cf]] steady_balanced [OF steady_retry [OF cf]]
  have answer: "balanced E limits b"
    if "answer_challenge E limits cfg meth url body start response a = (r, b)" and "balanced E limits a"
    for start response a b
    using that assms(2) unfolding answer_challenge_def
    by (auto elim!: bind_actE dest: balanced_payment [OF _ _ _ cf] steady(4))
  show ?thesis
    using assms(1,3) unfolding request_def Let_def
    by (auto elim!: bind_actE split: option.splits if_splits) (blast intro: steady answer)+
qed

section \<open>The life of a client\<close>

text \<open>Requests one after another, none of which panics; between them the world may change as it likes.\<close>

inductive client_life :: "'w env \<Rightarrow> budget \<Rightarrow> client_config \<Rightarrow> 'w sys \<Rightarrow> bool" for E limits cfg where
  built: "client_life E limits cfg \<lparr>sy_ext = w, sy_cl = client_start, sy_log = []\<rparr>"
| requested: "client_life E limits cfg s \<Longrightarrow> request E limits cfg meth url body s = (r, s') \<Longrightarrow> r \<noteq> Panic \<Longrightarrow>
     client_life E limits cfg s'"
| meanwhile: "client_life E limits cfg s \<Longrightarrow> now_secs E (sy_ext s) \<le> now_secs E w \<Longrightarrow>
     client_life E limits cfg (s\<lparr>sy_ext := w\<rparr>)"

lemma life_balanced:
  assumes "client_life E limits cfg s" and "clock_forward E"
  shows "balanced E limits s"
  using assms(1)
proof induction
  case (built w)
  show ?case using budget_reachable.start by (simp add: balanced_def expenses_def client_start_def)
next
  case (requested s meth url body r s')
  then show ?case using balanced_request assms(2) by blast
next
  case (meanwhile s w)
  then show ?case using reachable_tick by (simp add: balanced_def expenses_def)
qed

text \<open>What the receipts of a kind add up to.\<close>

definition spent :: "(receipt \<Rightarrow> bool) \<Rightarrow> receipt list \<Rightarrow> nat" where
  "spent P rcs = (\<Sum>rc\<leftarrow>filter P rcs. unat (total_cost_sats rc))"

lemma spent_paid: "paid (hist P (map (expense E) rcs)) = spent (\<lambda>rc. P (request_domain E (rc_endpoint rc))) rcs"
  by (induction rcs) (auto simp: paid_def hist_def spent_def expense_def)

lemma spent_paid_in:
  "paid_in w k (hist P (map (expense E) rcs))
     = spent (\<lambda>rc. rc_timestamp rc div w = k \<and> P (request_domain E (rc_endpoint rc))) rcs"
  by (induction rcs) (auto simp: paid_in_def paid_def hist_def spent_def expense_def)

text \<open>The sample request, after which one receipt is shown.\<close>

lemma sample_clock: "clock_forward sample_env"
  by (simp add: clock_forward_def now_secs_def sample_env_def)

lemma sample_life:
  "\<exists>s. client_life sample_env unlimited sample_config s \<and> \<not> bs_frozen (cl_budget (sy_cl s))
     \<and> bs_pending (cl_budget (sy_cl s)) = [] \<and> spent (\<lambda>_. True) (cl_receipts (sy_cl s)) = 1001"
proof -
  obtain s where run: "request sample_env unlimited sample_config ''GET'' ''u'' None sample_sys =
      (Err (Backend ''disk full''), s)" and cl: "sy_cl s = sample_paid_cl\<lparr>cl_unpersisted := [''u'' \<mapsto> token_new ''QQ'' ''aa'']\<rparr>"
    using sample_request by fastforce
  have "client_life sample_env unlimited sample_config s"
    by (rule client_life.requested [OF client_life.built [of _ _ _ "()"] run [unfolded sample_sys_def]]) simp
  moreover have "\<not> bs_frozen (cl_budget (sy_cl s))" "bs_pending (cl_budget (sy_cl s)) = []"
    "spent (\<lambda>_. True) (cl_receipts (sy_cl s)) = 1001"
    by (simp_all add: cl sample_paid_cl_def settle_payment_def commit_payment_def payment_total_def checked_add_def
        sample_payment_def client_start_def settle_at_def tracker_new_def spent_def total_cost_sats_def
        saturating_add_def Let_def)
  ultimately show ?thesis by blast
qed

section \<open>Property\<close>

text \<open>C2. The receipts of a client respect its budget: after any number of requests, whatever servers,
  stores and backend answered, if no settled payment broke its authorization (the tracker is not
  frozen) and the clock does not run backwards: the costs of all receipts together with what is
  still reserved are within the total limit; the receipts dated in any one clock hour or day, from
  the current one on together with all that is reserved, are within the hourly and the daily limit;
  every receipt and every reservation is within the per-request limits; and for each domain with a
  budget of its own the same holds of the receipts of its URLs. The reported spending is exactly the
  receipts and what is reserved.\<close>

theorem receipts_within_budget:
  assumes "client_life E limits cfg s" and "clock_forward E" and "\<not> bs_frozen (cl_budget (sy_cl s))"
  shows "within (spent (\<lambda>_. True) (cl_receipts (sy_cl s)) + psum any_domain (bs_pending (cl_budget (sy_cl s))))
      (total_max limits)
    \<and> (\<forall>k. within (spent (\<lambda>rc. rc_timestamp rc div 3600 = k) (cl_receipts (sy_cl s))
             + from_now 3600 (now_secs E (sy_ext s)) k (psum any_domain (bs_pending (cl_budget (sy_cl s))))) (hourly_max limits)
         \<and> within (spent (\<lambda>rc. rc_timestamp rc div 86400 = k) (cl_receipts (sy_cl s))
             + from_now 86400 (now_secs E (sy_ext s)) k (psum any_domain (bs_pending (cl_budget (sy_cl s))))) (daily_max limits))
    \<and> (\<forall>rc \<in> set (cl_receipts (sy_cl s)).
         request_ok limits (request_domain E (rc_endpoint rc)) (unat (total_cost_sats rc)))
    \<and> (\<forall>d db. domain_budgets limits d = Some db \<longrightarrow>
         within (spent (\<lambda>rc. request_domain E (rc_endpoint rc) = Some d) (cl_receipts (sy_cl s))
           + psum (in_domain d) (bs_pending (cl_budget (sy_cl s)))) (total_max db)
       \<and> (\<forall>k. within (spent (\<lambda>rc. rc_timestamp rc div 3600 = k \<and> request_domain E (rc_endpoint rc) = Some d)
               (cl_receipts (sy_cl s))
             + from_now 3600 (now_secs E (sy_ext s)) k (psum (in_domain d) (bs_pending (cl_budget (sy_cl s))))) (hourly_max db)
            \<and> within (spent (\<lambda>rc. rc_timestamp rc div 86400 = k \<and> request_domain E (rc_endpoint rc) = Some d)
               (cl_receipts (sy_cl s))
             + from_now 86400 (now_secs E (sy_ext s)) k (psum (in_domain d) (bs_pending (cl_budget (sy_cl s))))) (daily_max db)))
    \<and> (\<forall>(i, a, d) \<in> set (bs_pending (cl_budget (sy_cl s))). request_ok limits d (unat a))
    \<and> unat (client_total_spent (sy_cl s)) =
        spent (\<lambda>_. True) (cl_receipts (sy_cl s)) + psum any_domain (bs_pending (cl_budget (sy_cl s)))"
proof -
  have b: "budget_reachable limits
     \<lparr>w_st = cl_budget (sy_cl s), w_now = now_secs E (sy_ext s), w_paid = expenses E s\<rparr>"
    using life_balanced [OF assms(1,2)] unfolding balanced_def .
  note limits = limits_hold [OF b, simplified, unfolded expenses_def spent_paid spent_paid_in, OF assms(3)]
  have "\<forall>rc \<in> set (cl_receipts (sy_cl s)).
      request_ok limits (request_domain E (rc_endpoint rc)) (unat (total_cost_sats rc))"
    using limits by (auto simp: expense_def)
  moreover have "unat (client_total_spent (sy_cl s)) =
      spent (\<lambda>_. True) (cl_receipts (sy_cl s)) + psum any_domain (bs_pending (cl_budget (sy_cl s)))"
    using total_spent_exact [OF budget_reachable_inv [OF b]] assms(3)
    by (simp add: client_total_spent_def expenses_def spent_paid)
  ultimately show ?thesis using limits by simp
qed

theorem receipts_within_budget_witness:
  "\<exists>s. client_life sample_env unlimited sample_config s
     \<and> spent (\<lambda>_. True) (cl_receipts (sy_cl s)) = 1001 \<and> unat (client_total_spent (sy_cl s)) = 1001"
proof -
  obtain s where life: "client_life sample_env unlimited sample_config s"
    and st: "\<not> bs_frozen (cl_budget (sy_cl s))" "bs_pending (cl_budget (sy_cl s)) = []"
      "spent (\<lambda>_. True) (cl_receipts (sy_cl s)) = 1001"
    using sample_life by blast
  then show ?thesis using receipts_within_budget [OF life sample_clock st(1)] by (auto simp: psum_def)
qed

end
