(* ===== verification/Client_Books.thy ===== *)
theory Client_Books
  imports Client_Life
begin

text \<open>
  The books of a client with concurrent calls: what the backend settled, what the tasks may yet be
  charged for, and what the receipts show, against the total limit of the budget. A payment is
  counted from the moment the backend is called, before the tracker has heard of its outcome.
\<close>

section \<open>Settled payments are charged once\<close>

fun uncharged :: "pc \<Rightarrow> u64 list" where
  "uncharged (Paid key amount domain url rv p) = [charge p]"
| "uncharged (Receipted key amount domain rv p i) = [charge p]"
| "uncharged (Lost url p) = [charge p]"
| "uncharged _ = []"

definition settled_charges :: "conc \<Rightarrow> u64 list" where
  "settled_charges s = map (\<lambda>(url, amount, cap, p). charge p) (cc_settled s)"

definition charges_match :: "conc \<Rightarrow> bool" where
  "charges_match s \<longleftrightarrow> mset (settled_charges s) =
     mset (map (\<lambda>(t, a, d). a) (cc_charged s)) + mset (each uncharged (cc_tasks s))"

lemma charges_step: "conc_step limits cfg s s' \<Longrightarrow> charges_match s \<Longrightarrow> charges_match s'"
  by (induction rule: conc_step.induct) (auto simp: charges_match_def settled_charges_def split: if_splits)

lemma charges_reachable: "conc_reachable limits cfg s \<Longrightarrow> charges_match s"
proof (induction rule: conc_reachable.induct)
  case (start now)
  show ?case by (simp add: charges_match_def settled_charges_def conc_start_def)
qed (blast intro: charges_step)

lemma sum_each: "sum_list (map g (each f ts)) = (\<Sum>t\<leftarrow>ts. sum_list (map g (f t)))"
  for g :: "'a \<Rightarrow> nat"
  by (induction ts) simp_all

lemma sum_same: "mset xs = mset ys \<Longrightarrow> sum_list (map g xs) = sum_list (map g ys)"
  for g :: "'a \<Rightarrow> nat"
  using arg_cong [of "mset xs" "mset ys" "\<lambda>m. sum_mset (image_mset g m)"]
  by (simp flip: sum_mset_sum_list)

lemma settled_sum:
  assumes "charges_match s"
  shows "sum_list (map unat (settled_charges s)) =
    paid (hist any_domain (cc_charged s)) + (\<Sum>t\<leftarrow>cc_tasks s. sum_list (map unat (uncharged t)))"
proof -
  have "mset (settled_charges s) = mset (map (\<lambda>(t, a, d). a) (cc_charged s) @ each uncharged (cc_tasks s))"
    using assms by (simp add: charges_match_def)
  then have "sum_list (map unat (settled_charges s)) =
      sum_list (map unat (map (\<lambda>(t, a, d). a) (cc_charged s) @ each uncharged (cc_tasks s)))"
    by (rule sum_same)
  moreover have "paid (hist any_domain ps) = sum_list (map unat (map (\<lambda>(t, a, d). a) ps))" for ps
    by (induction ps) (auto simp: paid_def hist_def)
  ultimately show ?thesis by (simp add: sum_each)
qed

section \<open>Reservations cover what tasks may be charged for\<close>

text \<open>What a task may yet be charged for: amount and fee cap while it waits, then the payment.\<close>

fun in_flight :: "pc \<Rightarrow> nat" where
  "in_flight (Paying key amount domain url rv) = unat amount + unat (rv_max_fee_sats rv)"
| "in_flight _ = 0"

definition due :: "pc \<Rightarrow> nat" where
  "due t = in_flight t + sum_list (map unat (uncharged t))"

definition lost :: "pc \<Rightarrow> bool" where
  "lost t \<longleftrightarrow> (\<exists>url p. t = Lost url p)"

lemma live_covers:
  assumes "live ps amount domain rv"
  shows "map_of ps (rv_id rv) = Some (amount + rv_max_fee_sats rv, domain)"
    and "unat amount + unat (rv_max_fee_sats rv) = unat (amount + rv_max_fee_sats rv)"
    and "\<not> payment_violation amount (rv_max_fee_sats rv) p \<Longrightarrow> unat (charge p) \<le> unat (amount + rv_max_fee_sats rv)"
  using assms within_reservation [of amount "rv_max_fee_sats rv" p] unat_add_u64_no_overflow
  by (simp_all add: live_def word_le_nat_alt)

lemma due_held:
  assumes "holds_live ps t" and "awaited_ok s t" and "\<not> overspent s" and "\<not> lost t"
  shows "due t = 0 \<or> (\<exists>i a d. held t = [i] \<and> map_of ps i = Some (a, d) \<and> due t \<le> unat a)"
proof (cases t)
  case (Paying key amount domain url rv)
  then show ?thesis using assms(1) live_covers(1,2) by (simp add: due_def)
next
  case (Paid key amount domain url rv p)
  then have "\<not> payment_violation amount (rv_max_fee_sats rv) p" using assms(2,3) by (auto simp: overspent_def)
  then show ?thesis using Paid assms(1) live_covers(1,3) by (simp add: due_def)
next
  case (Receipted key amount domain rv p i)
  then have "\<not> payment_violation amount (rv_max_fee_sats rv) p" using assms(2,3) by (auto simp: overspent_def)
  then show ?thesis using Receipted assms(1) live_covers(1,3) by (simp add: due_def)
qed (use assms(4) in \<open>simp_all add: due_def lost_def\<close>)

lemma due_covered:
  assumes "\<And>t. t \<in> set ts \<Longrightarrow> holds_live ps t \<and> awaited_ok s t \<and> \<not> lost t"
    and "distinct (each held ts)" and "distinct (map fst ps)" and "\<not> overspent s"
  shows "(\<Sum>t\<leftarrow>ts. due t) \<le> psum any_domain ps"
  using assms(1-3)
proof (induction ts arbitrary: ps)
  case (Cons t ts)
  consider "due t = 0" | i a d where "held t = [i]" "map_of ps i = Some (a, d)" "due t \<le> unat a"
    using due_held [of ps t s] Cons.prems(1) assms(4) by auto
  then show ?case
  proof cases
    case 1
    then show ?thesis using Cons.IH [of ps] Cons.prems by auto
  next
    case 2
    then have "i \<notin> set (held x)" if "x \<in> set ts" for x using Cons.prems(2) that by auto
    then have "(\<Sum>t\<leftarrow>ts. due t) \<le> psum any_domain (AList.delete i ps)"
      using Cons.prems holds_live_delete by (intro Cons.IH) (auto simp: distinct_delete)
    then show ?thesis using psum_delete [OF Cons.prems(3) 2(2), of any_domain] 2(3) by simp
  qed
qed simp

section \<open>Receipts cost what was settled\<close>

definition core_cost :: "string \<times> u64 \<times> u64 \<times> string \<times> string \<Rightarrow> nat" where
  "core_cost c = (case c of (url, amount, fee, h, p) \<Rightarrow> unat (saturating_add amount fee))"

lemma core_cost_simps [simp]:
  "core_cost (receipt_core rc) = unat (total_cost_sats rc)" "core_cost (payment_core url p) = unat (charge p)"
  by (simp_all add: core_cost_def receipt_core_def payment_core_def charge_def payment_total_def total_cost_sats_def
      saturating_add_def checked_add_def)

lemma receipts_cost:
  assumes "conc_reachable limits cfg s"
  shows "spent (\<lambda>_. True) (cl_receipts (cc_cl s)) \<le> sum_list (map unat (settled_charges s))"
proof -
  have "sum_mset (image_mset core_cost (mset (map receipt_core (cl_receipts (cc_cl s))) + mset (each unrecorded (cc_tasks s))))
    = sum_mset (image_mset core_cost (mset (map (\<lambda>(url, amount, cap, p). payment_core url p) (cc_settled s))))"
    using conc_invD(8) [OF conc_reachable_inv [OF assms]] by simp
  moreover have "sum_mset (image_mset core_cost (mset (map receipt_core rcs))) = spent (\<lambda>_. True) rcs" for rcs
    by (induction rcs) (simp_all add: spent_def)
  moreover have "sum_mset (image_mset core_cost (mset (map (\<lambda>(url, amount, cap, p). payment_core url p) ps)))
      = sum_list (map unat (map (\<lambda>(url, amount, cap, p). charge p) ps))" for ps :: "(string \<times> u64 \<times> u64 \<times> payment_result) list"
    by (induction ps) auto
  ultimately show ?thesis by (simp add: settled_charges_def)
qed

section \<open>Property\<close>

text \<open>C7. Concurrent requests cannot exceed the budget together, in any interleaving and with futures
  dropped at any time: the costs of all receipts are within what the backend settled; what it
  settled, together with amount and fee cap of every payment in flight, is within what the client
  reports as spent; and that is within the total limit, for as long as no payment settled outside
  of its authorized amount and fee cap (and no task met a clock before the epoch).\<close>

theorem concurrent_receipts_within_budget:
  assumes "conc_reachable limits cfg s" and "\<not> overspent s" and "\<forall>t \<in> set (cc_tasks s). \<not> lost t"
  shows "spent (\<lambda>_. True) (cl_receipts (cc_cl s)) \<le> sum_list (map unat (settled_charges s))
    \<and> sum_list (map unat (settled_charges s)) + (\<Sum>t\<leftarrow>cc_tasks s. in_flight t) \<le> unat (client_total_spent (cc_cl s))
    \<and> within (unat (client_total_spent (cc_cl s))) (total_max limits)
    \<and> (\<forall>(t, a, d) \<in> set (cc_charged s). request_ok limits d (unat a))"
proof -
  note i = conc_reachable_inv [OF assms(1)] and safe = concurrent_budget_safe [OF assms(1,2)]
  let ?ps = "bs_pending (cl_budget (cc_cl s))"
  have exact: "unat (client_total_spent (cc_cl s)) = paid (hist any_domain (cc_charged s)) + psum any_domain ?ps"
    using total_spent_exact [OF budget_reachable_inv [OF conc_invD(1) [OF i]]] safe
    by (simp add: client_total_spent_def budget_world_def)
  have "distinct (map fst ?ps)"
    using budget_invD(1) [OF budget_reachable_inv [OF conc_invD(1) [OF i]]] by (simp add: budget_world_def)
  then have "(\<Sum>t\<leftarrow>cc_tasks s. due t) \<le> psum any_domain ?ps"
    using due_covered [OF _ conc_invD(4) [OF i] _ assms(2)] conc_invD(2,3) [OF i] assms(3) by blast
  moreover have "sum_list (map unat (settled_charges s)) + (\<Sum>t\<leftarrow>cc_tasks s. in_flight t)
      = paid (hist any_domain (cc_charged s)) + (\<Sum>t\<leftarrow>cc_tasks s. due t)"
    unfolding settled_sum [OF charges_reachable [OF assms(1)]] due_def sum_list_addf by simp
  ultimately show ?thesis using receipts_cost [OF assms(1)] safe exact by simp
qed

text \<open>An instance: one payment in flight, of 1000 sats with a fee of at most 100.\<close>

theorem concurrent_receipts_within_budget_witness:
  "1100 \<le> unat (client_total_spent (cc_cl sample_conc)) \<and> cc_tasks sample_conc \<noteq> []"
  using concurrent_receipts_within_budget [OF sample_conc_reachable]
  by (simp add: sample_conc_def overspent_def lost_def settled_charges_def)

end
