(* ===== verification/Client_Panic.thy ===== *)
theory Client_Panic
  imports Client_Life
begin

text \<open>
  No request of a client panics: the sums of the budget do not overflow, a reservation is found when
  it is settled, and the index of a receipt kept in the map of payments is one of the list of receipts.
\<close>

section \<open>The index of a known payment\<close>

definition payments_indexed :: "client_state \<Rightarrow> bool" where
  "payments_indexed cl \<longleftrightarrow> (\<forall>key p i. cl_payments cl key = Some (Some (p, i)) \<longrightarrow> i < length (cl_receipts cl))"

text \<open>What the client calls returns, and the clock is after the epoch.\<close>

definition ports_return :: "'w env \<Rightarrow> bool" where
  "ports_return E \<longleftrightarrow> (\<forall>w. e_clock E w \<noteq> None
     \<and> (\<forall>invoice fee. fst (e_pay_invoice E w invoice fee) \<noteq> Panic)
     \<and> (\<forall>e m p. fst (e_put E w e m p) \<noteq> Panic)
     \<and> (\<forall>e. fst (e_get E w e) \<noteq> Panic) \<and> (\<forall>e. fst (e_remove E w e) \<noteq> Panic))"

lemma ports_returnD:
  assumes "ports_return E"
  shows "\<exists>t. e_clock E w = Some t"
    and "e_pay_invoice E w invoice fee \<noteq> (Panic, w')" and "e_put E w e m p \<noteq> (Panic, w')"
    and "e_get E w e \<noteq> (Panic, w')" and "e_remove E w e \<noteq> (Panic, w')"
  using assms unfolding ports_return_def by (auto simp: not_None_eq) (metis fst_conv)+

section \<open>Acts that do not panic\<close>

text \<open>With at least \<open>n\<close> receipts the act does not panic, and keeps payments and number of receipts.\<close>

definition calm :: "nat \<Rightarrow> ('a, 'w) act \<Rightarrow> bool" where
  "calm n m \<longleftrightarrow> (\<forall>s r s'. m s = (r, s') \<longrightarrow> n \<le> length (cl_receipts (sy_cl s)) \<longrightarrow>
     r \<noteq> Panic \<and> cl_payments (sy_cl s') = cl_payments (sy_cl s)
     \<and> length (cl_receipts (sy_cl s')) = length (cl_receipts (sy_cl s)))"

named_theorems calm_intros \<open>the acts that do not panic\<close>

lemma calmD:
  "calm n m \<Longrightarrow> m s = (r, s') \<Longrightarrow> n \<le> length (cl_receipts (sy_cl s)) \<Longrightarrow>
   r \<noteq> Panic \<and> cl_payments (sy_cl s') = cl_payments (sy_cl s)
   \<and> length (cl_receipts (sy_cl s')) = length (cl_receipts (sy_cl s))"
  unfolding calm_def by blast

lemma calm_pure [calm_intros]: "calm n (ret a)" "calm n (fail e)" "x \<noteq> Panic \<Longrightarrow> calm n (lift_res x)"
  by (auto simp: calm_def)

lemma calm_bind [calm_intros]: "calm n m \<Longrightarrow> (\<And>a. calm n (f a)) \<Longrightarrow> calm n (bind_act m f)"
  unfolding calm_def by (fastforce elim!: bind_actE)

lemma calm_http [calm_intros]:
  "calm n (send_request E meth url body)" "calm n (send_with_auth E meth url body token)"
  by (auto simp: calm_def send_request_def send_with_auth_def send_checked_def Let_def
      split: prod.splits sum.splits if_splits)

lemma calm_store [calm_intros]:
  assumes "ports_return E"
  shows "calm n (store_get E url)" "calm n (store_put E url token)" "calm n (store_remove E url)"
  using ports_returnD(3-5) [OF assms]
  by (auto simp: calm_def store_get_def store_put_def store_remove_def split: prod.splits)

lemma calm_tokens [calm_intros]:
  "calm n (on_cl (keep_unpersisted url token))" "calm n (on_cl (drop_unpersisted url))"
  "calm n (on_cl (drop_if_saved url token))"
  by (auto simp: calm_def on_cl_eq keep_unpersisted_def drop_unpersisted_def drop_if_saved_def
      split: option.splits if_splits)

lemma calm_update [calm_intros]: "i < n \<Longrightarrow> calm n (\<lambda>s. on_cl (update_receipt i st (f s)) s)"
  by (auto simp: calm_def on_cl_eq update_receipt_def Let_def)

lemma calm_find [calm_intros]: "ports_return E \<Longrightarrow> calm n (find_token E url)"
proof -
  assume p: "ports_return E"
  have "calm n (bind_act (store_get E url) (\<lambda>c.
      ret (case c of None \<Rightarrow> None | Some (macaroon, preimage) \<Rightarrow> Some (token_new macaroon preimage))))"
    using p by (intro calm_intros)
  then show ?thesis unfolding calm_def find_token_def by (auto split: option.splits)
qed

lemma calm_try [calm_intros]: "ports_return E \<Longrightarrow> calm n (try_cached E meth url body token)"
  by (cases token) (auto simp: try_cached_def intro!: calm_intros)

lemma calm_retry [calm_intros]:
  "ports_return E \<Longrightarrow> i < n \<Longrightarrow> calm n (retry_paid E meth url body start m (payment, i, newly_paid))"
  by (auto simp: retry_paid_def persist_token_def Let_def intro!: calm_intros)

lemma kv_loop_not_Panic: "kv_loop parts fs \<noteq> Panic"
  by (induction parts arbitrary: fs) (auto simp: parse_kv_def rbind_Panic_iff)

lemma challenge_not_Panic: "challenge_from_header std url header \<noteq> Panic"
  by (auto simp: challenge_from_header_def finish_challenge_def Let_def rbind_Panic_iff kv_loop_not_Panic
      split: sum.splits)

lemma reading_not_Panic: "extract_challenge E response \<noteq> Panic" "invoice_amount_sats invoice \<noteq> Panic"
  by (auto simp: extract_challenge_def invoice_amount_sats_def rbind_Panic_iff challenge_not_Panic)

section \<open>The payment does not panic\<close>

lemma booking_total:
  assumes "after_payment E key amount url start rv p s = (r, s')" and "ports_return E"
    and "map_of (bs_pending (cl_budget (sy_cl s))) (rv_id rv) = Some entry"
    and "payments_indexed (sy_cl s)"
  shows "r \<noteq> Panic \<and> payments_indexed (sy_cl s')
    \<and> (\<forall>q i. r = Ok (q, i) \<longrightarrow> i < length (cl_receipts (sy_cl s')))"
proof -
  obtain t where "e_clock E (sy_ext s) = Some t" using ports_returnD(1) [OF assms(2)] by blast
  moreover have "fst (settle_at rv x now v (cl_budget (sy_cl s))) \<noteq> Panic" for x now v
    using assms(3) by (cases entry) (simp add: settle_at_eq)
  ultimately show ?thesis
    using assms(1,4)
    by (auto simp: after_payment_def Let_def payment_receipt_def receipt_new_def on_cl_eq push_receipt_def
        settle_payment_def commit_payment_def payments_indexed_def less_Suc_eq
        elim!: bind_actE split: prod.splits rres.splits if_splits) (metis fst_conv)+
qed

lemma paying_total:
  assumes "pay_new E invoice key amount url start rv s = (r, s')" and "ports_return E"
    and "map_of (bs_pending (cl_budget (sy_cl s))) (rv_id rv) = Some entry"
    and "payments_indexed (sy_cl s)"
  shows "r \<noteq> Panic \<and> payments_indexed (sy_cl s')
    \<and> (\<forall>q i. r = Ok (q, i) \<longrightarrow> i < length (cl_receipts (sy_cl s')))"
proof -
  obtain pr s1 where call: "call_pay E invoice (rv_max_fee_sats rv) s = (pr, s1)" by fastforce
  have cl: "sy_cl s1 = sy_cl s" and np: "pr \<noteq> Panic"
    using call ports_returnD(2) [OF assms(2)]
    by (auto simp: call_pay_def Let_def split: prod.splits rres.splits)
  show ?thesis
  proof (cases pr)
    case (Ok p)
    then show ?thesis
      using assms(1) call booking_total [of E key amount url start rv p s1] assms(2-4) cl by (simp add: pay_new_def)
  next
    case (Err e)
    then show ?thesis
      using assms(1,4) call cl
      by (auto simp: pay_new_def on_cl_eq bind_act_def release_claim_def forget_claim_def payments_indexed_def
          split: if_splits)
  qed (use np in simp)
qed

lemma payment_total_run:
  assumes "pay_challenge E limits cfg invoice amount (request_domain E url) url start s = (r, s')"
    and "ports_return E" and "balanced E limits s" and "payments_indexed (sy_cl s)"
  shows "r \<noteq> Panic \<and> payments_indexed (sy_cl s')
    \<and> (\<forall>q i new. r = Ok (q, i, new) \<longrightarrow> i < length (cl_receipts (sy_cl s')))"
proof -
  let ?key = "to_ascii_lowercase invoice" and ?now = "now_secs E (sy_ext s)"
  obtain res cl where c: "claim limits cfg (e_supports_fee_limit E (sy_ext s)) ?key amount (request_domain E url)
      ?now (sy_cl s) = (res, cl)" by fastforce
  let ?s1 = "s\<lparr>sy_cl := cl\<rparr>"
  have "fst (reserve_at limits amount (cfg_max_fee_sats cfg) (request_domain E url) ?now (cl_budget (sy_cl s))) \<noteq> Panic"
    using reserve_never_panics [OF assms(3) [unfolded balanced_def]] by simp
  then have np: "res \<noteq> Panic"
    using c by (auto simp: claim_def split: option.splits if_splits prod.splits rres.splits)
  show ?thesis
  proof (cases "\<exists>rv. res = Ok (Inr rv)")
    case True
    then obtain rv where rv: "res = Ok (Inr rv)" by blast
    then obtain b where b: "reserve_at limits amount (cfg_max_fee_sats cfg) (request_domain E url) ?now (cl_budget (sy_cl s))
        = (Ok rv, b)" "cl = (sy_cl s)\<lparr>cl_budget := b, cl_payments := (cl_payments (sy_cl s))(?key \<mapsto> None)\<rparr>"
      using claim_new c by fastforce
    note entry = reachable_reserve(2) [OF assms(3) [unfolded balanced_def] b(1) refl]
    have "payments_indexed cl" using assms(4) b(2) by (auto simp: payments_indexed_def)
    moreover obtain r2 where n: "pay_new E invoice ?key amount url start rv ?s1 = (r2, s')"
      and r: "r = (case r2 of Ok (q, i) \<Rightarrow> Ok (q, i, True) | Err e \<Rightarrow> Err e | Panic \<Rightarrow> Panic)"
      using assms(1) c rv by (auto simp: pay_challenge_def Let_def on_cl_eq bind_act_def split: prod.splits rres.splits)
    ultimately show ?thesis
      using paying_total [OF n assms(2), of "(amount + rv_max_fee_sats rv, request_domain E url)"] entry b(2)
      by (auto split: rres.splits)
  next
    case False
    then have "cl_payments cl = cl_payments (sy_cl s)" "cl_receipts cl = cl_receipts (sy_cl s)"
      using claim_refused [OF c] by auto
    moreover have "res = Ok (Inl (q, i)) \<Longrightarrow> cl_payments (sy_cl s) ?key = Some (Some (q, i))" for q i
      using c by (auto simp: claim_def split: option.splits if_splits prod.splits rres.splits)
    ultimately show ?thesis
      using assms(1,4) c False np
      by (auto simp: pay_challenge_def Let_def on_cl_eq bind_act_def payments_indexed_def
          split: rres.splits sum.splits)
  qed
qed

section \<open>The request does not panic\<close>

lemma answer_total:
  assumes "answer_challenge E limits cfg meth url body start response s = (r, s')"
    and p: "ports_return E" and b: "balanced E limits s" and i: "payments_indexed (sy_cl s)"
  shows "r \<noteq> Panic \<and> payments_indexed (sy_cl s')"
proof -
  have retry: "a \<noteq> Panic \<and> payments_indexed (sy_cl s2)"
    if "retry_paid E meth url body start m (q, j, new) s1 = (a, s2)" and "j < length (cl_receipts (sy_cl s1))"
      and "payments_indexed (sy_cl s1)" for m q j new s1 a s2
    using calmD [OF calm_retry [OF p that(2)] that(1)] that(3) by (simp add: payments_indexed_def)
  show ?thesis
    using assms(1) i unfolding answer_challenge_def
    by (auto simp: reading_not_Panic elim!: bind_actE dest!: payment_total_run [OF _ p b i]) (blast dest: retry)+
qed

lemma sound_after:
  assumes "calm 0 m" and "steady E m" and "m s = (r, s')" and "balanced E limits s" and "payments_indexed (sy_cl s)"
  shows "r \<noteq> Panic \<and> balanced E limits s' \<and> payments_indexed (sy_cl s')"
  using calmD [OF assms(1,3)] steady_balanced [OF assms(2-4)] assms(5) by (simp add: payments_indexed_def)

lemma request_total:
  assumes "request E limits cfg meth url body s = (r, s')" and p: "ports_return E" and cf: "clock_forward E"
    and "balanced E limits s" and "payments_indexed (sy_cl s)"
  shows "r \<noteq> Panic \<and> payments_indexed (sy_cl s')"
proof -
  note calm = sound_after [OF calm_find [OF p] steady_find [OF cf]] sound_after [OF calm_try [OF p] steady_try [OF cf]]
    sound_after [OF calm_http(1) steady_http(1) [OF cf]] answer_total [OF _ p]
  show ?thesis
    using assms(1,4,5) unfolding request_def Let_def
    by (auto elim!: bind_actE dest!: calm split: option.splits if_splits)
qed

section \<open>The receipt of a response\<close>

definition shows_receipt :: "client_state \<Rightarrow> l402_response \<Rightarrow> bool" where
  "shows_receipt cl resp \<longleftrightarrow> (case lr_receipt resp of
       None \<Rightarrow> \<not> lr_paid resp
     | Some rc \<Rightarrow> rc \<in> set (cl_receipts cl) \<and> rc_response_status rc = status resp \<and> status resp \<noteq> PAYMENT_REQUIRED)"

lemma retry_shows:
  assumes "retry_paid E meth url body start m (p, i, new) s = (Ok resp, s')"
  shows "shows_receipt (sy_cl s') resp"
  using assms
  by (auto simp: retry_paid_def Let_def on_cl_eq update_receipt_def shows_receipt_def status_def set_update_memI
      elim!: bind_actE split: if_splits)

lemma request_shows:
  assumes "request E limits cfg meth url body s = (Ok resp, s')"
  shows "shows_receipt (sy_cl s') resp"
proof -
  have cached: "shows_receipt cl resp'" if "try_cached E meth url body token s1 = (Ok (Some resp'), s2)"
    for token s1 s2 resp' cl
    using that by (auto simp: try_cached_def shows_receipt_def elim!: bind_actE split: option.splits if_splits)
  show ?thesis
    using assms unfolding request_def Let_def answer_challenge_def
    by (auto elim!: bind_actE split: option.splits if_splits)
      (auto simp: shows_receipt_def [of _ "\<lparr>lr_inner = _, lr_paid = _, lr_cached_token = _, lr_receipt = _\<rparr>"]
        intro: cached retry_shows)
qed

section \<open>Property\<close>

text \<open>C11. No request panics: after any number of requests, if what the client calls returns and the
  clock is after the epoch and does not run backwards, a request ends with a response or an error.
  The addition of reservations does not overflow, the reservation of a payment is found when the
  payment is settled, and the index of the receipt to complete is in range, also if the payment was
  made by an earlier request. A response of a paid request carries its receipt, completed with the
  status of the response, and the receipt is one the client shows.\<close>

theorem request_never_panics:
  assumes "client_life E limits cfg s" and "clock_forward E" and "ports_return E"
    and "request E limits cfg meth url body s = (r, s')"
  shows "r \<noteq> Panic \<and> client_life E limits cfg s' \<and> (\<forall>resp. r = Ok resp \<longrightarrow> shows_receipt (sy_cl s') resp)"
proof -
  have "payments_indexed (sy_cl s)"
    using assms(1)
  proof induction
    case (built w)
    show ?case by (simp add: payments_indexed_def client_start_def)
  next
    case (requested s meth url body r s')
    then show ?case using request_total [OF _ assms(3,2) life_balanced [OF _ assms(2)]] by blast
  qed simp
  then have "r \<noteq> Panic"
    using request_total [OF assms(4,3,2) life_balanced [OF assms(1,2)]] by blast
  then show ?thesis
    using client_life.requested [OF assms(1,4)] request_shows assms(4) by blast
qed

text \<open>An instance: a second request after the sample request, whose token could not be stored.\<close>

theorem request_never_panics_witness:
  "\<exists>s r s'. client_life sample_env unlimited sample_config s \<and> cl_receipts (sy_cl s) \<noteq> []
     \<and> request sample_env unlimited sample_config ''GET'' ''u'' None s = (r, s') \<and> r \<noteq> Panic"
proof -
  obtain s where life: "client_life sample_env unlimited sample_config s"
    and rcs: "spent (\<lambda>_. True) (cl_receipts (sy_cl s)) = 1001"
    using sample_life by blast
  have ports: "ports_return sample_env" by (simp add: ports_return_def sample_env_def)
  obtain r s' where next1: "request sample_env unlimited sample_config ''GET'' ''u'' None s = (r, s')" by fastforce
  have "cl_receipts (sy_cl s) \<noteq> []" using rcs by (auto simp: spent_def)
  then show ?thesis using request_never_panics [OF life sample_clock ports next1] life next1 by blast
qed

end
