(* ===== verification/Backend_Port.thy ===== *)
theory Backend_Port
  imports Proto_Types
begin

text \<open>
  What the backend crates (\<open>l402-lnd\<close>, \<open>l402-cln\<close>, \<open>l402-nwc\<close>, \<open>l402-swissknife\<close>) share. A backend
  sends requests to a node or wallet; the remote is a function from requests to answers, and every
  operation also returns the requests it sent, in order. The contract that the client relies on
  (the doc comments of \<open>LnBackend\<close> in \<open>crates/l402-proto/src/port.rs\<close>) is the locale \<open>ln_backend\<close>.
\<close>

section \<open>What the operating system and the libraries provide\<close>

text \<open>
  \<open>codec\<close>: the functions of the crates \<open>hex\<close>, \<open>sha2\<close> and \<open>base64\<close>, a failure as the text of its
  error. \<open>host\<close>: whether the target is native (not
  \<open>wasm32\<close>), environment variables, files, and the crates that build an HTTP client; the client
  is reduced to the two settings that the sources choose.
\<close>

record codec =
  cd_hex :: "string \<Rightarrow> string"
  cd_unhex :: "string \<Rightarrow> string + string"
  cd_sha256 :: "string \<Rightarrow> string"
  cd_unbase64 :: "string \<Rightarrow> string + string"

record http_client =
  hc_follows_redirects :: bool
  hc_trusted_ca :: "string option"

record host =
  ho_native :: bool
  ho_env :: "string \<Rightarrow> string option"
  ho_read_file :: "string \<Rightarrow> string + string"
  ho_certificate :: "string \<Rightarrow> string + string"
  ho_build_client :: "http_client \<Rightarrow> string option"

definition env_or :: "host \<Rightarrow> string \<Rightarrow> string \<Rightarrow> string" where
  "env_or h name fallback = (case ho_env h name of Some v \<Rightarrow> v | None \<Rightarrow> fallback)"

definition expand_home :: "host \<Rightarrow> string \<Rightarrow> string" where
  "expand_home h path =
     (case strip_prefix ''~/'' path of
        None \<Rightarrow> path
      | Some rest \<Rightarrow> (case ho_env h ''HOME'' of
            Some home \<Rightarrow> home @ ''/'' @ rest
          | None \<Rightarrow> path))"

section \<open>HTTP calls\<close>

text \<open>A request with its authentication header and JSON body, and the answer: a failure of the
  transport, or a status with a body that may fail to arrive.\<close>

datatype json =
    JString string
  | JNumber nat
  | JObject "(string \<times> json) list"

record http_call =
  hq_method :: string
  hq_url :: string
  hq_auth :: "string \<times> string"
  hq_json :: "json option"

datatype http_reply =
    NoReply string
  | Reply u16 "string + string"

definition is_success :: "u16 \<Rightarrow> bool" where
  "is_success status \<longleftrightarrow> 200 \<le> status \<and> status < 300"

definition text_or_default :: "string + string \<Rightarrow> string" where
  "text_or_default body = (case body of Inl _ \<Rightarrow> [] | Inr t \<Rightarrow> t)"

definition show_u16 :: "u16 \<Rightarrow> string" where
  "show_u16 n = show_nat (unat n)"

text \<open>\<open>or\<close>, \<open>unwrap_or\<close> and \<open>unwrap_or_default\<close> of an option.\<close>

definition opt_or :: "'a option \<Rightarrow> 'a option \<Rightarrow> 'a option" where
  "opt_or a b = (case a of None \<Rightarrow> b | Some x \<Rightarrow> Some x)"

definition opt_default :: "'a \<Rightarrow> 'a option \<Rightarrow> 'a" where
  "opt_default d a = (case a of None \<Rightarrow> d | Some x \<Rightarrow> x)"

lemma opt_simps [simp]:
  "opt_or None b = b" "opt_or (Some x) b = Some x" "opt_default d None = d" "opt_default d (Some x) = x"
  by (simp_all add: opt_or_def opt_default_def)

text \<open>The order of a payment that a JSON body carries, for the keys of the backend at hand.\<close>

fun json_string :: "string \<Rightarrow> json \<Rightarrow> string option" where
  "json_string key (JObject kvs) = (case map_of kvs key of Some (JString s) \<Rightarrow> Some s | _ \<Rightarrow> None)"
| "json_string key _ = None"

fun json_number :: "string \<Rightarrow> json \<Rightarrow> nat option" where
  "json_number key (JObject kvs) = (case map_of kvs key of Some (JNumber n) \<Rightarrow> Some n | _ \<Rightarrow> None)"
| "json_number key _ = None"

section \<open>The contract of a backend\<close>

text \<open>
  \<open>pay remote bolt11 max_fee_sats\<close> is \<open>pay_invoice\<close> against a remote. \<open>order\<close> reads the invoice and
  the fee cap in millisatoshis out of a request, \<open>confirms_failure\<close> says of an answer that the
  remote reports the payment as finally failed.
\<close>

locale ln_backend =
  fixes supports_fee_limit :: bool
    and pay :: "('q \<Rightarrow> 'a) \<Rightarrow> string \<Rightarrow> u64 \<Rightarrow> (payment_result, client_error) rres \<times> 'q list"
    and order :: "'q \<Rightarrow> (string \<times> nat) option"
    and confirms_failure :: "'a \<Rightarrow> bool"
  assumes submits_order: "pay remote bolt11 cap = (r, qs) \<Longrightarrow> q \<in> set qs \<Longrightarrow>
        \<exists>fee. order q = Some (bolt11, fee) \<and> fee \<le> 1000 * unat cap"
    and submits_once: "pay remote bolt11 cap = (r, qs) \<Longrightarrow> length qs \<le> 1"
    and uncapped_refuses: "\<not> supports_fee_limit \<Longrightarrow> pay remote bolt11 cap = (Err FeeLimitUnsupported, [])"
    and capped_supported: "supports_fee_limit \<Longrightarrow> fst (pay remote bolt11 cap) \<noteq> Err FeeLimitUnsupported"
    and rejection_confirmed: "pay remote bolt11 cap = (Err (PaymentRejected reason), qs) \<Longrightarrow>
        \<exists>q \<in> set qs. confirms_failure (remote q)"
    and success_submitted: "pay remote bolt11 cap = (Ok p, qs) \<Longrightarrow> qs \<noteq> []"
    and never_panics: "fst (pay remote bolt11 cap) \<noteq> Panic"
begin

text \<open>
  What the client does on an error: it gives the reservation back on \<open>PaymentRejected\<close> and
  \<open>FeeLimitUnsupported\<close>. It never does so for a payment that may yet settle.
\<close>

lemma released_was_not_paid:
  assumes "pay remote bolt11 cap = (Err e, qs)"
    and "e = FeeLimitUnsupported \<or> (\<exists>reason. e = PaymentRejected reason)"
  shows "qs = [] \<or> (\<exists>q. qs = [q] \<and> order q \<noteq> None \<and> confirms_failure (remote q))"
proof (cases "e = FeeLimitUnsupported")
  case True
  then have "\<not> supports_fee_limit" using capped_supported [of remote bolt11 cap] assms(1) by auto
  then show ?thesis using uncapped_refuses [of remote bolt11 cap] assms(1) by simp
next
  case False
  then obtain reason where "e = PaymentRejected reason" using assms(2) by auto
  then obtain q where q: "q \<in> set qs" "confirms_failure (remote q)"
    using rejection_confirmed assms(1) by blast
  then have "qs = [q]" using submits_once [OF assms(1)] by (cases qs) auto
  then show ?thesis using q submits_order [OF assms(1) q(1)] by auto
qed

text \<open>Every request that leaves is the one order for this invoice, capped by the granted fee.\<close>

lemma orders_within_cap:
  assumes "pay remote bolt11 cap = (r, qs)"
  shows "qs = [] \<or> (\<exists>q fee. qs = [q] \<and> order q = Some (bolt11, fee) \<and> fee \<le> 1000 * unat cap)"
  using submits_order [OF assms] submits_once [OF assms] by (cases qs) auto

lemma paid_under_cap:
  assumes "pay remote bolt11 cap = (Ok p, qs)"
  shows "supports_fee_limit \<and> (\<exists>q fee. qs = [q] \<and> order q = Some (bolt11, fee) \<and> fee \<le> 1000 * unat cap)"
  using orders_within_cap [OF assms] success_submitted [OF assms] uncapped_refuses [of remote bolt11 cap] assms
  by auto

end

section \<open>Rounding of what nodes report\<close>

text \<open>Amounts arrive in millisatoshis and are rounded up.\<close>

definition covers_msat :: "u64 \<Rightarrow> u64 \<Rightarrow> bool" where
  "covers_msat sats msat \<longleftrightarrow> unat msat \<le> 1000 * unat sats \<and> 1000 * unat sats < unat msat + 1000"

lemma div_ceil_covers_msat [simp]: "covers_msat (div_ceil msat 1000) msat"
  using div_ceil_covers [of msat] div_ceil_tight [of msat] by (simp add: covers_msat_def)

text \<open>The fee in millisatoshis of a saturated cap.\<close>

lemma saturating_msat_le: "unat (saturating_mul cap 1000) \<le> 1000 * unat cap"
  by (simp add: unat_saturating_mul mult.commute)

end
