(* ===== verification/Lnd.thy ===== *)
theory Lnd
  imports Backend_Port
begin

text \<open>
  \<open>crates/l402-lnd\<close>: the REST backend (\<open>rest.rs\<close>) and the gRPC backend (\<open>grpc.rs\<close>) for LND, with
  their error type. Reading JSON and the generated gRPC stubs are parameters: a parser from texts,
  and answers in the terms of the generated message types.
\<close>

section \<open>Errors\<close>

datatype lnd_error =
    LndTransport string
  | LndRpc string
  | LndApi u16 string
  | LndIo string
  | LndPayment string
  | LndDeserialize string

fun lnd_error_display :: "lnd_error \<Rightarrow> string" where
  "lnd_error_display (LndTransport e) = ''LND transport error: '' @ e"
| "lnd_error_display (LndRpc e) = ''LND gRPC error: '' @ e"
| "lnd_error_display (LndApi status body) =
     ''LND REST API error ('' @ show_u16 status @ ''): '' @ body"
| "lnd_error_display (LndIo e) = ''IO error: '' @ e"
| "lnd_error_display (LndPayment reason) = ''payment failed: '' @ reason"
| "lnd_error_display (LndDeserialize e) = ''deserialization error: '' @ e"

fun from_lnd_error :: "lnd_error \<Rightarrow> client_error" where
  "from_lnd_error (LndPayment reason) = PaymentFailed reason"
| "from_lnd_error other = Backend (lnd_error_display other)"

lemma from_lnd_error_ambiguous [simp]:
  "from_lnd_error e \<noteq> PaymentRejected reason" "from_lnd_error e \<noteq> FeeLimitUnsupported"
  by (cases e; simp)+

section \<open>Construction of the REST backend\<close>

record lnd_rest =
  ld_client :: http_client
  ld_url :: string
  ld_macaroon :: string

definition lnd_rest_with_client :: "string \<Rightarrow> string \<Rightarrow> http_client \<Rightarrow> lnd_rest" where
  "lnd_rest_with_client url macaroon client =
     \<lparr>ld_client = client, ld_url = trim_end_matches (CHR ''/'') url, ld_macaroon = macaroon\<rparr>"

definition lnd_rest_new :: "host \<Rightarrow> string \<Rightarrow> string \<Rightarrow> (lnd_rest, lnd_error) rres" where
  "lnd_rest_new h url macaroon =
     (let client = \<lparr>hc_follows_redirects = \<not> ho_native h, hc_trusted_ca = None\<rparr> in
      case ho_build_client h client of
        Some e \<Rightarrow> Err (LndTransport (''failed to build HTTP client: '' @ e))
      | None \<Rightarrow> Ok (lnd_rest_with_client url macaroon client))"

definition lnd_rest_with_ca_pem ::
  "host \<Rightarrow> string \<Rightarrow> string \<Rightarrow> string \<Rightarrow> (lnd_rest, lnd_error) rres" where
  "lnd_rest_with_ca_pem h url macaroon ca_pem =
     (case ho_certificate h ca_pem of
        Inl e \<Rightarrow> Err (LndTransport (''invalid CA certificate: '' @ e))
      | Inr ca \<Rightarrow>
         (let client = \<lparr>hc_follows_redirects = False, hc_trusted_ca = Some ca\<rparr> in
          case ho_build_client h client of
            Some e \<Rightarrow> Err (LndTransport (''failed to build HTTP client: '' @ e))
          | None \<Rightarrow> Ok (lnd_rest_with_client url macaroon client)))"

definition lnd_read :: "host \<Rightarrow> string \<Rightarrow> (string, lnd_error) rres" where
  "lnd_read h path = (case ho_read_file h path of Inl e \<Rightarrow> Err (LndIo e) | Inr bytes \<Rightarrow> Ok bytes)"

definition lnd_env_macaroon :: "codec \<Rightarrow> host \<Rightarrow> (string, lnd_error) rres" where
  "lnd_env_macaroon C h =
     (case ho_env h ''LND_MACAROON_HEX'' of
        Some hex \<Rightarrow> Ok hex
      | None \<Rightarrow> (case ho_env h ''LND_MACAROON_PATH'' of
          Some path \<Rightarrow> rbind (lnd_read h path) (\<lambda>bytes. Ok (cd_hex C bytes))
        | None \<Rightarrow> Err (LndPayment ''neither LND_MACAROON_HEX nor LND_MACAROON_PATH is set'')))"

definition lnd_rest_from_env :: "codec \<Rightarrow> host \<Rightarrow> (lnd_rest, lnd_error) rres" where
  "lnd_rest_from_env C h =
     (let url = env_or h ''LND_REST_URL'' ''https://localhost:8080'' in
      rbind (lnd_env_macaroon C h) (\<lambda>macaroon.
        case ho_env h ''LND_REST_CA_CERT_PATH'' of
          Some path \<Rightarrow> rbind (lnd_read h path) (\<lambda>pem. lnd_rest_with_ca_pem h url macaroon pem)
        | None \<Rightarrow> lnd_rest_new h url macaroon))"

section \<open>Payment updates\<close>

record payment_update =
  pu_status :: "string option"
  pu_payment_preimage :: "string option"
  pu_payment_preimage_camel :: "string option"
  pu_payment_hash :: "string option"
  pu_payment_hash_camel :: "string option"
  pu_value_sat :: "string option"
  pu_value_sat_camel :: "string option"
  pu_value_msat :: "string option"
  pu_value_msat_camel :: "string option"
  pu_fee_sat :: "string option"
  pu_fee_sat_camel :: "string option"
  pu_fee_msat :: "string option"
  pu_fee_msat_camel :: "string option"
  pu_failure_reason :: "string option"

record send_payment_response =
  sp_result :: "payment_update option"
  sp_flat :: payment_update

definition update_preimage :: "payment_update \<Rightarrow> string option" where
  "update_preimage u = opt_or (pu_payment_preimage u) (pu_payment_preimage_camel u)"

definition update_hash :: "payment_update \<Rightarrow> string option" where
  "update_hash u = opt_or (pu_payment_hash u) (pu_payment_hash_camel u)"

definition update_amount_sats :: "payment_update \<Rightarrow> u64" where
  "update_amount_sats u =
     (case opt_or (pu_value_msat u) (pu_value_msat_camel u) of
        Some msat \<Rightarrow> div_ceil (opt_default 0 (parse_u64 msat)) 1000
      | None \<Rightarrow> opt_default 0 (Option.bind (opt_or (pu_value_sat u) (pu_value_sat_camel u)) parse_u64))"

definition update_fee_sats :: "payment_update \<Rightarrow> u64" where
  "update_fee_sats u =
     (case opt_or (pu_fee_msat u) (pu_fee_msat_camel u) of
        Some msat \<Rightarrow> div_ceil (opt_default 0 (parse_u64 msat)) 1000
      | None \<Rightarrow> opt_default 0 (Option.bind (opt_or (pu_fee_sat u) (pu_fee_sat_camel u)) parse_u64))"

definition is_succeeded :: "payment_update \<Rightarrow> bool" where
  "is_succeeded u \<longleftrightarrow> pu_status u = Some ''SUCCEEDED''"

definition is_failed :: "payment_update \<Rightarrow> bool" where
  "is_failed u \<longleftrightarrow> pu_status u = Some ''FAILED''"

section \<open>Proofs of payment\<close>

definition bytes_field_to_hex :: "codec \<Rightarrow> string \<Rightarrow> (string, lnd_error) rres" where
  "bytes_field_to_hex C raw =
     (if raw = [] then Err (LndDeserialize ''empty bytes field'')
      else if length raw = 64 \<and> list_all is_ascii_hexdigit raw then Ok (to_ascii_lowercase raw)
      else case cd_unbase64 C raw of
          Inl e \<Rightarrow> Err (LndDeserialize (''invalid base64 in bytes field: '' @ e))
        | Inr bytes \<Rightarrow> Ok (cd_hex C bytes))"

definition verify_preimage :: "codec \<Rightarrow> string \<Rightarrow> string \<Rightarrow> (unit, lnd_error) rres" where
  "verify_preimage C preimage_hex payment_hash_hex =
     (case cd_unhex C preimage_hex of
        Inl e \<Rightarrow> Err (LndDeserialize (''invalid preimage hex: '' @ e))
      | Inr bytes \<Rightarrow>
         (let computed = cd_hex C (cd_sha256 C bytes) in
          if computed \<noteq> payment_hash_hex
          then Err (LndPayment (''preimage verification failed: SHA256(preimage) '' @ computed
                 @ '' != payment_hash '' @ payment_hash_hex))
          else Ok ()))"

section \<open>The update stream\<close>

text \<open>\<open>str::lines\<close>: pieces ended by a line feed, without it and a carriage return before it; the rest
  after the last line feed is a line only if it is not empty.\<close>

fun strip_cr :: "string \<Rightarrow> string" where
  "strip_cr (c # rest) = (if c = CHR 0x0D then rest else c # rest)"
| "strip_cr [] = []"

fun lines_from :: "string \<Rightarrow> string \<Rightarrow> string list" where
  "lines_from acc [] = (if acc = [] then [] else [rev acc])"
| "lines_from acc (c # s) =
     (if c = CHR 0x0A then rev (strip_cr acc) # lines_from [] s else lines_from (c # acc) s)"

definition stream_lines :: "string \<Rightarrow> string list" where
  "stream_lines text = filter (\<lambda>l. trim l \<noteq> []) (lines_from [] (trim text))"

type_synonym update_parser = "string \<Rightarrow> string + send_payment_response"

definition select_update :: "send_payment_response \<Rightarrow> payment_update" where
  "select_update r = (case sp_result r of Some u \<Rightarrow> u | None \<Rightarrow> sp_flat r)"

fun scan_updates ::
  "update_parser \<Rightarrow> string list \<Rightarrow> payment_update option
   \<Rightarrow> (payment_update option \<times> payment_update option, lnd_error) rres" where
  "scan_updates parse [] last_update = Ok (None, last_update)"
| "scan_updates parse (line # lines) last_update =
     (case parse line of
        Inl e \<Rightarrow> Err (LndDeserialize (''failed to parse payment response: '' @ e))
      | Inr r \<Rightarrow>
         (let update = select_update r;
              last_update' = (case last_update of None \<Rightarrow> Some update | Some u \<Rightarrow> Some u) in
          if is_succeeded update then Ok (Some update, last_update')
          else scan_updates parse lines last_update'))"

definition not_succeeded :: "payment_update option \<Rightarrow> client_error" where
  "not_succeeded last_update =
     (case last_update of
        Some update \<Rightarrow>
          if is_failed update then PaymentRejected (opt_default ''FAILED'' (pu_failure_reason update))
          else from_lnd_error (LndPayment (opt_default ''unknown'' (pu_status update)))
      | None \<Rightarrow> from_lnd_error (LndPayment ''unknown''))"

definition payment_proof :: "codec \<Rightarrow> payment_update \<Rightarrow> (payment_result, lnd_error) rres" where
  "payment_proof C payment =
     rbind (ok_or (LndPayment ''payment succeeded but returned empty preimage'') (update_preimage payment))
       (\<lambda>preimage_raw.
     rbind (ok_or (LndPayment ''payment succeeded but returned empty hash'') (update_hash payment))
       (\<lambda>hash_raw.
     rbind (bytes_field_to_hex C preimage_raw) (\<lambda>preimage.
     rbind (bytes_field_to_hex C hash_raw) (\<lambda>payment_hash.
     rbind (verify_preimage C preimage payment_hash) (\<lambda>_.
     Ok \<lparr>pr_preimage = preimage, pr_payment_hash = payment_hash,
         pr_amount_sats = update_amount_sats payment, pr_fee_sats = update_fee_sats payment\<rparr>)))))"

section \<open>The REST backend\<close>

definition lnd_call :: "lnd_rest \<Rightarrow> string \<Rightarrow> string \<Rightarrow> json option \<Rightarrow> http_call" where
  "lnd_call b verb path body =
     \<lparr>hq_method = verb, hq_url = ld_url b @ path,
      hq_auth = (''Grpc-Metadata-macaroon'', ld_macaroon b), hq_json = body\<rparr>"

text \<open>The checks every call makes on its answer, up to the body.\<close>

definition lnd_reply_body :: "http_reply \<Rightarrow> (string + string, lnd_error) rres" where
  "lnd_reply_body reply =
     (case reply of
        NoReply e \<Rightarrow> Err (LndTransport e)
      | Reply status body \<Rightarrow>
          if \<not> is_success status then Err (LndApi status (text_or_default body)) else Ok body)"

definition lnd_rest_supports_fee_limit :: bool where
  "lnd_rest_supports_fee_limit = True"

definition lnd_payment_body :: "string \<Rightarrow> u64 \<Rightarrow> json" where
  "lnd_payment_body bolt11 max_fee_sats =
     JObject [(''payment_request'', JString bolt11), (''fee_limit_sat'', JNumber (unat max_fee_sats)),
       (''timeout_seconds'', JNumber 60)]"

definition lnd_read_stream :: "codec \<Rightarrow> update_parser \<Rightarrow> string \<Rightarrow> (payment_result, client_error) rres" where
  "lnd_read_stream C parse text =
     (let lines = stream_lines text in
      if lines = [] then Err (from_lnd_error (LndPayment ''empty response from /v2/router/send''))
      else rbind (map_err from_lnd_error (scan_updates parse (rev lines) None)) (\<lambda>(succeeded, last_update).
        case succeeded of
          None \<Rightarrow> Err (not_succeeded last_update)
        | Some payment \<Rightarrow> map_err from_lnd_error (payment_proof C payment)))"

definition lnd_rest_answer :: "codec \<Rightarrow> update_parser \<Rightarrow> http_reply \<Rightarrow> (payment_result, client_error) rres" where
  "lnd_rest_answer C parse reply =
     rbind (map_err from_lnd_error (lnd_reply_body reply)) (\<lambda>body.
       case body of
         Inl e \<Rightarrow> Err (from_lnd_error (LndTransport e))
       | Inr text \<Rightarrow> lnd_read_stream C parse text)"

definition lnd_rest_pay_invoice ::
  "codec \<Rightarrow> update_parser \<Rightarrow> lnd_rest \<Rightarrow> (http_call \<Rightarrow> http_reply) \<Rightarrow> string \<Rightarrow> u64
   \<Rightarrow> (payment_result, client_error) rres \<times> http_call list" where
  "lnd_rest_pay_invoice C parse b remote bolt11 max_fee_sats =
     (let q = lnd_call b ''POST'' ''/v2/router/send'' (Some (lnd_payment_body bolt11 max_fee_sats)) in
      (lnd_rest_answer C parse (remote q), [q]))"

text \<open>A body read as JSON: a failure to read it and a failure to parse it are the same error.\<close>

definition lnd_json :: "string \<Rightarrow> (string \<Rightarrow> string + 'a) \<Rightarrow> http_reply \<Rightarrow> ('a, client_error) rres" where
  "lnd_json what parse reply = map_err from_lnd_error
     (rbind (lnd_reply_body reply) (\<lambda>body.
        case (case body of Inl e \<Rightarrow> Inl e | Inr text \<Rightarrow> parse text) of
          Inl e \<Rightarrow> Err (LndDeserialize (''failed to parse '' @ what @ '' response: '' @ e))
        | Inr x \<Rightarrow> Ok x))"

text \<open>\<open>ChannelBalanceResponse\<close> is its \<open>local_balance.sat\<close>, both optional.\<close>

definition lnd_rest_get_balance ::
  "(string \<Rightarrow> string + string option option) \<Rightarrow> lnd_rest \<Rightarrow> (http_call \<Rightarrow> http_reply) \<Rightarrow> (u64, client_error) rres" where
  "lnd_rest_get_balance parse b remote =
     rbind (lnd_json ''balance'' parse (remote (lnd_call b ''GET'' ''/v1/balance/channels'' None)))
       (\<lambda>local_balance. Ok (opt_default 0 (Option.bind (Option.bind local_balance id) parse_u64)))"

record lnd_info =
  li_identity_pubkey :: "string option"
  li_alias :: "string option"
  li_num_active_channels :: "u32 option"

definition lnd_rest_get_info ::
  "(string \<Rightarrow> string + lnd_info) \<Rightarrow> lnd_rest \<Rightarrow> (http_call \<Rightarrow> http_reply) \<Rightarrow> (node_info, client_error) rres" where
  "lnd_rest_get_info parse b remote =
     rbind (lnd_json ''getinfo'' parse (remote (lnd_call b ''GET'' ''/v1/getinfo'' None)))
       (\<lambda>data. Ok \<lparr>ni_pubkey = opt_default [] (li_identity_pubkey data),
                  ni_alias = opt_default [] (li_alias data),
                  ni_num_active_channels = opt_default 0 (li_num_active_channels data)\<rparr>)"

section \<open>The gRPC backend\<close>

text \<open>The message types come from the generated \<open>lnrpc\<close>; signed 64-bit fields are words read by
  \<open>sint\<close>.\<close>

datatype payment_status = Unknown | InFlight | Succeeded | Failed | Initiated

fun payment_status_debug :: "payment_status \<Rightarrow> string" where
  "payment_status_debug Unknown = ''Unknown''"
| "payment_status_debug InFlight = ''InFlight''"
| "payment_status_debug Succeeded = ''Succeeded''"
| "payment_status_debug Failed = ''Failed''"
| "payment_status_debug Initiated = ''Initiated''"

datatype failure_reason =
    FailureReasonNone
  | FailureReasonTimeout
  | FailureReasonNoRoute
  | FailureReasonError
  | FailureReasonIncorrectPaymentDetails
  | FailureReasonInsufficientBalance
  | FailureReasonCanceled

fun failure_reason_debug :: "failure_reason \<Rightarrow> string" where
  "failure_reason_debug FailureReasonNone = ''FailureReasonNone''"
| "failure_reason_debug FailureReasonTimeout = ''FailureReasonTimeout''"
| "failure_reason_debug FailureReasonNoRoute = ''FailureReasonNoRoute''"
| "failure_reason_debug FailureReasonError = ''FailureReasonError''"
| "failure_reason_debug FailureReasonIncorrectPaymentDetails = ''FailureReasonIncorrectPaymentDetails''"
| "failure_reason_debug FailureReasonInsufficientBalance = ''FailureReasonInsufficientBalance''"
| "failure_reason_debug FailureReasonCanceled = ''FailureReasonCanceled''"

record grpc_payment =
  gp_status :: payment_status
  gp_payment_preimage :: string
  gp_payment_hash :: string
  gp_value_msat :: "64 word"
  gp_fee_msat :: "64 word"
  gp_failure_reason :: failure_reason

record send_payment_request =
  sr_payment_request :: string
  sr_fee_limit_sat :: "64 word"
  sr_timeout_seconds :: nat
  sr_no_inflight_updates :: bool

record lnd_grpc =
  lg_macaroon :: string
  lg_ca :: string
  lg_domain :: string
  lg_address :: string

text \<open>\<open>channel\<close>: what building an endpoint from the address, and connecting to it with the given
  certificate, fail with.\<close>

record channel_host =
  ch_from_shared :: "string \<Rightarrow> string option"
  ch_connect :: "string \<Rightarrow> string \<Rightarrow> string option"

definition lnd_grpc_connect ::
  "codec \<Rightarrow> host \<Rightarrow> channel_host \<Rightarrow> string \<Rightarrow> string \<Rightarrow> string \<Rightarrow> (lnd_grpc, lnd_error) rres" where
  "lnd_grpc_connect C h net address tls_cert_path macaroon_path =
     rbind (lnd_read h tls_cert_path) (\<lambda>tls_cert.
     rbind (lnd_read h macaroon_path) (\<lambda>macaroon_bytes.
     case ch_from_shared net address of
       Some e \<Rightarrow> Err (LndPayment (''invalid address: '' @ e))
     | None \<Rightarrow> (case ch_connect net address tls_cert of
         Some e \<Rightarrow> Err (LndTransport e)
       | None \<Rightarrow> Ok \<lparr>lg_macaroon = cd_hex C macaroon_bytes, lg_ca = tls_cert,
                    lg_domain = ''localhost'', lg_address = address\<rparr>)))"

definition lnd_grpc_from_env :: "codec \<Rightarrow> host \<Rightarrow> channel_host \<Rightarrow> (lnd_grpc, lnd_error) rres" where
  "lnd_grpc_from_env C h net =
     lnd_grpc_connect C h net (env_or h ''LND_GRPC_HOST'' ''https://localhost:10009'')
       (env_or h ''LND_TLS_CERT_PATH'' (expand_home h ''~/.lnd/tls.cert''))
       (env_or h ''LND_MACAROON_PATH''
         (expand_home h ''~/.lnd/data/chain/bitcoin/mainnet/admin.macaroon''))"

text \<open>\<open>to_metadata\<close> parses a metadata value; a failing interceptor ends the call before it is sent,
  with the text of the status.\<close>

definition intercept :: "(string \<Rightarrow> string option) \<Rightarrow> (string \<Rightarrow> string) \<Rightarrow> lnd_grpc \<Rightarrow> string + string" where
  "intercept to_metadata internal b =
     (case to_metadata (lg_macaroon b) of
        None \<Rightarrow> Inl (internal ''invalid macaroon metadata value'')
      | Some v \<Rightarrow> Inr v)"

definition i64_max_word :: "64 word" where
  "i64_max_word = 9223372036854775807"

definition lnd_grpc_request :: "string \<Rightarrow> u64 \<Rightarrow> send_payment_request" where
  "lnd_grpc_request bolt11 max_fee_sats =
     \<lparr>sr_payment_request = bolt11,
      sr_fee_limit_sat = (if max_fee_sats \<le> i64_max_word then max_fee_sats else i64_max_word),
      sr_timeout_seconds = 60, sr_no_inflight_updates = True\<rparr>"

definition u64_from_i64 :: "64 word \<Rightarrow> u64 option" where
  "u64_from_i64 x = (if 0 \<le> sint x then Some x else None)"

text \<open>The answer to the call: a status instead of a stream, or what the first message of the stream
  is: a status, the end, or a payment.\<close>

datatype grpc_stream =
    NoStream string
  | Message "string + grpc_payment option"

definition lnd_grpc_supports_fee_limit :: bool where
  "lnd_grpc_supports_fee_limit = True"

definition lnd_grpc_answer :: "grpc_stream \<Rightarrow> (payment_result, client_error) rres" where
  "lnd_grpc_answer answer =
     (case answer of
        NoStream e \<Rightarrow> Err (from_lnd_error (LndRpc e))
      | Message (Inl e) \<Rightarrow> Err (from_lnd_error (LndRpc e))
      | Message (Inr None) \<Rightarrow> Err (from_lnd_error (LndPayment ''no payment response received''))
      | Message (Inr (Some payment)) \<Rightarrow>
         (case gp_status payment of
            Succeeded \<Rightarrow>
             (let value_msat = opt_default 0 (u64_from_i64 (gp_value_msat payment));
                  fee_msat = opt_default 0 (u64_from_i64 (gp_fee_msat payment)) in
              Ok \<lparr>pr_preimage = gp_payment_preimage payment, pr_payment_hash = gp_payment_hash payment,
                  pr_amount_sats = div_ceil value_msat 1000, pr_fee_sats = div_ceil fee_msat 1000\<rparr>)
          | Failed \<Rightarrow> Err (PaymentRejected (failure_reason_debug (gp_failure_reason payment)))
          | status \<Rightarrow> Err (from_lnd_error
              (LndPayment (''unexpected status: '' @ payment_status_debug status)))))"

definition lnd_grpc_pay_invoice ::
  "(string \<Rightarrow> string option) \<Rightarrow> (string \<Rightarrow> string) \<Rightarrow> lnd_grpc
   \<Rightarrow> (string \<times> send_payment_request \<Rightarrow> grpc_stream) \<Rightarrow> string \<Rightarrow> u64
   \<Rightarrow> (payment_result, client_error) rres \<times> (string \<times> send_payment_request) list" where
  "lnd_grpc_pay_invoice to_metadata internal b remote bolt11 max_fee_sats =
     (case intercept to_metadata internal b of
        Inl e \<Rightarrow> (Err (from_lnd_error (LndRpc e)), [])
      | Inr macaroon \<Rightarrow>
         (let q = (macaroon, lnd_grpc_request bolt11 max_fee_sats) in
          (lnd_grpc_answer (remote q), [q])))"

text \<open>The unary calls: \<open>remote\<close> answers the macaroon with a status or with the fields read.\<close>

definition lnd_grpc_get_balance ::
  "(string \<Rightarrow> string option) \<Rightarrow> (string \<Rightarrow> string) \<Rightarrow> lnd_grpc \<Rightarrow> (string \<Rightarrow> string + u64 option)
   \<Rightarrow> (u64, client_error) rres" where
  "lnd_grpc_get_balance to_metadata internal b remote =
     (case (case intercept to_metadata internal b of Inl e \<Rightarrow> Inl e | Inr m \<Rightarrow> remote m) of
        Inl e \<Rightarrow> Err (from_lnd_error (LndRpc e))
      | Inr local_balance \<Rightarrow> Ok (opt_default 0 local_balance))"

definition lnd_grpc_get_info ::
  "(string \<Rightarrow> string option) \<Rightarrow> (string \<Rightarrow> string) \<Rightarrow> lnd_grpc
   \<Rightarrow> (string \<Rightarrow> string + (string \<times> string \<times> u32)) \<Rightarrow> (node_info, client_error) rres" where
  "lnd_grpc_get_info to_metadata internal b remote =
     (case (case intercept to_metadata internal b of Inl e \<Rightarrow> Inl e | Inr m \<Rightarrow> remote m) of
        Inl e \<Rightarrow> Err (from_lnd_error (LndRpc e))
      | Inr (identity_pubkey, alias, num_active_channels) \<Rightarrow>
          Ok \<lparr>ni_pubkey = identity_pubkey, ni_alias = alias,
              ni_num_active_channels = num_active_channels\<rparr>)"

section \<open>What the stream decides\<close>

text \<open>The node's final word that a payment has failed: the last update says so and none reports success.\<close>

definition lnd_stream_failed :: "update_parser \<Rightarrow> string \<Rightarrow> bool" where
  "lnd_stream_failed parse text =
     (case rev (stream_lines text) of
        [] \<Rightarrow> False
      | line # lines \<Rightarrow>
          (case parse line of Inl _ \<Rightarrow> False | Inr r \<Rightarrow> is_failed (select_update r))
          \<and> list_all (\<lambda>l. case parse l of Inl _ \<Rightarrow> False | Inr r \<Rightarrow> \<not> is_succeeded (select_update r))
              (line # lines))"

definition lnd_rest_confirms_failure :: "update_parser \<Rightarrow> http_reply \<Rightarrow> bool" where
  "lnd_rest_confirms_failure parse reply =
     (case reply of
        Reply status (Inr text) \<Rightarrow> is_success status \<and> lnd_stream_failed parse text
      | _ \<Rightarrow> False)"

definition lnd_rest_order :: "http_call \<Rightarrow> (string \<times> nat) option" where
  "lnd_rest_order q =
     (case hq_json q of
        None \<Rightarrow> None
      | Some j \<Rightarrow> (case (json_string ''payment_request'' j, json_number ''fee_limit_sat'' j) of
            (Some bolt11, Some n) \<Rightarrow> Some (bolt11, 1000 * n)
          | _ \<Rightarrow> None))"

text \<open>A line that is an update, but not a report of success (\<open>FAILED\<close> is one, like \<open>IN_FLIGHT\<close>).\<close>

definition unsuccessful_line :: "update_parser \<Rightarrow> string \<Rightarrow> bool" where
  "unsuccessful_line parse l = (case parse l of Inl _ \<Rightarrow> False | Inr r \<Rightarrow> \<not> is_succeeded (select_update r))"

lemma scan_updates_Some:
  assumes "scan_updates parse ls last_update = Ok (Some u, last')"
  shows "\<exists>as l bs r. ls = as @ l # bs \<and> list_all (unsuccessful_line parse) as \<and> parse l = Inr r
    \<and> u = select_update r \<and> is_succeeded u"
  using assms
proof (induction ls arbitrary: last_update)
  case (Cons l ls)
  from Cons.prems obtain r where r: "parse l = Inr r" by (cases "parse l") auto
  show ?case
  proof (cases "is_succeeded (select_update r)")
    case True
    then have "l # ls = [] @ l # ls \<and> u = select_update r \<and> is_succeeded u"
      using Cons.prems r by (simp add: Let_def)
    then show ?thesis using r by (intro exI [of _ "[] :: string list"]) auto
  next
    case False
    then obtain as l' bs r' where "ls = as @ l' # bs" "list_all (unsuccessful_line parse) as" "parse l' = Inr r'"
      "u = select_update r'" "is_succeeded u"
      using Cons.IH [of "case last_update of None \<Rightarrow> Some (select_update r) | Some u \<Rightarrow> Some u"] Cons.prems r
      by (auto simp: Let_def)
    then show ?thesis using r False by (intro exI [of _ "l # as"]) (auto simp: unsuccessful_line_def [of parse l])
  qed
qed simp

lemma scan_updates_None:
  "scan_updates parse ls last_update = Ok (None, last') \<Longrightarrow>
     list_all (unsuccessful_line parse) ls
     \<and> (last_update = None \<longrightarrow> ls \<noteq> [] \<longrightarrow> (\<exists>r. parse (hd ls) = Inr r \<and> last' = Some (select_update r)))
     \<and> (\<forall>u. last_update = Some u \<longrightarrow> last' = Some u)"
proof (induction ls arbitrary: last_update)
  case (Cons l ls)
  from Cons.prems obtain r where r: "parse l = Inr r" by (cases "parse l") auto
  have "\<not> is_succeeded (select_update r)" using Cons.prems r by (auto simp: Let_def split: if_splits)
  then show ?case using Cons.IH [of "case last_update of None \<Rightarrow> Some (select_update r) | Some u \<Rightarrow> Some u"]
      Cons.prems r by (cases last_update) (auto simp: Let_def unsuccessful_line_def)
qed simp

lemma scan_updates_not_Panic [simp]: "scan_updates parse ls last_update \<noteq> Panic"
  by (induction ls arbitrary: last_update) (auto simp: Let_def split: sum.splits)

lemma verify_preimage_Ok_iff:
  "verify_preimage C preimage hash = Ok v \<longleftrightarrow>
     (\<exists>bytes. cd_unhex C preimage = Inr bytes \<and> hash = cd_hex C (cd_sha256 C bytes))"
  by (cases "cd_unhex C preimage") (auto simp: verify_preimage_def Let_def)

text \<open>What a bytes field of an update says, in hexadecimal: LND writes base64, test networks hexadecimal.\<close>

definition bytes_field_is :: "codec \<Rightarrow> string \<Rightarrow> string \<Rightarrow> bool" where
  "bytes_field_is C raw hex \<longleftrightarrow>
     (if length raw = 64 \<and> (\<forall>c \<in> set raw. is_ascii_hexdigit c) then hex = to_ascii_lowercase raw
      else raw \<noteq> [] \<and> (\<exists>bytes. cd_unbase64 C raw = Inr bytes \<and> hex = cd_hex C bytes))"

lemma bytes_field_Ok_iff: "bytes_field_to_hex C raw = Ok hex \<longleftrightarrow> bytes_field_is C raw hex"
  by (auto simp: bytes_field_to_hex_def bytes_field_is_def list_all_iff split: sum.splits)

text \<open>A reported amount: the millisatoshis rounded up, or without them the satoshis; a field that is no
  number counts as zero.\<close>

definition amount_reported :: "u64 \<Rightarrow> string option \<Rightarrow> string option \<Rightarrow> bool" where
  "amount_reported sats msat sat \<longleftrightarrow>
     (case msat of
        Some m \<Rightarrow> (case parse_u64 m of Some v \<Rightarrow> covers_msat sats v | None \<Rightarrow> sats = 0)
      | None \<Rightarrow> (case sat of Some t \<Rightarrow> (case parse_u64 t of Some v \<Rightarrow> sats = v | None \<Rightarrow> sats = 0) | None \<Rightarrow> sats = 0))"

lemma div_ceil_zero: "div_ceil 0 1000 = 0"
  by (simp add: div_ceil_def)

lemma amounts_reported:
  "amount_reported (update_amount_sats u) (opt_or (pu_value_msat u) (pu_value_msat_camel u)) (opt_or (pu_value_sat u) (pu_value_sat_camel u))"
  "amount_reported (update_fee_sats u) (opt_or (pu_fee_msat u) (pu_fee_msat_camel u)) (opt_or (pu_fee_sat u) (pu_fee_sat_camel u))"
  by (auto simp: amount_reported_def update_amount_sats_def update_fee_sats_def div_ceil_zero split: option.split)

text \<open>A payment is the one that an update reports: its own proof, hashing to its own hash, and its amounts.\<close>

definition proven_by :: "codec \<Rightarrow> payment_result \<Rightarrow> payment_update \<Rightarrow> bool" where
  "proven_by C p u \<longleftrightarrow> pu_status u = Some ''SUCCEEDED''
   \<and> (\<exists>raw. opt_or (pu_payment_preimage u) (pu_payment_preimage_camel u) = Some raw \<and> bytes_field_is C raw (pr_preimage p))
   \<and> (\<exists>raw. opt_or (pu_payment_hash u) (pu_payment_hash_camel u) = Some raw \<and> bytes_field_is C raw (pr_payment_hash p))
   \<and> (\<exists>bytes. cd_unhex C (pr_preimage p) = Inr bytes \<and> pr_payment_hash p = cd_hex C (cd_sha256 C bytes))
   \<and> amount_reported (pr_amount_sats p) (opt_or (pu_value_msat u) (pu_value_msat_camel u)) (opt_or (pu_value_sat u) (pu_value_sat_camel u))
   \<and> amount_reported (pr_fee_sats p) (opt_or (pu_fee_msat u) (pu_fee_msat_camel u)) (opt_or (pu_fee_sat u) (pu_fee_sat_camel u))"

lemma payment_proof_Ok:
  assumes "payment_proof C u = Ok p" and "is_succeeded u"
  shows "proven_by C p u"
proof -
  obtain raw raw' where "update_preimage u = Some raw" "update_hash u = Some raw'"
    "bytes_field_to_hex C raw = Ok (pr_preimage p)" "bytes_field_to_hex C raw' = Ok (pr_payment_hash p)"
    "verify_preimage C (pr_preimage p) (pr_payment_hash p) = Ok ()"
    "pr_amount_sats p = update_amount_sats u" "pr_fee_sats p = update_fee_sats u"
    using assms(1) by (auto simp: payment_proof_def rbind_Ok_iff ok_or_def split: option.splits)
  then show ?thesis using assms(2) amounts_reported [of u]
    by (simp add: proven_by_def is_succeeded_def update_preimage_def update_hash_def bytes_field_Ok_iff verify_preimage_Ok_iff)
qed

lemma payment_proof_not_Panic [simp]: "payment_proof C u \<noteq> Panic"
  by (auto simp: payment_proof_def rbind_Panic_iff bytes_field_to_hex_def verify_preimage_def Let_def
      split: sum.splits if_splits)

lemma map_err_from_lnd [simp]:
  "map_err from_lnd_error m \<noteq> Err (PaymentRejected reason)"
  "map_err from_lnd_error m \<noteq> Err FeeLimitUnsupported"
  by (cases m; simp)+

lemma stream_failedI:
  assumes "scan_updates parse (rev (stream_lines text)) None = Ok (None, Some u)"
    and "stream_lines text \<noteq> []" and "is_failed u"
  shows "lnd_stream_failed parse text"
proof -
  obtain l ls where ls: "rev (stream_lines text) = l # ls" using assms(2) by (cases "rev (stream_lines text)") auto
  then show ?thesis using scan_updates_None [OF assms(1)] assms(3)
    by (auto simp: lnd_stream_failed_def unsuccessful_line_def [abs_def])
qed

lemma lnd_read_stream_rejected:
  assumes "lnd_read_stream C parse text = Err (PaymentRejected reason)"
  shows "lnd_stream_failed parse text"
proof -
  have ne: "stream_lines text \<noteq> []" using assms by (auto simp: lnd_read_stream_def)
  obtain s l where sc: "scan_updates parse (rev (stream_lines text)) None = Ok (s, l)"
    using assms ne by (cases "scan_updates parse (rev (stream_lines text)) None") (auto simp: lnd_read_stream_def)
  then have "s = None" using assms ne by (cases s) (auto simp: lnd_read_stream_def)
  moreover from this obtain u where "l = Some u" "is_failed u"
    using assms ne sc by (auto simp: lnd_read_stream_def not_succeeded_def split: option.splits if_splits)
  ultimately show ?thesis using stream_failedI [OF _ ne] sc by simp
qed

lemma not_succeeded_simps [simp]: "not_succeeded l \<noteq> FeeLimitUnsupported"
  by (auto simp: not_succeeded_def split: option.splits)

lemma lnd_read_stream_outcomes [simp]:
  "lnd_read_stream C parse text \<noteq> Panic" "lnd_read_stream C parse text \<noteq> Err FeeLimitUnsupported"
proof -
  have "lnd_read_stream C parse text \<noteq> Panic \<and> lnd_read_stream C parse text \<noteq> Err FeeLimitUnsupported"
  proof (cases "scan_updates parse (rev (stream_lines text)) None")
    case (Ok x)
    then show ?thesis by (cases x; cases "fst x") (simp_all add: lnd_read_stream_def Let_def)
  qed (simp_all add: lnd_read_stream_def Let_def)
  then show "lnd_read_stream C parse text \<noteq> Panic" "lnd_read_stream C parse text \<noteq> Err FeeLimitUnsupported"
    by simp_all
qed

lemma lnd_rest_answer_cases:
  "lnd_rest_answer C parse reply =
     (case reply of
        Reply status (Inr text) \<Rightarrow> if is_success status then lnd_read_stream C parse text
          else Err (from_lnd_error (LndApi status text))
      | Reply status (Inl e) \<Rightarrow> if is_success status then Err (from_lnd_error (LndTransport e))
          else Err (from_lnd_error (LndApi status []))
      | NoReply e \<Rightarrow> Err (from_lnd_error (LndTransport e)))"
  by (simp add: lnd_rest_answer_def lnd_reply_body_def text_or_default_def
      split: http_reply.split sum.split)

lemma lnd_rest_answer_outcomes [simp]:
  "lnd_rest_answer C parse reply \<noteq> Panic" "lnd_rest_answer C parse reply \<noteq> Err FeeLimitUnsupported"
  by (simp_all add: lnd_rest_answer_cases split: http_reply.split sum.split)

lemma lnd_rest_answer_rejected:
  "lnd_rest_answer C parse reply = Err (PaymentRejected reason) \<Longrightarrow> lnd_rest_confirms_failure parse reply"
  by (auto simp: lnd_rest_answer_cases lnd_rest_confirms_failure_def dest: lnd_read_stream_rejected
      split: http_reply.splits sum.splits if_splits)

lemma lnd_rest_order_call [simp]:
  "lnd_rest_order (lnd_call b v path (Some (lnd_payment_body bolt11 cap))) = Some (bolt11, 1000 * unat cap)"
  by (simp add: lnd_rest_order_def lnd_call_def lnd_payment_body_def)

text \<open>The REST backend keeps the contract of the port.\<close>

interpretation lnd_rest_backend: ln_backend lnd_rest_supports_fee_limit
  "lnd_rest_pay_invoice C parse b" lnd_rest_order "lnd_rest_confirms_failure parse" for C parse b
proof
  fix remote bolt11 cap reason qs
  assume "lnd_rest_pay_invoice C parse b remote bolt11 cap = (Err (PaymentRejected reason), qs)"
  then show "\<exists>q\<in>set qs. lnd_rest_confirms_failure parse (remote q)"
    using lnd_rest_answer_rejected by (auto simp: lnd_rest_pay_invoice_def Let_def)
qed (auto simp: lnd_rest_pay_invoice_def Let_def lnd_rest_supports_fee_limit_def)

text \<open>So does the gRPC backend.\<close>

definition lnd_grpc_order :: "string \<times> send_payment_request \<Rightarrow> (string \<times> nat) option" where
  "lnd_grpc_order q = Some (sr_payment_request (snd q), 1000 * unat (sr_fee_limit_sat (snd q)))"

definition lnd_grpc_confirms_failure :: "grpc_stream \<Rightarrow> bool" where
  "lnd_grpc_confirms_failure answer =
     (case answer of Message (Inr (Some payment)) \<Rightarrow> gp_status payment = Failed | _ \<Rightarrow> False)"

lemma lnd_grpc_answer_outcomes [simp]:
  "lnd_grpc_answer a \<noteq> Panic" "lnd_grpc_answer a \<noteq> Err FeeLimitUnsupported"
  by (auto simp: lnd_grpc_answer_def Let_def split: grpc_stream.splits sum.splits option.splits payment_status.splits)

lemma lnd_grpc_answer_rejected:
  "lnd_grpc_answer a = Err (PaymentRejected reason) \<Longrightarrow> lnd_grpc_confirms_failure a"
  by (auto simp: lnd_grpc_answer_def lnd_grpc_confirms_failure_def Let_def
      split: grpc_stream.splits sum.splits option.splits payment_status.splits)

lemma lnd_grpc_cap: "unat (sr_fee_limit_sat (lnd_grpc_request bolt11 cap)) \<le> unat cap"
  by (simp add: lnd_grpc_request_def i64_max_word_def word_le_nat_alt)

interpretation lnd_grpc_backend: ln_backend lnd_grpc_supports_fee_limit
  "lnd_grpc_pay_invoice to_metadata internal b" lnd_grpc_order lnd_grpc_confirms_failure
  for to_metadata internal b
proof
  fix remote bolt11 cap r qs q
  assume "lnd_grpc_pay_invoice to_metadata internal b remote bolt11 cap = (r, qs)" "q \<in> set qs"
  then have "snd q = lnd_grpc_request bolt11 cap"
    by (auto simp: lnd_grpc_pay_invoice_def Let_def split: sum.splits)
  moreover have "sr_payment_request (lnd_grpc_request bolt11 cap) = bolt11" by (simp add: lnd_grpc_request_def)
  ultimately show "\<exists>fee. lnd_grpc_order q = Some (bolt11, fee) \<and> fee \<le> 1000 * unat cap"
    using lnd_grpc_cap [of bolt11 cap] by (simp add: lnd_grpc_order_def)
next
  fix remote bolt11 cap reason qs
  assume "lnd_grpc_pay_invoice to_metadata internal b remote bolt11 cap = (Err (PaymentRejected reason), qs)"
  then show "\<exists>q\<in>set qs. lnd_grpc_confirms_failure (remote q)"
    using lnd_grpc_answer_rejected by (auto simp: lnd_grpc_pay_invoice_def Let_def split: sum.splits)
qed (auto simp: lnd_grpc_pay_invoice_def Let_def lnd_grpc_supports_fee_limit_def split: sum.splits)

lemma lnd_rest_success:
  assumes "lnd_rest_pay_invoice C parse b remote bolt11 cap = (Ok p, qs)"
  shows "\<exists>q status text before line after r.
      qs = [q] \<and> remote q = Reply status (Inr text) \<and> is_success status
    \<and> stream_lines text = before @ line # after \<and> list_all (unsuccessful_line parse) after
    \<and> parse line = Inr r \<and> proven_by C p (select_update r)"
proof -
  obtain q where q: "qs = [q]" "lnd_rest_answer C parse (remote q) = Ok p"
    using assms by (auto simp: lnd_rest_pay_invoice_def Let_def)
  then obtain status body where r: "remote q = Reply status (Inr body)" "is_success status"
    "lnd_read_stream C parse body = Ok p"
    by (auto simp: lnd_rest_answer_cases split: http_reply.splits sum.splits if_splits)
  then obtain u l where sc: "scan_updates parse (rev (stream_lines body)) None = Ok (Some u, l)"
    and pf: "payment_proof C u = Ok p"
    by (auto simp: lnd_read_stream_def Let_def rbind_Ok_iff split: if_splits option.splits)
  obtain as line bs r' where ls: "rev (stream_lines body) = as @ line # bs" "list_all (unsuccessful_line parse) as"
    "parse line = Inr r'" "u = select_update r'" "is_succeeded u"
    using scan_updates_Some [OF sc] by blast
  have "stream_lines body = rev bs @ line # rev as" using arg_cong [OF ls(1), of rev] by simp
  moreover have "list_all (unsuccessful_line parse) (rev as)" using ls(2) by (simp add: list_all_iff)
  ultimately show ?thesis using q(1) r(1,2) ls(3) payment_proof_Ok [OF pf ls(5)] ls(4)
    by (intro exI [of _ q] exI [of _ status] exI [of _ body] exI [of _ "rev bs"] exI [of _ line] exI [of _ "rev as"]
        exI [of _ r']) simp
qed

section \<open>Properties\<close>

text \<open>C25. A payment that the LND REST backend reports as made is proven by one update: the answer is a
  success; the update is the last of the stream that says \<open>SUCCEEDED\<close> (every line after it is an
  update that does not); preimage and payment hash are those of that update, and the one
  hashes to the other; amount and fee are that update's, in satoshis rounded up if it gives
  millisatoshis.\<close>

theorem lnd_rest_payment_proven:
  assumes "lnd_rest_pay_invoice C parse b remote bolt11 cap = (Ok p, qs)"
  shows "\<exists>q status text before line after r u bytes raw raw'.
      qs = [q] \<and> remote q = Reply status (Inr text) \<and> is_success status
    \<and> stream_lines text = before @ line # after \<and> list_all (unsuccessful_line parse) after
    \<and> parse line = Inr r \<and> u = select_update r \<and> pu_status u = Some ''SUCCEEDED''
    \<and> opt_or (pu_payment_preimage u) (pu_payment_preimage_camel u) = Some raw \<and> bytes_field_is C raw (pr_preimage p)
    \<and> opt_or (pu_payment_hash u) (pu_payment_hash_camel u) = Some raw' \<and> bytes_field_is C raw' (pr_payment_hash p)
    \<and> cd_unhex C (pr_preimage p) = Inr bytes \<and> pr_payment_hash p = cd_hex C (cd_sha256 C bytes)
    \<and> amount_reported (pr_amount_sats p) (opt_or (pu_value_msat u) (pu_value_msat_camel u))
        (opt_or (pu_value_sat u) (pu_value_sat_camel u))
    \<and> amount_reported (pr_fee_sats p) (opt_or (pu_fee_msat u) (pu_fee_msat_camel u))
        (opt_or (pu_fee_sat u) (pu_fee_sat_camel u))"
proof -
  obtain q status body before line after r where
    s: "qs = [q]" "remote q = Reply status (Inr body)" "is_success status" "stream_lines body = before @ line # after"
      "list_all (unsuccessful_line parse) after" "parse line = Inr r" "proven_by C p (select_update r)"
    using lnd_rest_success [OF assms] by blast
  obtain bytes raw raw' where "cd_unhex C (pr_preimage p) = Inr bytes" "pr_payment_hash p = cd_hex C (cd_sha256 C bytes)"
    "opt_or (pu_payment_preimage (select_update r)) (pu_payment_preimage_camel (select_update r)) = Some raw"
    "bytes_field_is C raw (pr_preimage p)"
    "opt_or (pu_payment_hash (select_update r)) (pu_payment_hash_camel (select_update r)) = Some raw'"
    "bytes_field_is C raw' (pr_payment_hash p)"
    using s(7) unfolding proven_by_def by blast
  then show ?thesis using s
    by (intro exI [of _ q] exI [of _ status] exI [of _ body] exI [of _ before] exI [of _ line] exI [of _ after]
        exI [of _ r] exI [of _ "select_update r"] exI [of _ bytes] exI [of _ raw] exI [of _ raw']) (simp add: proven_by_def)
qed

text \<open>An instance: two updates, the second with the proof.\<close>

definition sample_codec :: codec where
  "sample_codec = \<lparr>cd_hex = id, cd_unhex = Inr, cd_sha256 = id, cd_unbase64 = Inr\<rparr>"

definition empty_update :: payment_update where
  "empty_update = \<lparr>pu_status = None, pu_payment_preimage = None, pu_payment_preimage_camel = None,
     pu_payment_hash = None, pu_payment_hash_camel = None, pu_value_sat = None,
     pu_value_sat_camel = None, pu_value_msat = None, pu_value_msat_camel = None, pu_fee_sat = None,
     pu_fee_sat_camel = None, pu_fee_msat = None, pu_fee_msat_camel = None, pu_failure_reason = None\<rparr>"

definition sample_update :: payment_update where
  "sample_update = empty_update\<lparr>pu_status := Some ''SUCCEEDED'', pu_payment_preimage := Some ''p'',
     pu_payment_hash := Some ''p'', pu_value_msat := Some ''1500'', pu_fee_sat := Some ''3''\<rparr>"

definition sample_parse :: update_parser where
  "sample_parse l = Inr \<lparr>sp_result = (if l = ''ok'' then Some sample_update else None), sp_flat = empty_update\<rparr>"

definition sample_rest :: lnd_rest where
  "sample_rest = lnd_rest_with_client ''https://node/'' ''mac'' \<lparr>hc_follows_redirects = False, hc_trusted_ca = None\<rparr>"

lemma sample_lines: "stream_lines (CHR ''w'' # CHR 0x0A # ''ok'') = [''w'', ''ok'']"
  by (simp add: stream_lines_def str_eval)

lemma sample_paid:
  "lnd_rest_pay_invoice sample_codec sample_parse sample_rest (\<lambda>_. Reply 200 (Inr (CHR ''w'' # CHR 0x0A # ''ok'')))
     invoice cap = (Ok \<lparr>pr_preimage = ''p'', pr_payment_hash = ''p'', pr_amount_sats = 2, pr_fee_sats = 3\<rparr>,
       [lnd_call sample_rest ''POST'' ''/v2/router/send'' (Some (lnd_payment_body invoice cap))])"
proof -
  have a: "parse_u64 ''1500'' = Some 1500" "parse_u64 ''3'' = Some 3" by (simp_all add: str_eval)
  have m: "update_amount_sats sample_update = 2" "update_fee_sats sample_update = 3"
    using a by (simp_all add: update_amount_sats_def update_fee_sats_def sample_update_def empty_update_def
        div_ceil_def)
  have pf: "payment_proof sample_codec sample_update =
      Ok \<lparr>pr_preimage = ''p'', pr_payment_hash = ''p'', pr_amount_sats = 2, pr_fee_sats = 3\<rparr>"
    by (simp add: payment_proof_def update_preimage_def update_hash_def m)
      (simp add: sample_update_def empty_update_def bytes_field_to_hex_def verify_preimage_def sample_codec_def)
  have sc: "scan_updates sample_parse [''ok'', ''w''] None = Ok (Some sample_update, Some sample_update)"
    by (simp add: sample_parse_def select_update_def is_succeeded_def sample_update_def Let_def)
  show ?thesis
    by (simp add: lnd_rest_pay_invoice_def lnd_rest_answer_cases is_success_def lnd_read_stream_def
        sample_lines sc pf del: scan_updates.simps)
qed

theorem lnd_rest_payment_proven_witness:
  "\<exists>line r. sample_parse line = Inr r \<and> pu_status (select_update r) = Some ''SUCCEEDED''"
  using lnd_rest_payment_proven [OF sample_paid] by blast

end
