(* ===== verification/Cln.thy ===== *)
theory Cln
  imports Backend_Port
begin

text \<open>
  \<open>crates/l402-cln\<close>: the REST backend (\<open>rest.rs\<close>) and the gRPC backend (\<open>grpc.rs\<close>) for Core
  Lightning, with their error type. Readers of JSON and the generated gRPC stubs are parameters.
\<close>

section \<open>Errors\<close>

datatype cln_error =
    ClnTransport string
  | ClnRpc string
  | ClnApi u16 string
  | ClnIo string
  | ClnPayment string
  | ClnDeserialize string

fun cln_error_display :: "cln_error \<Rightarrow> string" where
  "cln_error_display (ClnTransport e) = ''CLN transport error: '' @ e"
| "cln_error_display (ClnRpc e) = ''CLN gRPC error: '' @ e"
| "cln_error_display (ClnApi status body) =
     ''CLN REST API error ('' @ show_u16 status @ ''): '' @ body"
| "cln_error_display (ClnIo e) = ''IO error: '' @ e"
| "cln_error_display (ClnPayment reason) = ''payment failed: '' @ reason"
| "cln_error_display (ClnDeserialize e) = ''deserialization error: '' @ e"

fun from_cln_error :: "cln_error \<Rightarrow> client_error" where
  "from_cln_error (ClnPayment reason) = PaymentFailed reason"
| "from_cln_error other = Backend (cln_error_display other)"

lemma from_cln_error_ambiguous [simp]:
  "from_cln_error e \<noteq> PaymentRejected reason" "from_cln_error e \<noteq> FeeLimitUnsupported"
  by (cases e; simp)+

lemma map_err_from_cln [simp]:
  "map_err from_cln_error m \<noteq> Err (PaymentRejected reason)"
  "map_err from_cln_error m \<noteq> Err FeeLimitUnsupported"
  by (cases m; simp)+

section \<open>Construction of the REST backend\<close>

record cln_rest =
  cr_client :: http_client
  cr_url :: string
  cr_rune :: string

definition cln_rest_with_client :: "string \<Rightarrow> string \<Rightarrow> http_client \<Rightarrow> cln_rest" where
  "cln_rest_with_client url rune client =
     \<lparr>cr_client = client, cr_url = trim_end_matches (CHR ''/'') url, cr_rune = rune\<rparr>"

definition cln_rest_new :: "host \<Rightarrow> string \<Rightarrow> string \<Rightarrow> (cln_rest, cln_error) rres" where
  "cln_rest_new h url rune =
     (let client = \<lparr>hc_follows_redirects = \<not> ho_native h, hc_trusted_ca = None\<rparr> in
      case ho_build_client h client of
        Some e \<Rightarrow> Err (ClnTransport (''failed to build HTTP client: '' @ e))
      | None \<Rightarrow> Ok (cln_rest_with_client url rune client))"

definition cln_rest_with_ca_pem ::
  "host \<Rightarrow> string \<Rightarrow> string \<Rightarrow> string \<Rightarrow> (cln_rest, cln_error) rres" where
  "cln_rest_with_ca_pem h url rune ca_pem =
     (case ho_certificate h ca_pem of
        Inl e \<Rightarrow> Err (ClnTransport (''invalid CA certificate: '' @ e))
      | Inr ca \<Rightarrow>
         (let client = \<lparr>hc_follows_redirects = False, hc_trusted_ca = Some ca\<rparr> in
          case ho_build_client h client of
            Some e \<Rightarrow> Err (ClnTransport (''failed to build HTTP client: '' @ e))
          | None \<Rightarrow> Ok (cln_rest_with_client url rune client)))"

definition cln_rest_from_env :: "host \<Rightarrow> (cln_rest, cln_error) rres" where
  "cln_rest_from_env h =
     (let url = env_or h ''CLN_REST_URL'' ''https://localhost:3001'' in
      case ho_env h ''CLN_RUNE'' of
        None \<Rightarrow> Err (ClnPayment ''CLN_RUNE is not set'')
      | Some rune \<Rightarrow>
         (case ho_env h ''CLN_REST_CA_CERT_PATH'' of
            None \<Rightarrow> cln_rest_new h url rune
          | Some path \<Rightarrow>
             (case ho_read_file h path of
                Inl e \<Rightarrow> Err (ClnTransport e)
              | Inr ca \<Rightarrow> cln_rest_with_ca_pem h url rune ca)))"

section \<open>Amounts\<close>

datatype cln_msat_value =
    MsatNumber u64
  | MsatString string
  | MsatObject u64

fun msat_as_u64 :: "cln_msat_value \<Rightarrow> u64 option" where
  "msat_as_u64 (MsatNumber v) = Some v"
| "msat_as_u64 (MsatObject v) = Some v"
| "msat_as_u64 (MsatString s) = parse_u64 (opt_default s (strip_suffix ''msat'' s))"

definition msat_or_zero :: "cln_msat_value option \<Rightarrow> u64" where
  "msat_or_zero v = opt_default 0 (Option.bind v msat_as_u64)"

definition max_fee_text :: "u64 \<Rightarrow> string" where
  "max_fee_text max_fee_sats = show_u64 (saturating_mul max_fee_sats 1000) @ ''msat''"

lemma msat_max_fee_text [simp]:
  "msat_as_u64 (MsatString (max_fee_text cap)) = Some (saturating_mul cap 1000)"
  by (simp add: max_fee_text_def)

section \<open>The REST backend\<close>

record cln_pay_response =
  cp_payment_preimage :: "string option"
  cp_payment_hash :: "string option"
  cp_amount_msat :: "cln_msat_value option"
  cp_amount_sent_msat :: "cln_msat_value option"
  cp_status :: "string option"

definition cln_call :: "cln_rest \<Rightarrow> string \<Rightarrow> json \<Rightarrow> http_call" where
  "cln_call b path body =
     \<lparr>hq_method = ''POST'', hq_url = cr_url b @ path, hq_auth = (''Rune'', cr_rune b), hq_json = Some body\<rparr>"

definition cln_json :: "string \<Rightarrow> (string \<Rightarrow> string + 'a) \<Rightarrow> http_reply \<Rightarrow> ('a, client_error) rres" where
  "cln_json what parse reply = map_err from_cln_error
     (case reply of
        NoReply e \<Rightarrow> Err (ClnTransport e)
      | Reply status body \<Rightarrow>
          if \<not> is_success status then Err (ClnApi status (text_or_default body))
          else (case (case body of Inl e \<Rightarrow> Inl e | Inr text \<Rightarrow> parse text) of
              Inl e \<Rightarrow> Err (ClnDeserialize (''failed to parse '' @ what @ '' response: '' @ e))
            | Inr x \<Rightarrow> Ok x))"

definition cln_rest_supports_fee_limit :: bool where
  "cln_rest_supports_fee_limit = True"

definition cln_payment_body :: "string \<Rightarrow> u64 \<Rightarrow> json" where
  "cln_payment_body bolt11 max_fee_sats =
     JObject [(''bolt11'', JString bolt11), (''maxfee'', JString (max_fee_text max_fee_sats)),
       (''retry_for'', JNumber 60)]"

definition cln_read_payment :: "cln_pay_response \<Rightarrow> (payment_result, client_error) rres" where
  "cln_read_payment data =
     (let status = opt_default ''unknown'' (cp_status data) in
      if status = ''failed'' then Err (PaymentRejected ''CLN reports failed payment'')
      else if status \<noteq> ''complete'' then Err (from_cln_error (ClnPayment (''payment status: '' @ status)))
      else map_err from_cln_error
       (rbind (ok_or (ClnPayment ''payment complete but returned empty preimage'') (cp_payment_preimage data))
          (\<lambda>preimage.
        rbind (ok_or (ClnPayment ''payment complete but returned empty hash'') (cp_payment_hash data))
          (\<lambda>payment_hash.
        let amount_msat = msat_or_zero (cp_amount_msat data);
            sent_msat = msat_or_zero (cp_amount_sent_msat data);
            fee_msat = saturating_sub sent_msat amount_msat in
        Ok \<lparr>pr_preimage = preimage, pr_payment_hash = payment_hash,
            pr_amount_sats = div_ceil amount_msat 1000, pr_fee_sats = div_ceil fee_msat 1000\<rparr>))))"

definition cln_rest_pay_invoice ::
  "(string \<Rightarrow> string + cln_pay_response) \<Rightarrow> cln_rest \<Rightarrow> (http_call \<Rightarrow> http_reply) \<Rightarrow> string \<Rightarrow> u64
   \<Rightarrow> (payment_result, client_error) rres \<times> http_call list" where
  "cln_rest_pay_invoice parse b remote bolt11 max_fee_sats =
     (let q = cln_call b ''/v1/pay'' (cln_payment_body bolt11 max_fee_sats) in
      (rbind (cln_json ''payment'' parse (remote q)) cln_read_payment, [q]))"

text \<open>\<open>ListFundsResponse\<close> is the list of its channels' optional \<open>our_amount_msat\<close>.\<close>

definition cln_rest_get_balance ::
  "(string \<Rightarrow> string + cln_msat_value option list) \<Rightarrow> cln_rest \<Rightarrow> (http_call \<Rightarrow> http_reply)
   \<Rightarrow> (u64, client_error) rres" where
  "cln_rest_get_balance parse b remote =
     rbind (cln_json ''balance'' parse (remote (cln_call b ''/v1/listfunds'' (JObject [])))) (\<lambda>channels.
     rbind (sum_u64 (map msat_or_zero channels)) (\<lambda>balance_msat.
     Ok (balance_msat div 1000)))"

record cln_info =
  ci_id :: "string option"
  ci_alias :: "string option"
  ci_num_active_channels :: "u32 option"

definition cln_rest_get_info ::
  "(string \<Rightarrow> string + cln_info) \<Rightarrow> cln_rest \<Rightarrow> (http_call \<Rightarrow> http_reply) \<Rightarrow> (node_info, client_error) rres" where
  "cln_rest_get_info parse b remote =
     rbind (cln_json ''getinfo'' parse (remote (cln_call b ''/v1/getinfo'' (JObject [])))) (\<lambda>data.
     Ok \<lparr>ni_pubkey = opt_default [] (ci_id data), ni_alias = opt_default [] (ci_alias data),
         ni_num_active_channels = opt_default 0 (ci_num_active_channels data)\<rparr>)"

section \<open>The gRPC backend\<close>

record cln_grpc =
  cg_ca :: string
  cg_identity :: "string \<times> string"
  cg_domain :: string
  cg_address :: string

text \<open>\<open>from_shared\<close> and \<open>connect\<close>: what the endpoint and the connection fail with.\<close>

definition cln_grpc_connect ::
  "host \<Rightarrow> (string \<Rightarrow> string option) \<Rightarrow> (string \<Rightarrow> string \<times> string \<times> string \<Rightarrow> string option)
   \<Rightarrow> string \<Rightarrow> string \<Rightarrow> string \<Rightarrow> string \<Rightarrow> (cln_grpc, cln_error) rres" where
  "cln_grpc_connect h from_shared connect address ca_cert_path client_cert_path client_key_path =
     (let read = (\<lambda>path. case ho_read_file h path of Inl e \<Rightarrow> Err (ClnIo e) | Inr bytes \<Rightarrow> Ok bytes) in
      rbind (read ca_cert_path) (\<lambda>ca_cert.
      rbind (read client_cert_path) (\<lambda>client_cert.
      rbind (read client_key_path) (\<lambda>client_key.
      case from_shared address of
        Some e \<Rightarrow> Err (ClnPayment (''invalid address: '' @ e))
      | None \<Rightarrow> (case connect address (ca_cert, client_cert, client_key) of
          Some e \<Rightarrow> Err (ClnTransport e)
        | None \<Rightarrow> Ok \<lparr>cg_ca = ca_cert, cg_identity = (client_cert, client_key), cg_domain = ''localhost'',
                     cg_address = address\<rparr>)))))"

definition cln_grpc_from_env ::
  "host \<Rightarrow> (string \<Rightarrow> string option) \<Rightarrow> (string \<Rightarrow> string \<times> string \<times> string \<Rightarrow> string option)
   \<Rightarrow> (cln_grpc, cln_error) rres" where
  "cln_grpc_from_env h from_shared connect =
     cln_grpc_connect h from_shared connect (env_or h ''CLN_GRPC_HOST'' ''https://localhost:9736'')
       (env_or h ''CLN_CA_CERT_PATH'' (expand_home h ''~/.lightning/bitcoin/ca.pem''))
       (env_or h ''CLN_CLIENT_CERT_PATH'' (expand_home h ''~/.lightning/bitcoin/client.pem''))
       (env_or h ''CLN_CLIENT_KEY_PATH'' (expand_home h ''~/.lightning/bitcoin/client-key.pem''))"

record xpay_request =
  xq_invstring :: string
  xq_maxfee :: "u64 option"
  xq_retry_for :: "u32 option"

record xpay_response =
  xr_payment_preimage :: string
  xr_amount_msat :: "u64 option"
  xr_amount_sent_msat :: "u64 option"

definition cln_grpc_supports_fee_limit :: bool where
  "cln_grpc_supports_fee_limit = True"

definition cln_xpay_request :: "string \<Rightarrow> u64 \<Rightarrow> xpay_request" where
  "cln_xpay_request bolt11 max_fee_sats =
     \<lparr>xq_invstring = bolt11, xq_maxfee = Some (saturating_mul max_fee_sats 1000), xq_retry_for = Some 60\<rparr>"

definition cln_grpc_answer :: "codec \<Rightarrow> string + xpay_response \<Rightarrow> (payment_result, client_error) rres" where
  "cln_grpc_answer C answer =
     (case answer of
        Inl e \<Rightarrow> Err (from_cln_error (ClnRpc e))
      | Inr response \<Rightarrow>
         (let amount_msat = opt_default 0 (xr_amount_msat response);
              sent_msat = opt_default 0 (xr_amount_sent_msat response);
              fee_msat = saturating_sub sent_msat amount_msat in
          Ok \<lparr>pr_preimage = cd_hex C (xr_payment_preimage response),
              pr_payment_hash = cd_hex C (cd_sha256 C (xr_payment_preimage response)),
              pr_amount_sats = div_ceil amount_msat 1000, pr_fee_sats = div_ceil fee_msat 1000\<rparr>))"

definition cln_grpc_pay_invoice ::
  "codec \<Rightarrow> (xpay_request \<Rightarrow> string + xpay_response) \<Rightarrow> string \<Rightarrow> u64
   \<Rightarrow> (payment_result, client_error) rres \<times> xpay_request list" where
  "cln_grpc_pay_invoice C remote bolt11 max_fee_sats =
     (let q = cln_xpay_request bolt11 max_fee_sats in (cln_grpc_answer C (remote q), [q]))"

definition cln_grpc_get_balance :: "string + u64 option list \<Rightarrow> (u64, client_error) rres" where
  "cln_grpc_get_balance answer =
     (case answer of
        Inl e \<Rightarrow> Err (from_cln_error (ClnRpc e))
      | Inr channels \<Rightarrow>
          rbind (sum_u64 (map (opt_default 0) channels)) (\<lambda>total_msat. Ok (total_msat div 1000)))"

definition cln_grpc_get_info :: "codec \<Rightarrow> string + (string \<times> string \<times> u32) \<Rightarrow> (node_info, client_error) rres" where
  "cln_grpc_get_info C answer =
     (case answer of
        Inl e \<Rightarrow> Err (from_cln_error (ClnRpc e))
      | Inr (id_bytes, alias, num_active_channels) \<Rightarrow>
          Ok \<lparr>ni_pubkey = cd_hex C id_bytes, ni_alias = (if alias = [] then ''CLN Node'' else alias),
              ni_num_active_channels = num_active_channels\<rparr>)"

section \<open>The contract of the port\<close>

definition cln_rest_order :: "http_call \<Rightarrow> (string \<times> nat) option" where
  "cln_rest_order q =
     (case hq_json q of
        None \<Rightarrow> None
      | Some j \<Rightarrow> (case (json_string ''bolt11'' j, Option.bind (json_string ''maxfee'' j) (\<lambda>s. msat_as_u64 (MsatString s))) of
            (Some bolt11, Some n) \<Rightarrow> Some (bolt11, unat n)
          | _ \<Rightarrow> None))"

definition cln_rest_confirms_failure :: "(string \<Rightarrow> string + cln_pay_response) \<Rightarrow> http_reply \<Rightarrow> bool" where
  "cln_rest_confirms_failure parse reply =
     (case reply of
        Reply status (Inr text) \<Rightarrow> is_success status \<and>
          (case parse text of Inl _ \<Rightarrow> False | Inr data \<Rightarrow> cp_status data = Some ''failed'')
      | _ \<Rightarrow> False)"

lemma cln_rest_order_call [simp]:
  "cln_rest_order (cln_call b path (cln_payment_body bolt11 cap)) = Some (bolt11, unat (saturating_mul cap 1000))"
  by (simp add: cln_rest_order_def cln_call_def cln_payment_body_def del: msat_as_u64.simps)

lemma cln_read_payment_outcomes [simp]:
  "cln_read_payment d \<noteq> Panic" "cln_read_payment d \<noteq> Err FeeLimitUnsupported"
  by (auto simp: cln_read_payment_def Let_def rbind_Panic_iff)

lemma cln_read_payment_rejected:
  "cln_read_payment d = Err (PaymentRejected reason) \<Longrightarrow> cp_status d = Some ''failed''"
  by (cases "cp_status d") (auto simp: cln_read_payment_def Let_def split: if_splits)

lemma cln_json_Ok_iff:
  "cln_json what parse reply = Ok d \<longleftrightarrow>
     (\<exists>status text. reply = Reply status (Inr text) \<and> is_success status \<and> parse text = Inr d)"
  by (auto simp: cln_json_def split: http_reply.splits sum.splits)

lemma cln_json_outcomes [simp]:
  "cln_json what parse reply \<noteq> Panic" "cln_json what parse reply \<noteq> Err (PaymentRejected reason)"
  "cln_json what parse reply \<noteq> Err FeeLimitUnsupported"
  by (simp_all add: cln_json_def split: http_reply.splits sum.splits)

lemma cln_answer_outcomes [simp]:
  "rbind (cln_json what parse reply) cln_read_payment \<noteq> Panic"
  "rbind (cln_json what parse reply) cln_read_payment \<noteq> Err FeeLimitUnsupported"
  using cln_json_outcomes [of what parse reply] by (cases "cln_json what parse reply"; simp)+

lemma cln_answer_rejected:
  assumes "rbind (cln_json what parse reply) cln_read_payment = Err (PaymentRejected reason)"
  shows "cln_rest_confirms_failure parse reply"
proof -
  obtain d where "cln_json what parse reply = Ok d" "cp_status d = Some ''failed''"
    using assms cln_json_outcomes [of what parse reply] cln_read_payment_rejected
    by (cases "cln_json what parse reply") auto
  then show ?thesis by (auto simp: cln_json_Ok_iff cln_rest_confirms_failure_def)
qed

interpretation cln_rest_backend: ln_backend cln_rest_supports_fee_limit
  "cln_rest_pay_invoice parse b" cln_rest_order "cln_rest_confirms_failure parse" for parse b
proof
  fix remote bolt11 cap reason qs
  assume "cln_rest_pay_invoice parse b remote bolt11 cap = (Err (PaymentRejected reason), qs)"
  then show "\<exists>q\<in>set qs. cln_rest_confirms_failure parse (remote q)"
    using cln_answer_rejected by (auto simp: cln_rest_pay_invoice_def Let_def)
next
  fix remote bolt11 cap r qs q
  assume "cln_rest_pay_invoice parse b remote bolt11 cap = (r, qs)" "q \<in> set qs"
  then show "\<exists>fee. cln_rest_order q = Some (bolt11, fee) \<and> fee \<le> 1000 * unat cap"
    using saturating_msat_le [of cap] by (auto simp: cln_rest_pay_invoice_def Let_def)
qed (auto simp: cln_rest_pay_invoice_def Let_def cln_rest_supports_fee_limit_def)

definition cln_grpc_order :: "xpay_request \<Rightarrow> (string \<times> nat) option" where
  "cln_grpc_order q = map_option (\<lambda>msat. (xq_invstring q, unat msat)) (xq_maxfee q)"

text \<open>An error of \<open>xpay\<close> confirms nothing.\<close>

interpretation cln_grpc_backend: ln_backend cln_grpc_supports_fee_limit
  "cln_grpc_pay_invoice C" cln_grpc_order "\<lambda>_. False" for C
proof
  fix remote bolt11 cap r qs q
  assume "cln_grpc_pay_invoice C remote bolt11 cap = (r, qs)" "q \<in> set qs"
  then show "\<exists>fee. cln_grpc_order q = Some (bolt11, fee) \<and> fee \<le> 1000 * unat cap"
    using saturating_msat_le [of cap]
    by (auto simp: cln_grpc_pay_invoice_def cln_xpay_request_def cln_grpc_order_def Let_def)
qed (auto simp: cln_grpc_pay_invoice_def cln_grpc_answer_def cln_grpc_supports_fee_limit_def Let_def
    split: sum.splits)

section \<open>Properties\<close>

text \<open>C40. The balance of a CLN node over REST is the sum over all its channels, in satoshis rounded down
  once, after summing, exactly if the sum of the millisatoshis fits 64 bits; a channel without a readable amount
  counts nothing. If it does not fit, the call panics in a build with overflow checks, which is the
  one modelled (a release build wraps instead).\<close>

theorem cln_balance_exact:
  assumes "remote (cln_call b ''/v1/listfunds'' (JObject [])) = Reply status (Inr funds)"
    and "is_success status" and "parse funds = Inr channels"
    and "msats = sum_list (map (unat \<circ> msat_or_zero) channels)"
  shows "(msats < 2 ^ 64 \<longrightarrow> (\<exists>sats. cln_rest_get_balance parse b remote = Ok sats \<and> unat sats = msats div 1000))
    \<and> (2 ^ 64 \<le> msats \<longrightarrow> cln_rest_get_balance parse b remote = Panic)"
proof -
  have j: "cln_json ''balance'' parse (remote (cln_call b ''/v1/listfunds'' (JObject []))) = Ok channels"
    using assms(1-3) by (simp add: cln_json_Ok_iff)
  let ?ms = "map msat_or_zero channels"
  have t: "sum_list (map unat ?ms) = msats" by (simp add: assms(4) comp_def)
  show ?thesis
  proof (cases "msats < 2 ^ 64")
    case True
    then obtain s where s: "sum_u64 ?ms = (Ok s :: (u64, client_error) rres)"
      using sum_u64_fits [of ?ms] t by metis
    then have "unat s = msats" using t by (simp add: sum_u64_Ok_iff)
    then show ?thesis using s True by (simp add: cln_rest_get_balance_def j unat_div)
  next
    case False
    have "sum_u64 ?ms \<noteq> (Ok r :: (u64, client_error) rres)" for r
    proof
      assume "sum_u64 ?ms = (Ok r :: (u64, client_error) rres)"
      then have "unat r = msats" using t by (simp add: sum_u64_Ok_iff)
      then show False using False unat_u64_less [of r] by simp
    qed
    moreover have "sum_u64 ?ms \<noteq> (Err e :: (u64, client_error) rres)" for e by (simp add: sum_u64_def)
    ultimately have "sum_u64 ?ms = (Panic :: (u64, client_error) rres)" by (cases "sum_u64 ?ms :: (u64, client_error) rres") auto
    then show ?thesis using False by (simp add: cln_rest_get_balance_def j)
  qed
qed

theorem cln_balance_exact_witness:
  "cln_rest_get_balance (\<lambda>_. Inr [Some (MsatNumber 1500), None, Some (MsatString ''700msat'')])
     (cln_rest_with_client ''u'' ''r'' \<lparr>hc_follows_redirects = False, hc_trusted_ca = None\<rparr>)
     (\<lambda>_. Reply 200 (Inr ''x'')) = Ok 2"
proof -
  let ?ch = "[Some (MsatNumber 1500), None, Some (MsatString ''700msat'')]"
  let ?b = "cln_rest_with_client ''u'' ''r'' \<lparr>hc_follows_redirects = False, hc_trusted_ca = None\<rparr>"
  have p: "msat_as_u64 (MsatString ''700msat'') = Some 700" by (simp add: str_eval)
  have s: "sum_list (map (unat \<circ> msat_or_zero) ?ch) = 2200"
    by (simp add: msat_or_zero_def p del: msat_as_u64.simps(3))
  show ?thesis using cln_balance_exact [of "\<lambda>_. Reply 200 (Inr ''x'')" ?b 200 "''x''" "\<lambda>_. Inr ?ch" ?ch]
    unfolding s by (auto simp: is_success_def word_unat_eq_iff)
qed

end
