(* ===== verification/Nwc.thy ===== *)
theory Nwc
  imports Backend_Port
begin

text \<open>
  \<open>crates/l402-nwc\<close>: the wallet behind Nostr Wallet Connect. It cannot enforce a fee cap, so the
  port's \<open>pay_invoice\<close> refuses, and payments without a cap are a separate, explicit method. The
  NIP-47 client is the remote.
\<close>

datatype nwc_error =
    NwcInvalidUri string
  | NwcFailure string
  | NwcPayment string

fun nwc_error_display :: "nwc_error \<Rightarrow> string" where
  "nwc_error_display (NwcInvalidUri e) = ''invalid NWC URI: '' @ e"
| "nwc_error_display (NwcFailure e) = ''NWC error: '' @ e"
| "nwc_error_display (NwcPayment reason) = ''payment failed: '' @ reason"

fun from_nwc_error :: "nwc_error \<Rightarrow> client_error" where
  "from_nwc_error (NwcPayment reason) = PaymentFailed reason"
| "from_nwc_error other = Backend (nwc_error_display other)"

record nwc_backend =
  nw_uri :: string
  nw_uri_display :: string

text \<open>\<open>parse\<close> gives the public key of the URI; taking its first 16 bytes panics if it is shorter.\<close>

definition nwc_new :: "(string \<Rightarrow> string + string) \<Rightarrow> string \<Rightarrow> (nwc_backend, nwc_error) rres" where
  "nwc_new parse uri =
     (case parse uri of
        Inl e \<Rightarrow> Err (NwcInvalidUri e)
      | Inr public_key \<Rightarrow>
          if length public_key < 16 then Panic
          else Ok \<lparr>nw_uri = uri, nw_uri_display = ''nostr+walletconnect://'' @ take 16 public_key @ ''...''\<rparr>)"

definition nwc_from_env :: "host \<Rightarrow> (string \<Rightarrow> string + string) \<Rightarrow> (nwc_backend, nwc_error) rres" where
  "nwc_from_env h parse =
     (case ho_env h ''NWC_CONNECTION_URI'' of
        None \<Rightarrow> Err (NwcInvalidUri ''NWC_CONNECTION_URI environment variable not set'')
      | Some uri \<Rightarrow> nwc_new parse uri)"

text \<open>The remote's answer to a payment: an error, or the preimage and the fee in millisatoshis.\<close>

definition nwc_pay_invoice_unbounded ::
  "(string \<Rightarrow> string + (string \<times> u64 option)) \<Rightarrow> string
   \<Rightarrow> (payment_result, client_error) rres \<times> string list" where
  "nwc_pay_invoice_unbounded remote bolt11 =
     (case remote bolt11 of
        Inl e \<Rightarrow> (Err (from_nwc_error (NwcFailure e)), [bolt11])
      | Inr (preimage, fees_paid) \<Rightarrow>
          (Ok \<lparr>pr_preimage = preimage, pr_payment_hash = [], pr_amount_sats = 0,
              pr_fee_sats = div_ceil (opt_default 0 fees_paid) 1000\<rparr>, [bolt11]))"

definition default_supports_fee_limit :: bool where
  "default_supports_fee_limit = False"

definition nwc_pay_invoice ::
  "(string \<Rightarrow> string + (string \<times> u64 option)) \<Rightarrow> string \<Rightarrow> u64
   \<Rightarrow> (payment_result, client_error) rres \<times> string list" where
  "nwc_pay_invoice remote bolt11 max_fee_sats = (Err FeeLimitUnsupported, [])"

definition nwc_get_balance :: "string + u64 \<Rightarrow> (u64, client_error) rres" where
  "nwc_get_balance answer =
     (case answer of
        Inl e \<Rightarrow> Err (from_nwc_error (NwcFailure e))
      | Inr balance_msat \<Rightarrow> Ok (balance_msat div 1000))"

text \<open>The answer to \<open>get_info\<close>: alias, public key, and the supported methods.\<close>

definition nwc_get_info ::
  "string + (string option \<times> string option \<times> string list) \<Rightarrow> (node_info, client_error) rres" where
  "nwc_get_info answer =
     (case answer of
        Inl e \<Rightarrow> Err (from_nwc_error (NwcFailure e))
      | Inr (alias, pubkey, methods) \<Rightarrow>
          Ok \<lparr>ni_pubkey = opt_default ''unknown'' pubkey, ni_alias = opt_default ''NWC Wallet'' alias,
              ni_num_active_channels =
                (if length methods < 2 ^ 32 then of_nat (length methods) else 0)\<rparr>)"

text \<open>A backend without a fee limit keeps the contract by never sending.\<close>

interpretation nwc: ln_backend default_supports_fee_limit nwc_pay_invoice "\<lambda>_. None" "\<lambda>_. False"
  by unfold_locales (simp_all add: nwc_pay_invoice_def default_supports_fee_limit_def)

lemma nwc_unbounded_success:
  "nwc_pay_invoice_unbounded remote bolt11 = (Ok p, qs) \<Longrightarrow>
     \<exists>fees. qs = [bolt11] \<and> remote bolt11 = Inr (pr_preimage p, fees) \<and> pr_payment_hash p = [] \<and> pr_amount_sats p = 0
       \<and> covers_msat (pr_fee_sats p) (opt_default 0 fees)"
  by (auto simp: nwc_pay_invoice_unbounded_def split: sum.splits prod.splits)

end
