(* ===== verification/Swissknife.thy ===== *)
theory Swissknife
  imports Backend_Port Nwc
begin

text \<open>
  \<open>crates/l402-swissknife\<close>: the custodial wallet behind the SwissKnife REST API (\<open>backend.rs\<close>,
  \<open>types.rs\<close>). Like NWC it refuses capped payments and has an explicit uncapped method.
\<close>

section \<open>Errors and messages\<close>

datatype swissknife_error =
    SkHttp string
  | SkApi u16 string
  | SkAuth string
  | SkPayment string
  | SkConfig string

fun swissknife_error_display :: "swissknife_error \<Rightarrow> string" where
  "swissknife_error_display (SkHttp e) = ''HTTP error: '' @ e"
| "swissknife_error_display (SkApi status message) =
     ''API error (HTTP '' @ show_u16 status @ ''): '' @ message"
| "swissknife_error_display (SkAuth e) = ''authentication failed: '' @ e"
| "swissknife_error_display (SkPayment e) = ''payment failed: '' @ e"
| "swissknife_error_display (SkConfig e) = ''missing configuration: '' @ e"

fun from_swissknife_error :: "swissknife_error \<Rightarrow> client_error" where
  "from_swissknife_error (SkPayment reason) = PaymentFailed reason"
| "from_swissknife_error (SkAuth reason) = Backend (''authentication failed: '' @ reason)"
| "from_swissknife_error other = Backend (swissknife_error_display other)"

datatype sk_payment_status = SkSettled | SkPending | SkFailed | SkUnknown

record lightning_payment =
  lp_payment_hash :: string
  lp_payment_preimage :: "string option"

record sk_payment_response =
  sk_amount_msat :: u64
  sk_fee_msat :: "u64 option"
  sk_status :: sk_payment_status
  sk_payment_hash :: "string option"
  sk_payment_preimage :: "string option"
  sk_lightning :: "lightning_payment option"
  sk_error :: "string option"

section \<open>Construction\<close>

record swissknife =
  sw_client :: http_client
  sw_base_url :: string
  sw_api_key :: string
  sw_wallet_id :: "string option"

text \<open>\<open>HttpClient::new()\<close> keeps the default redirect policy.\<close>

definition swissknife_new :: "string \<Rightarrow> string \<Rightarrow> swissknife" where
  "swissknife_new base_url api_key =
     \<lparr>sw_client = \<lparr>hc_follows_redirects = True, hc_trusted_ca = None\<rparr>,
      sw_base_url = trim_end_matches (CHR ''/'') base_url, sw_api_key = api_key, sw_wallet_id = None\<rparr>"

fun uuid_from :: "nat \<Rightarrow> string \<Rightarrow> bool" where
  "uuid_from i [] = True"
| "uuid_from i (c # s) =
     ((if i \<in> {8, 13, 18, 23} then c = CHR ''-'' else is_ascii_hexdigit c) \<and> uuid_from (Suc i) s)"

definition with_wallet :: "string \<Rightarrow> swissknife \<Rightarrow> (swissknife, swissknife_error) rres" where
  "with_wallet wallet_id b =
     (if length wallet_id \<noteq> 36 \<or> \<not> uuid_from 0 wallet_id
      then Err (SkConfig ''wallet ID must be a UUID'')
      else Ok (b\<lparr>sw_wallet_id := Some wallet_id\<rparr>))"

definition wallet_path :: "swissknife \<Rightarrow> string \<Rightarrow> string" where
  "wallet_path b path =
     (case sw_wallet_id b of
        Some wallet_id \<Rightarrow> ''/v1/me/wallets/'' @ wallet_id @ path
      | None \<Rightarrow> ''/v1/me'' @ path)"

definition swissknife_from_env :: "host \<Rightarrow> (swissknife, swissknife_error) rres" where
  "swissknife_from_env h =
     (let base_url = env_or h ''SWISSKNIFE_API_URL'' ''https://api.numeraire.tech'' in
      rbind (ok_or (SkConfig ''SWISSKNIFE_API_KEY is not set'') (ho_env h ''SWISSKNIFE_API_KEY''))
       (\<lambda>api_key.
        let backend = swissknife_new base_url api_key in
        case ho_env h ''SWISSKNIFE_WALLET_ID'' of
          Some wallet_id \<Rightarrow> with_wallet wallet_id backend
        | None \<Rightarrow> Ok backend))"

section \<open>Requests\<close>

text \<open>\<open>valid_header\<close> is \<open>HeaderValue::from_str\<close>: a key it rejects panics.\<close>

definition swissknife_request ::
  "(string \<Rightarrow> bool) \<Rightarrow> swissknife \<Rightarrow> string \<Rightarrow> string \<Rightarrow> json option \<Rightarrow> (http_call, swissknife_error) rres" where
  "swissknife_request valid_header b verb path body =
     (if valid_header (sw_api_key b)
      then Ok \<lparr>hq_method = verb, hq_url = sw_base_url b @ path,
               hq_auth = (''Api-Key'', sw_api_key b), hq_json = body\<rparr>
      else Panic)"

text \<open>\<open>parse_reason\<close> reads the optional \<open>reason\<close> of an error response.\<close>

definition parse_error :: "(string \<Rightarrow> string + string option) \<Rightarrow> u16 \<Rightarrow> string + string \<Rightarrow> swissknife_error" where
  "parse_error parse_reason status body =
     (let fallback = ''HTTP '' @ show_u16 status @ '' error'';
          message = (case (case body of Inl e \<Rightarrow> Inl e | Inr text \<Rightarrow> parse_reason text) of
              Inr reason \<Rightarrow> opt_default fallback reason
            | Inl _ \<Rightarrow> fallback) in
      if status = 401 \<or> status = 403 then SkAuth message else SkApi status message)"

definition swissknife_json ::
  "(string \<Rightarrow> string + string option) \<Rightarrow> (string \<Rightarrow> string + 'a) \<Rightarrow> http_reply \<Rightarrow> ('a, swissknife_error) rres" where
  "swissknife_json parse_reason parse reply =
     (case reply of
        NoReply e \<Rightarrow> Err (SkHttp e)
      | Reply status body \<Rightarrow>
          if \<not> is_success status then Err (parse_error parse_reason status body)
          else (case (case body of Inl e \<Rightarrow> Inl e | Inr text \<Rightarrow> parse text) of
              Inl e \<Rightarrow> Err (SkHttp e)
            | Inr x \<Rightarrow> Ok x))"

definition settled_payment :: "sk_payment_response \<Rightarrow> (payment_result, swissknife_error) rres" where
  "settled_payment payment =
     (case sk_status payment of
        SkFailed \<Rightarrow> Err (SkPayment (opt_default ''payment failed without error message'' (sk_error payment)))
      | SkPending \<Rightarrow> Err (SkPayment ''payment is still pending (not yet settled)'')
      | SkUnknown \<Rightarrow> Err (SkPayment ''unexpected payment status from SwissKnife'')
      | SkSettled \<Rightarrow>
         (let (payment_hash, payment_preimage) =
            (case sk_lightning payment of
               Some proof \<Rightarrow> (lp_payment_hash proof, lp_payment_preimage proof)
             | None \<Rightarrow> (opt_default [] (sk_payment_hash payment), sk_payment_preimage payment)) in
          rbind (ok_or (SkPayment ''settled payment missing preimage'') payment_preimage) (\<lambda>preimage.
          Ok \<lparr>pr_preimage = preimage, pr_payment_hash = payment_hash,
              pr_amount_sats = div_ceil (sk_amount_msat payment) 1000,
              pr_fee_sats = div_ceil (opt_default 0 (sk_fee_msat payment)) 1000\<rparr>)))"

definition swissknife_pay_unbounded ::
  "(string \<Rightarrow> bool) \<Rightarrow> (string \<Rightarrow> string + string option) \<Rightarrow> (string \<Rightarrow> string + sk_payment_response)
   \<Rightarrow> swissknife \<Rightarrow> (http_call \<Rightarrow> http_reply) \<Rightarrow> string
   \<Rightarrow> (payment_result, client_error) rres \<times> http_call list" where
  "swissknife_pay_unbounded valid_header parse_reason parse b remote bolt11 =
     (case swissknife_request valid_header b ''POST'' (wallet_path b ''/payments'')
             (Some (JObject [(''input'', JString bolt11)])) of
        Ok q \<Rightarrow> (map_err from_swissknife_error
                  (rbind (swissknife_json parse_reason parse (remote q)) settled_payment), [q])
      | Err e \<Rightarrow> (Err (from_swissknife_error e), [])
      | Panic \<Rightarrow> (Panic, []))"

definition swissknife_pay_invoice ::
  "(http_call \<Rightarrow> http_reply) \<Rightarrow> string \<Rightarrow> u64 \<Rightarrow> (payment_result, client_error) rres \<times> http_call list" where
  "swissknife_pay_invoice remote bolt11 max_fee_sats = (Err FeeLimitUnsupported, [])"

text \<open>\<open>available_msat\<close> is a signed word; negative balances count as zero.\<close>

definition swissknife_get_balance ::
  "(string \<Rightarrow> bool) \<Rightarrow> (string \<Rightarrow> string + string option) \<Rightarrow> (string \<Rightarrow> string + 64 word)
   \<Rightarrow> swissknife \<Rightarrow> (http_call \<Rightarrow> http_reply) \<Rightarrow> (u64, client_error) rres" where
  "swissknife_get_balance valid_header parse_reason parse b remote = map_err from_swissknife_error
     (rbind (swissknife_request valid_header b ''GET'' (wallet_path b ''/balance'') None) (\<lambda>q.
      rbind (swissknife_json parse_reason parse (remote q)) (\<lambda>available_msat.
      Ok ((if 0 \<le> sint available_msat then available_msat else 0) div 1000))))"

definition swissknife_get_info ::
  "(string \<Rightarrow> bool) \<Rightarrow> (string \<Rightarrow> string + string option) \<Rightarrow> (string \<Rightarrow> string + (string \<times> string))
   \<Rightarrow> swissknife \<Rightarrow> (http_call \<Rightarrow> http_reply) \<Rightarrow> (node_info, client_error) rres" where
  "swissknife_get_info valid_header parse_reason parse b remote = map_err from_swissknife_error
     (rbind (swissknife_request valid_header b ''GET'' (wallet_path b []) None) (\<lambda>q.
      rbind (swissknife_json parse_reason parse (remote q)) (\<lambda>(wallet_id, user_id).
      Ok \<lparr>ni_pubkey = wallet_id,
          ni_alias = (if user_id = [] then ''SwissKnife Wallet'' else user_id),
          ni_num_active_channels = 0\<rparr>)))"

interpretation swissknife_backend: ln_backend default_supports_fee_limit swissknife_pay_invoice
  "\<lambda>_. None" "\<lambda>_. False"
  by unfold_locales (simp_all add: swissknife_pay_invoice_def default_supports_fee_limit_def)

section \<open>Properties\<close>

text \<open>The shape of a UUID: five groups of hexadecimal digits.\<close>

definition uuid_shape :: "string \<Rightarrow> bool" where
  "uuid_shape s \<longleftrightarrow> (\<exists>a b c d e. s = a @ ''-'' @ b @ ''-'' @ c @ ''-'' @ d @ ''-'' @ e
     \<and> map length [a, b, c, d, e] = [8, 4, 4, 4, 12]
     \<and> list_all (list_all is_ascii_hexdigit) [a, b, c, d, e])"

lemma uuid_from_append: "uuid_from i (s @ t) \<longleftrightarrow> uuid_from i s \<and> uuid_from (i + length s) t"
  by (induction s arbitrary: i) auto

lemma uuid_from_group:
  "{8, 13, 18, 23} \<inter> {i ..< i + length s} = {} \<Longrightarrow> uuid_from i s \<longleftrightarrow> list_all is_ascii_hexdigit s"
proof (induction s arbitrary: i)
  case (Cons c s)
  have "{i ..< i + length (c # s)} = insert i {Suc i ..< Suc i + length s}" by auto
  then have "i \<notin> {8, 13, 18, 23}" "{8, 13, 18, 23} \<inter> {Suc i ..< Suc i + length s} = {}" using Cons.prems by auto
  then show ?case using Cons.IH [of "Suc i"] by simp
qed simp

lemma uuid_from_groups:
  assumes "length a = 8" "length b = 4" "length c = 4" "length d = 4" "length e = 12"
  shows "uuid_from 0 (a @ w # b @ x # c @ y # d @ z # e) \<longleftrightarrow>
    w = CHR ''-'' \<and> x = CHR ''-'' \<and> y = CHR ''-'' \<and> z = CHR ''-''
    \<and> list_all (list_all is_ascii_hexdigit) [a, b, c, d, e]"
proof -
  have g: "uuid_from 0 a = list_all is_ascii_hexdigit a" "uuid_from 9 b = list_all is_ascii_hexdigit b"
    "uuid_from 14 c = list_all is_ascii_hexdigit c" "uuid_from 19 d = list_all is_ascii_hexdigit d"
    "uuid_from 24 e = list_all is_ascii_hexdigit e"
    using assms by (simp_all add: uuid_from_group)
  show ?thesis using assms by (auto simp: uuid_from_append g)
qed

lemma split_group:
  assumes "length s = n + Suc m"
  obtains a w t where "s = a @ w # t" "length a = n" "length t = m"
proof
  show "s = take n s @ s ! n # drop (Suc n) s" using assms by (simp add: id_take_nth_drop [symmetric])
qed (use assms in simp_all)

lemma uuid_shape_iff: "length s = 36 \<and> uuid_from 0 s \<longleftrightarrow> uuid_shape s"
proof
  assume s: "length s = 36 \<and> uuid_from 0 s"
  then have "length s = 8 + Suc 27" by simp
  then obtain a w t1 where 1: "s = a @ w # t1" "length a = 8" "length t1 = 27" by (rule split_group)
  then have "length t1 = 4 + Suc 22" by simp
  then obtain b x t2 where 2: "t1 = b @ x # t2" "length b = 4" "length t2 = 22" by (rule split_group)
  then have "length t2 = 4 + Suc 17" by simp
  then obtain c y t3 where 3: "t2 = c @ y # t3" "length c = 4" "length t3 = 17" by (rule split_group)
  then have "length t3 = 4 + Suc 12" by simp
  then obtain d z e where 4: "t3 = d @ z # e" "length d = 4" "length e = 12" by (rule split_group)
  have "s = a @ w # b @ x # c @ y # d @ z # e" by (simp add: 1 2 3 4)
  then show "uuid_shape s" using s uuid_from_groups [OF 1(2) 2(2) 3(2) 4(2,3), of w x y z] 1(2) 2(2) 3(2) 4(2,3)
    unfolding uuid_shape_def by (intro exI [of _ a] exI [of _ b] exI [of _ c] exI [of _ d] exI [of _ e]) simp
next
  assume "uuid_shape s"
  then obtain a b c d e where s: "s = a @ CHR ''-'' # b @ CHR ''-'' # c @ CHR ''-'' # d @ CHR ''-'' # e"
    and l: "length a = 8" "length b = 4" "length c = 4" "length d = 4" "length e = 12"
    and h: "list_all (list_all is_ascii_hexdigit) [a, b, c, d, e]"
    unfolding uuid_shape_def by auto
  show "length s = 36 \<and> uuid_from 0 s" using uuid_from_groups [OF l] h unfolding s by (simp add: l)
qed

lemma uuid_chars: "uuid_shape s \<Longrightarrow> x \<in> set s \<Longrightarrow> is_ascii_hexdigit x \<or> x = CHR ''-''"
  by (auto simp: uuid_shape_def list_all_iff)

text \<open>C39. The wallet selector of SwissKnife cannot bend a request: an id is accepted exactly if it has
  the shape of a UUID; then every path is below \<open>/v1/me/wallets/\<close> with the id as one segment, free
  of separators, dots and escapes. A refused id leaves no backend to send with.\<close>

theorem wallet_selector_safe:
  "with_wallet wallet_id b =
     (if uuid_shape wallet_id then Ok (b\<lparr>sw_wallet_id := Some wallet_id\<rparr>)
      else Err (SkConfig ''wallet ID must be a UUID''))
   \<and> (\<forall>b' path. with_wallet wallet_id b = Ok b' \<longrightarrow>
        wallet_path b' path = ''/v1/me/wallets/'' @ wallet_id @ path
        \<and> set wallet_id \<inter> set ''/?#%.:@'' = {} \<and> sw_base_url b' = sw_base_url b)"
proof -
  have w: "with_wallet wallet_id b = (if uuid_shape wallet_id then Ok (b\<lparr>sw_wallet_id := Some wallet_id\<rparr>)
      else Err (SkConfig ''wallet ID must be a UUID''))"
    using uuid_shape_iff [of wallet_id] by (auto simp: with_wallet_def)
  have "\<not> is_ascii_hexdigit x \<and> x \<noteq> CHR ''-''" if "x \<in> set ''/?#%.:@''" for x
    using that by (auto simp: is_ascii_hexdigit_def is_ascii_digit_def byte_def)
  then have "set wallet_id \<inter> set ''/?#%.:@'' = {}" if "uuid_shape wallet_id"
    using uuid_chars [OF that] by blast
  then show ?thesis using w by (simp add: wallet_path_def)
qed

theorem wallet_selector_safe_witness:
  "\<exists>b'. with_wallet ''123e4567-e89b-12d3-a456-426614174000'' (swissknife_new ''https://x/'' ''k'') = Ok b'
     \<and> wallet_path b' ''/balance'' = ''/v1/me/wallets/123e4567-e89b-12d3-a456-426614174000/balance''"
proof -
  let ?id = "''123e4567-e89b-12d3-a456-426614174000''"
  have "list_all (list_all is_ascii_hexdigit) [''123e4567'', ''e89b'', ''12d3'', ''a456'', ''426614174000'']"
    by (simp add: is_ascii_hexdigit_def is_ascii_digit_def byte_def)
  then have "uuid_shape ?id" unfolding uuid_shape_def
    by (intro exI [of _ "''123e4567''"] exI [of _ "''e89b''"] exI [of _ "''12d3''"] exI [of _ "''a456''"]
        exI [of _ "''426614174000''"]) simp
  then show ?thesis using wallet_selector_safe [of ?id "swissknife_new ''https://x/'' ''k''"] by auto
qed

end
