(* ===== verification/Backends.thy ===== *)
theory Backends
  imports Client_Props Lnd Cln Swissknife
begin

text \<open>
  The backends under the client. \<open>with_backend\<close> puts a backend into the client's environment: the
  state of the world answers the requests, and moves on when they have been sent. The lemmas are
  proved once, in the contract \<open>ln_backend\<close>, and then hold of every backend crate.
\<close>

definition with_backend ::
  "bool \<Rightarrow> (('q \<Rightarrow> 'a) \<Rightarrow> string \<Rightarrow> u64 \<Rightarrow> (payment_result, client_error) rres \<times> 'q list)
   \<Rightarrow> ('w \<Rightarrow> 'q \<Rightarrow> 'a) \<Rightarrow> ('w \<Rightarrow> 'q list \<Rightarrow> 'w) \<Rightarrow> 'w env \<Rightarrow> 'w env" where
  "with_backend supports pay remote sent E = E\<lparr>
     e_supports_fee_limit := (\<lambda>_. supports),
     e_pay_invoice := (\<lambda>w bolt11 max_fee_sats.
       case pay (remote w) bolt11 max_fee_sats of (r, qs) \<Rightarrow> (r, sent w qs))\<rparr>"

lemma with_backend_pay:
  "fst (e_pay_invoice (with_backend supports pay remote sent E) w bolt11 cap) = fst (pay (remote w) bolt11 cap)"
  by (simp add: with_backend_def split: prod.splits)

text \<open>What \<open>pay_challenge\<close> did if it called the backend, failed, and let the invoice go.\<close>

lemma forgotten_run:
  assumes "pay_challenge E limits cfg invoice amount domain url start s = (Err e, s')"
    and "pays (drop (length (sy_log s)) (sy_log s')) = [(invoice, cap)]"
    and "cl_payments (sy_cl s') (to_ascii_lowercase invoice) = None"
  shows "is_confirmed_rejection e \<and> fst (e_pay_invoice E (sy_ext s) invoice cap) = Err e"
proof -
  obtain rv b pr where pr: "pr = fst (e_pay_invoice E (sy_ext s) invoice (rv_max_fee_sats rv))"
    and log: "sy_log s' = sy_log s @ PaySent invoice (rv_max_fee_sats rv) #
           (case pr of Ok p \<Rightarrow> [PaySettled p] | _ \<Rightarrow> [])"
    and bk: "booked (to_ascii_lowercase invoice) url amount rv b pr (sy_cl s) (sy_cl s') (Err e)"
    using pay_challenge_run [OF assms(1)] assms(2) by auto
  have cap: "rv_max_fee_sats rv = cap" using log assms(2) by simp
  show ?thesis
  proof (cases pr)
    case (Ok p)
    then show ?thesis using bk assms(3) by (auto simp: booked_def split: if_splits)
  next
    case (Err e')
    then show ?thesis using bk assms(3) pr cap by (auto simp: booked_def split: if_splits)
  next
    case Panic
    then show ?thesis using bk by (simp add: booked_def)
  qed
qed

context ln_backend
begin

lemma confirmed_was_not_paid:
  assumes "fst (pay remote bolt11 cap) = Err e" and "is_confirmed_rejection e"
  shows "snd (pay remote bolt11 cap) = []
    \<or> (\<exists>q. snd (pay remote bolt11 cap) = [q] \<and> order q \<noteq> None \<and> confirms_failure (remote q))"
proof -
  have "pay remote bolt11 cap = (Err e, snd (pay remote bolt11 cap))" using assms(1) by (metis prod.collapse)
  from released_was_not_paid [OF this assms(2) [unfolded confirmed_iff]] show ?thesis .
qed

lemma client_forgets_only_unpaid:
  assumes "pay_challenge (with_backend supports_fee_limit pay remote sent E) limits cfg invoice amount domain
      url start s = (Err e, s')"
    and "pays (drop (length (sy_log s)) (sy_log s')) = [(invoice, cap)]"
    and "cl_payments (sy_cl s') (to_ascii_lowercase invoice) = None"
  shows "snd (pay (remote (sy_ext s)) invoice cap) = []
    \<or> (\<exists>q. snd (pay (remote (sy_ext s)) invoice cap) = [q] \<and> order q \<noteq> None
          \<and> confirms_failure (remote (sy_ext s) q))"
  using forgotten_run [OF assms] confirmed_was_not_paid by (simp add: with_backend_pay)

lemma client_orders_within_cap:
  "\<forall>q \<in> set (snd (pay remote bolt11 cap)). \<exists>fee. order q = Some (bolt11, fee) \<and> fee \<le> 1000 * unat cap"
  using submits_order [of remote bolt11 cap "fst (pay remote bolt11 cap)" "snd (pay remote bolt11 cap)"] by simp

end

lemmas payment_defs = lnd_rest_pay_invoice_def lnd_grpc_pay_invoice_def cln_rest_pay_invoice_def
  cln_grpc_pay_invoice_def nwc_pay_invoice_def swissknife_pay_invoice_def

text \<open>Each capped backend that is called submits its order, except that an invalid macaroon stops gRPC
  with an error that frees nothing.\<close>

lemma lnd_rest_forgets:
  assumes "pay_challenge (with_backend lnd_rest_supports_fee_limit (lnd_rest_pay_invoice C parse b) remote sent E)
      limits cfg invoice amount domain url start s = (Err e, s')"
    and "pays (drop (length (sy_log s)) (sy_log s')) = [(invoice, cap)]"
    and "cl_payments (sy_cl s') (to_ascii_lowercase invoice) = None"
  shows "\<exists>q. snd (lnd_rest_pay_invoice C parse b (remote (sy_ext s)) invoice cap) = [q]
    \<and> lnd_rest_confirms_failure parse (remote (sy_ext s) q)"
  using lnd_rest_backend.client_forgets_only_unpaid [OF assms] by (auto simp: payment_defs Let_def)

lemma lnd_grpc_forgets:
  assumes "pay_challenge (with_backend lnd_grpc_supports_fee_limit (lnd_grpc_pay_invoice md internal b) remote sent E)
      limits cfg invoice amount domain url start s = (Err e, s')"
    and "pays (drop (length (sy_log s)) (sy_log s')) = [(invoice, cap)]"
    and "cl_payments (sy_cl s') (to_ascii_lowercase invoice) = None"
  shows "\<exists>q. snd (lnd_grpc_pay_invoice md internal b (remote (sy_ext s)) invoice cap) = [q]
    \<and> lnd_grpc_confirms_failure (remote (sy_ext s) q)"
proof (cases "intercept md internal b")
  case (Inl x)
  have "fst (lnd_grpc_pay_invoice md internal b (remote (sy_ext s)) invoice cap) = Err e"
    "is_confirmed_rejection e"
    using forgotten_run [OF assms] by (simp_all add: with_backend_pay)
  then show ?thesis using confirmed_iff [of e] Inl by (auto simp: payment_defs)
next
  case (Inr m)
  then show ?thesis using lnd_grpc_backend.client_forgets_only_unpaid [OF assms]
    by (auto simp: payment_defs Let_def)
qed

lemma cln_rest_forgets:
  assumes "pay_challenge (with_backend cln_rest_supports_fee_limit (cln_rest_pay_invoice parse b) remote sent E)
      limits cfg invoice amount domain url start s = (Err e, s')"
    and "pays (drop (length (sy_log s)) (sy_log s')) = [(invoice, cap)]"
    and "cl_payments (sy_cl s') (to_ascii_lowercase invoice) = None"
  shows "\<exists>q. snd (cln_rest_pay_invoice parse b (remote (sy_ext s)) invoice cap) = [q]
    \<and> cln_rest_confirms_failure parse (remote (sy_ext s) q)"
  using cln_rest_backend.client_forgets_only_unpaid [OF assms] by (auto simp: payment_defs Let_def)

lemma cln_grpc_never_forgets:
  assumes "pays (drop (length (sy_log s)) (sy_log s')) = [(invoice, cap)]"
    and "cl_payments (sy_cl s') (to_ascii_lowercase invoice) = None"
  shows "pay_challenge (with_backend cln_grpc_supports_fee_limit (cln_grpc_pay_invoice C) remote sent E)
      limits cfg invoice amount domain url start s \<noteq> (Err e, s')"
proof
  assume "pay_challenge (with_backend cln_grpc_supports_fee_limit (cln_grpc_pay_invoice C) remote sent E)
      limits cfg invoice amount domain url start s = (Err e, s')"
  from cln_grpc_backend.client_forgets_only_unpaid [OF this assms] show False
    by (simp add: payment_defs Let_def)
qed

lemma refusing_never_called:
  assumes "pays (drop (length (sy_log s)) (sy_log s')) = [(invoice, cap)]"
  shows "pay_challenge (with_backend default_supports_fee_limit p remote sent E)
        limits cfg invoice amount domain url start s \<noteq> (Err e, s')"
  using assms by (cases "cl_payments (sy_cl s) (to_ascii_lowercase invoice)")
    (auto simp: pay_challenge_def with_backend_def default_supports_fee_limit_def on_cl_eq claim_def
      bind_act_def split: option.splits)

section \<open>What a success stands for\<close>

lemma lnd_grpc_success:
  assumes "lnd_grpc_pay_invoice md internal b remote bolt11 cap = (Ok p, qs)"
  shows "\<exists>q pay. qs = [q] \<and> remote q = Message (Inr (Some pay)) \<and> gp_status pay = Succeeded
    \<and> pr_preimage p = gp_payment_preimage pay \<and> pr_payment_hash p = gp_payment_hash pay
    \<and> (if 0 \<le> sint (gp_value_msat pay) then covers_msat (pr_amount_sats p) (gp_value_msat pay) else pr_amount_sats p = 0)
    \<and> (if 0 \<le> sint (gp_fee_msat pay) then covers_msat (pr_fee_sats p) (gp_fee_msat pay) else pr_fee_sats p = 0)"
proof -
  obtain m where m: "intercept md internal b = Inr m"
    using assms by (cases "intercept md internal b") (simp_all add: lnd_grpc_pay_invoice_def)
  let ?q = "(m, lnd_grpc_request bolt11 cap)"
  have "lnd_grpc_answer (remote ?q) = Ok p" "qs = [?q]"
    using assms by (simp_all add: lnd_grpc_pay_invoice_def m Let_def)
  then show ?thesis
    by (auto simp: lnd_grpc_answer_def Let_def u64_from_i64_def div_ceil_zero split: grpc_stream.splits sum.splits
        option.splits payment_status.splits)
qed

text \<open>Amount and fee, each rounded up, cover what was sent.\<close>

lemma rounded_covers_sent:
  "unat sent \<le> 1000 * (unat (div_ceil amount 1000) + unat (div_ceil (saturating_sub sent amount) 1000))"
proof -
  have "unat amount \<le> 1000 * unat (div_ceil amount 1000)"
    "unat (saturating_sub sent amount) \<le> 1000 * unat (div_ceil (saturating_sub sent amount) 1000)"
    using div_ceil_covers_msat unfolding covers_msat_def by blast+
  moreover have "unat sent \<le> unat amount + unat (saturating_sub sent amount)"
    by (simp add: unat_saturating_sub)
  ultimately show ?thesis unfolding distrib_left by linarith
qed

lemma cln_rest_success:
  assumes "cln_rest_pay_invoice parse b remote bolt11 cap = (Ok p, qs)"
  shows "\<exists>q code body d. qs = [q] \<and> remote q = Reply code (Inr body) \<and> is_success code
    \<and> parse body = Inr d \<and> cp_status d = Some ''complete''
    \<and> cp_payment_preimage d = Some (pr_preimage p) \<and> cp_payment_hash d = Some (pr_payment_hash p)
    \<and> covers_msat (pr_amount_sats p) (msat_or_zero (cp_amount_msat d))
    \<and> covers_msat (pr_fee_sats p) (saturating_sub (msat_or_zero (cp_amount_sent_msat d)) (msat_or_zero (cp_amount_msat d)))
    \<and> unat (msat_or_zero (cp_amount_sent_msat d)) \<le> 1000 * (unat (pr_amount_sats p) + unat (pr_fee_sats p))"
proof -
  let ?q = "cln_call b ''/v1/pay'' (cln_payment_body bolt11 cap)"
  obtain d where d: "cln_json ''payment'' parse (remote ?q) = Ok d" "cln_read_payment d = Ok p" "qs = [?q]"
    using assms by (auto simp: cln_rest_pay_invoice_def Let_def rbind_Ok_iff)
  have st: "cp_status d = Some ''complete''"
    using d(2) by (cases "cp_status d") (auto simp: cln_read_payment_def Let_def split: if_splits)
  then have p: "cp_payment_preimage d = Some (pr_preimage p)" "cp_payment_hash d = Some (pr_payment_hash p)"
    "pr_amount_sats p = div_ceil (msat_or_zero (cp_amount_msat d)) 1000"
    "pr_fee_sats p = div_ceil (saturating_sub (msat_or_zero (cp_amount_sent_msat d)) (msat_or_zero (cp_amount_msat d))) 1000"
    using d(2) by (auto simp: cln_read_payment_def Let_def rbind_Ok_iff ok_or_def split: option.splits)
  show ?thesis using d(1,3) st p(1,2) rounded_covers_sent
    by (auto simp: cln_json_Ok_iff p(3,4))
qed

lemma cln_grpc_success:
  assumes "cln_grpc_pay_invoice C remote bolt11 cap = (Ok p, qs)"
  shows "\<exists>q r. qs = [q] \<and> remote q = Inr r \<and> pr_preimage p = cd_hex C (xr_payment_preimage r)
    \<and> pr_payment_hash p = cd_hex C (cd_sha256 C (xr_payment_preimage r))
    \<and> covers_msat (pr_amount_sats p) (opt_default 0 (xr_amount_msat r))
    \<and> covers_msat (pr_fee_sats p) (saturating_sub (opt_default 0 (xr_amount_sent_msat r)) (opt_default 0 (xr_amount_msat r)))
    \<and> unat (opt_default 0 (xr_amount_sent_msat r)) \<le> 1000 * (unat (pr_amount_sats p) + unat (pr_fee_sats p))"
  using assms rounded_covers_sent
  by (auto simp: cln_grpc_pay_invoice_def cln_grpc_answer_def Let_def split: sum.splits)

lemma swissknife_success:
  assumes "swissknife_pay_unbounded valid reason parse b remote bolt11 = (Ok p, qs)"
  shows "\<exists>q code body d. qs = [q] \<and> remote q = Reply code (Inr body) \<and> is_success code
    \<and> parse body = Inr d \<and> sk_status d = SkSettled
    \<and> (case sk_lightning d of
          Some l \<Rightarrow> lp_payment_preimage l = Some (pr_preimage p) \<and> pr_payment_hash p = lp_payment_hash l
        | None \<Rightarrow> sk_payment_preimage d = Some (pr_preimage p) \<and> pr_payment_hash p = opt_default [] (sk_payment_hash d))
    \<and> covers_msat (pr_amount_sats p) (sk_amount_msat d)
    \<and> covers_msat (pr_fee_sats p) (opt_default 0 (sk_fee_msat d))"
proof -
  obtain q where q: "qs = [q]" "rbind (swissknife_json reason parse (remote q)) settled_payment = Ok p"
    using assms by (auto simp: swissknife_pay_unbounded_def split: rres.splits)
  then obtain d where d: "swissknife_json reason parse (remote q) = Ok d" "settled_payment d = Ok p"
    by (auto simp: rbind_Ok_iff)
  then obtain code answer where "remote q = Reply code (Inr answer)" "is_success code" "parse answer = Inr d"
    by (auto simp: swissknife_json_def split: http_reply.splits sum.splits if_splits)
  moreover have "sk_status d = SkSettled
    \<and> (case sk_lightning d of
          Some l \<Rightarrow> lp_payment_preimage l = Some (pr_preimage p) \<and> pr_payment_hash p = lp_payment_hash l
        | None \<Rightarrow> sk_payment_preimage d = Some (pr_preimage p) \<and> pr_payment_hash p = opt_default [] (sk_payment_hash d))
    \<and> covers_msat (pr_amount_sats p) (sk_amount_msat d)
    \<and> covers_msat (pr_fee_sats p) (opt_default 0 (sk_fee_msat d))"
    using d(2) by (auto simp: settled_payment_def rbind_Ok_iff ok_or_def
        split: sk_payment_status.splits option.splits prod.splits)
  ultimately show ?thesis using q(1) by blast
qed

section \<open>Properties\<close>

text \<open>C9. The client lets go of an invoice, so that it may be paid again, only when it is certain that
  it was not paid: with LND over REST, LND over gRPC or CLN over REST, a call to the backend after
  which the invoice is no longer known was one whose answer was the node's final report of
  failure; with CLN over gRPC, NWC and SwissKnife no such call exists. No failure of the transport,
  no unreadable answer and no error status frees an invoice that was submitted.\<close>

theorem forgotten_invoice_is_unpaid:
  assumes "cl_payments (sy_cl s') (to_ascii_lowercase invoice) = None"
    and "pays (drop (length (sy_log s)) (sy_log s')) = [(invoice, cap)]"
  shows "(pay_challenge (with_backend lnd_rest_supports_fee_limit (lnd_rest_pay_invoice C parse b) remote1 sent1 E)
        limits cfg invoice amount domain url start s = (Err e, s') \<longrightarrow>
        (\<exists>q. snd (lnd_rest_pay_invoice C parse b (remote1 (sy_ext s)) invoice cap) = [q]
          \<and> lnd_rest_confirms_failure parse (remote1 (sy_ext s) q)))
    \<and> (pay_challenge (with_backend lnd_grpc_supports_fee_limit (lnd_grpc_pay_invoice md internal b2) remote2 sent2 E)
        limits cfg invoice amount domain url start s = (Err e, s') \<longrightarrow>
        (\<exists>q. snd (lnd_grpc_pay_invoice md internal b2 (remote2 (sy_ext s)) invoice cap) = [q]
          \<and> lnd_grpc_confirms_failure (remote2 (sy_ext s) q)))
    \<and> (pay_challenge (with_backend cln_rest_supports_fee_limit (cln_rest_pay_invoice parse3 b3) remote3 sent3 E)
        limits cfg invoice amount domain url start s = (Err e, s') \<longrightarrow>
        (\<exists>q. snd (cln_rest_pay_invoice parse3 b3 (remote3 (sy_ext s)) invoice cap) = [q]
          \<and> cln_rest_confirms_failure parse3 (remote3 (sy_ext s) q)))
    \<and> pay_challenge (with_backend cln_grpc_supports_fee_limit (cln_grpc_pay_invoice C) remote4 sent4 E)
        limits cfg invoice amount domain url start s \<noteq> (Err e, s')
    \<and> pay_challenge (with_backend default_supports_fee_limit nwc_pay_invoice remote5 sent5 E)
        limits cfg invoice amount domain url start s \<noteq> (Err e, s')
    \<and> pay_challenge (with_backend default_supports_fee_limit swissknife_pay_invoice remote6 sent6 E)
        limits cfg invoice amount domain url start s \<noteq> (Err e, s')"
  by (intro conjI impI; (rule lnd_rest_forgets [OF _ assms(2,1)] lnd_grpc_forgets [OF _ assms(2,1)]
      cln_rest_forgets [OF _ assms(2,1)] cln_grpc_never_forgets [OF assms(2,1)]
      refusing_never_called [OF assms(2)]; assumption?))

text \<open>An instance: LND reports over gRPC that the payment failed.\<close>

definition failed_payment :: grpc_payment where
  "failed_payment = \<lparr>gp_status = Failed, gp_payment_preimage = [], gp_payment_hash = [], gp_value_msat = 0,
     gp_fee_msat = 0, gp_failure_reason = FailureReasonNoRoute\<rparr>"

definition sample_grpc :: lnd_grpc where
  "sample_grpc = \<lparr>lg_macaroon = ''00'', lg_ca = [], lg_domain = ''localhost'', lg_address = ''https://n''\<rparr>"

lemma sample_failed:
  "lnd_grpc_pay_invoice Some id sample_grpc (\<lambda>_. Message (Inr (Some failed_payment))) invoice cap =
     (Err (PaymentRejected ''FailureReasonNoRoute''), [(''00'', lnd_grpc_request invoice cap)])"
  by (simp add: payment_defs intercept_def sample_grpc_def lnd_grpc_answer_def failed_payment_def Let_def)

theorem forgotten_invoice_is_unpaid_witness:
  "\<exists>s'. pay_challenge (with_backend lnd_grpc_supports_fee_limit (lnd_grpc_pay_invoice Some id sample_grpc)
       (\<lambda>_ _. Message (Inr (Some failed_payment))) (\<lambda>w _. w) sample_env) unlimited
     sample_config ''lnbc10u1x'' 1000 (Some ''h'') ''u'' 0 sample_sys
       = (Err (PaymentRejected ''FailureReasonNoRoute''), s')
     \<and> lnd_grpc_confirms_failure (Message (Inr (Some failed_payment)))"
proof -
  let ?E = "with_backend lnd_grpc_supports_fee_limit (lnd_grpc_pay_invoice Some id sample_grpc)
       (\<lambda>_ _. Message (Inr (Some failed_payment))) (\<lambda>w _. w) sample_env"
  have pay: "e_pay_invoice ?E () ''lnbc10u1x'' 100 = (Err (PaymentRejected ''FailureReasonNoRoute''), ())"
    by (simp add: with_backend_def sample_failed)
  have sup: "e_supports_fee_limit ?E () = True" "now_secs ?E () = 7200"
    by (simp_all add: with_backend_def lnd_grpc_supports_fee_limit_def now_secs_def sample_env_def)
  obtain r s' where run: "pay_challenge ?E unlimited sample_config ''lnbc10u1x'' 1000 (Some ''h'') ''u'' 0 sample_sys
      = (r, s')" by fastforce
  have s': "r = Err (PaymentRejected ''FailureReasonNoRoute'')" "sy_log s' = [PaySent ''lnbc10u1x'' 100]"
    "cl_payments (sy_cl s') ''lnbc10u1x'' = None"
    using run pay sup
    by (auto simp: pay_challenge_def Let_def sample_lower on_cl_eq claim_def sample_sys_def client_start_def
      config_default_def sample_reserved bind_act_def pay_new_def call_pay_def log_call_def
      is_confirmed_rejection_def release_claim_def forget_claim_def)
  then have p: "pays (drop (length (sy_log sample_sys)) (sy_log s')) = [(''lnbc10u1x'', 100)]"
    "cl_payments (sy_cl s') (to_ascii_lowercase ''lnbc10u1x'') = None"
    by (simp_all add: sample_sys_def sample_lower)
  show ?thesis using forgotten_invoice_is_unpaid [OF p(2,1)] run s'(1) sample_failed by fastforce
qed

text \<open>C26. The fee cap granted by the budget is what the node is told to enforce: every capped backend
  submits one order, for exactly the invoice, capped at exactly the granted satoshis (in the units
  of its API, saturated only beyond what the field can hold); the uncapped backends send nothing.\<close>

theorem fee_cap_reaches_the_node:
  "(\<exists>q. snd (lnd_rest_pay_invoice C parse b remote1 bolt11 cap) = [q]
      \<and> lnd_rest_order q = Some (bolt11, 1000 * unat cap))
   \<and> snd (lnd_grpc_pay_invoice md internal b2 remote2 bolt11 cap) =
      (case intercept md internal b2 of Inl _ \<Rightarrow> [] | Inr m \<Rightarrow> [(m, lnd_grpc_request bolt11 cap)])
   \<and> lnd_grpc_order (m, lnd_grpc_request bolt11 cap) = Some (bolt11, 1000 * min (unat cap) (2 ^ 63 - 1))
   \<and> (\<exists>q. snd (cln_rest_pay_invoice parse3 b3 remote3 bolt11 cap) = [q]
      \<and> cln_rest_order q = Some (bolt11, min (1000 * unat cap) (2 ^ 64 - 1)))
   \<and> (\<exists>q. snd (cln_grpc_pay_invoice C remote4 bolt11 cap) = [q]
      \<and> cln_grpc_order q = Some (bolt11, min (1000 * unat cap) (2 ^ 64 - 1)))
   \<and> snd (nwc_pay_invoice remote5 bolt11 cap) = [] \<and> snd (swissknife_pay_invoice remote6 bolt11 cap) = []"
proof -
  have "lnd_grpc_order (m, lnd_grpc_request bolt11 cap) = Some (bolt11, 1000 * min (unat cap) (2 ^ 63 - 1))"
    by (auto simp: lnd_grpc_order_def lnd_grpc_request_def i64_max_word_def word_le_nat_alt min_def)
  then show ?thesis
    by (simp add: payment_defs Let_def cln_grpc_order_def cln_xpay_request_def unat_saturating_mul mult.commute
        split: sum.split)
qed

text \<open>C17. What each way to pay reports as success: LND over REST a proof from the last update that says
  \<open>SUCCEEDED\<close>; LND over gRPC the proof of a payment with status \<open>Succeeded\<close>; CLN over REST that of an answer
  with status \<open>complete\<close>; CLN over gRPC and NWC the preimage of a reply that is no error (those
  protocols have no status); SwissKnife the proof of a \<open>Settled\<close> payment. Amounts and fees are those of the answer,
  rounded up to satoshis, where a missing, unreadable or negative field counts as zero; for CLN amount and fee together cover
  what was sent. An answer of NWC names neither amount nor payment hash, which are
  reported as zero and empty.\<close>

theorem success_is_settled:
  "(lnd_rest_pay_invoice C0 parse0 b0 remote0 bolt11 cap = (Ok p, qs0) \<longrightarrow>
     (\<exists>q code text before line after r. qs0 = [q] \<and> remote0 q = Reply code (Inr text) \<and> is_success code
      \<and> stream_lines text = before @ line # after \<and> list_all (unsuccessful_line parse0) after
      \<and> parse0 line = Inr r \<and> proven_by C0 p (select_update r)))
   \<and> (lnd_grpc_pay_invoice md internal b1 remote1 bolt11 cap = (Ok p, qs1) \<longrightarrow>
     (\<exists>q pay. qs1 = [q] \<and> remote1 q = Message (Inr (Some pay)) \<and> gp_status pay = Succeeded
      \<and> pr_preimage p = gp_payment_preimage pay \<and> pr_payment_hash p = gp_payment_hash pay
      \<and> (if 0 \<le> sint (gp_value_msat pay) then covers_msat (pr_amount_sats p) (gp_value_msat pay) else pr_amount_sats p = 0)
      \<and> (if 0 \<le> sint (gp_fee_msat pay) then covers_msat (pr_fee_sats p) (gp_fee_msat pay) else pr_fee_sats p = 0)))
   \<and> (cln_rest_pay_invoice parse2 b2 remote2 bolt11 cap = (Ok p, qs2) \<longrightarrow>
     (\<exists>q code body d. qs2 = [q] \<and> remote2 q = Reply code (Inr body) \<and> is_success code
      \<and> parse2 body = Inr d \<and> cp_status d = Some ''complete''
      \<and> cp_payment_preimage d = Some (pr_preimage p) \<and> cp_payment_hash d = Some (pr_payment_hash p)
      \<and> covers_msat (pr_amount_sats p) (msat_or_zero (cp_amount_msat d))
      \<and> covers_msat (pr_fee_sats p) (saturating_sub (msat_or_zero (cp_amount_sent_msat d)) (msat_or_zero (cp_amount_msat d)))
      \<and> unat (msat_or_zero (cp_amount_sent_msat d)) \<le> 1000 * (unat (pr_amount_sats p) + unat (pr_fee_sats p))))
   \<and> (cln_grpc_pay_invoice C remote3 bolt11 cap = (Ok p, qs3) \<longrightarrow>
     (\<exists>q r. qs3 = [q] \<and> remote3 q = Inr r \<and> pr_preimage p = cd_hex C (xr_payment_preimage r)
      \<and> pr_payment_hash p = cd_hex C (cd_sha256 C (xr_payment_preimage r))
      \<and> covers_msat (pr_amount_sats p) (opt_default 0 (xr_amount_msat r))
      \<and> covers_msat (pr_fee_sats p) (saturating_sub (opt_default 0 (xr_amount_sent_msat r)) (opt_default 0 (xr_amount_msat r)))
      \<and> unat (opt_default 0 (xr_amount_sent_msat r)) \<le> 1000 * (unat (pr_amount_sats p) + unat (pr_fee_sats p))))
   \<and> (swissknife_pay_unbounded valid reason parse4 b4 remote4 bolt11 = (Ok p, qs4) \<longrightarrow>
     (\<exists>q code body d. qs4 = [q] \<and> remote4 q = Reply code (Inr body) \<and> is_success code
      \<and> parse4 body = Inr d \<and> sk_status d = SkSettled
      \<and> (case sk_lightning d of
            Some l \<Rightarrow> lp_payment_preimage l = Some (pr_preimage p) \<and> pr_payment_hash p = lp_payment_hash l
          | None \<Rightarrow> sk_payment_preimage d = Some (pr_preimage p) \<and> pr_payment_hash p = opt_default [] (sk_payment_hash d))
      \<and> covers_msat (pr_amount_sats p) (sk_amount_msat d)
      \<and> covers_msat (pr_fee_sats p) (opt_default 0 (sk_fee_msat d))))
   \<and> (nwc_pay_invoice_unbounded remote5 bolt11 = (Ok p, qs5) \<longrightarrow>
     (\<exists>fees. qs5 = [bolt11] \<and> remote5 bolt11 = Inr (pr_preimage p, fees)
      \<and> pr_payment_hash p = [] \<and> pr_amount_sats p = 0
      \<and> covers_msat (pr_fee_sats p) (opt_default 0 fees)))
   \<and> nwc_pay_invoice remote5 bolt11 cap = (Err FeeLimitUnsupported, [])
   \<and> swissknife_pay_invoice remote4 bolt11 cap = (Err FeeLimitUnsupported, [])"
  by (intro conjI impI; (rule lnd_rest_success lnd_grpc_success cln_rest_success cln_grpc_success swissknife_success
      nwc_unbounded_success nwc_pay_invoice_def swissknife_pay_invoice_def; assumption?))

text \<open>An instance: CLN reports over gRPC that 1500 millisatoshis were sent for an invoice of 1000.\<close>

theorem success_is_settled_witness:
  "\<exists>p qs. cln_grpc_pay_invoice sample_codec
        (\<lambda>_. Inr \<lparr>xr_payment_preimage = ''p'', xr_amount_msat = Some 1000, xr_amount_sent_msat = Some 1500\<rparr>) ''lnbc1'' 9
      = (Ok p, qs) \<and> 1500 \<le> 1000 * (unat (pr_amount_sats p) + unat (pr_fee_sats p))"
proof -
  let ?r = "\<lparr>xr_payment_preimage = ''p'', xr_amount_msat = Some 1000, xr_amount_sent_msat = Some 1500\<rparr>"
  obtain p qs where run: "cln_grpc_pay_invoice sample_codec (\<lambda>_. Inr ?r) ''lnbc1'' 9 = (Ok p, qs)"
    by (simp add: cln_grpc_pay_invoice_def cln_grpc_answer_def Let_def)
  have "unat (opt_default 0 (xr_amount_sent_msat ?r)) \<le> 1000 * (unat (pr_amount_sats p) + unat (pr_fee_sats p))"
    using success_is_settled [THEN conjunct2, THEN conjunct2, THEN conjunct2, THEN conjunct1, THEN mp, OF run] by auto
  then show ?thesis using run by auto
qed

end
