(* ===== verification/Client_Proofs.thy ===== *)
theory Client_Proofs
  imports Client_Life Backends
begin

text \<open>
  What the receipts of a client stand for. Every receipt repeats an answer of the backend
  (\<open>receipts_answered\<close>); so what a backend guarantees of its answers holds of the receipts for the
  whole life of the client, whichever requests were made.
\<close>

section \<open>Receipts repeat the answers of the backend\<close>

definition answered_by :: "'w env \<Rightarrow> receipt \<Rightarrow> bool" where
  "answered_by E rc \<longleftrightarrow> (\<exists>w invoice cap p. fst (e_pay_invoice E w invoice cap) = Ok p
     \<and> receipt_core rc = payment_core (rc_endpoint rc) p)"

definition receipts_answered :: "'w env \<Rightarrow> client_state \<Rightarrow> bool" where
  "receipts_answered E cl \<longleftrightarrow> (\<forall>rc \<in> set (cl_receipts cl). answered_by E rc)"

lemma answered_core: "receipt_core rc = receipt_core rc' \<Longrightarrow> answered_by E rc' \<Longrightarrow> answered_by E rc"
  by (simp add: answered_by_def) (simp add: receipt_core_def)

lemma answered_same:
  assumes "map receipt_core (cl_receipts cl') = map receipt_core (cl_receipts cl)" and "receipts_answered E cl"
  shows "receipts_answered E cl'"
  unfolding receipts_answered_def
proof
  fix rc assume "rc \<in> set (cl_receipts cl')"
  then have "receipt_core rc \<in> receipt_core ` set (cl_receipts cl)" using assms(1) by (metis imageI set_map)
  then show "answered_by E rc" using assms(2) answered_core by (auto simp: receipts_answered_def)
qed

lemma answered_more:
  assumes "map receipt_core (cl_receipts cl') = map receipt_core (cl_receipts cl) @ [payment_core url p]"
    and "receipts_answered E cl" and "fst (e_pay_invoice E w invoice cap) = Ok p"
  shows "receipts_answered E cl'"
proof -
  define rc :: receipt where "rc = \<lparr>rc_timestamp = 0, rc_endpoint = url, rc_amount_sats = pr_amount_sats p,
    rc_fee_sats = pr_fee_sats p, rc_payment_hash = pr_payment_hash p, rc_preimage = pr_preimage p,
    rc_response_status = 0, rc_latency_ms = 0\<rparr>"
  have core: "receipt_core rc = payment_core url p" by (simp add: rc_def receipt_core_def payment_core_def)
  have "answered_by E rc" unfolding answered_by_def using assms(3) core by (auto simp: rc_def)
  with assms(1,2) core have "map receipt_core (cl_receipts cl') = map receipt_core (cl_receipts cl @ [rc])"
    and "receipts_answered E (cl\<lparr>cl_receipts := cl_receipts cl @ [rc]\<rparr>)"
    by (auto simp: receipts_answered_def)
  then show ?thesis using answered_same [of cl' "cl\<lparr>cl_receipts := cl_receipts cl @ [rc]\<rparr>"] by simp
qed

lemma answered_quiet:
  "quiet meth url body s s' \<Longrightarrow> receipts_answered E (sy_cl s) \<Longrightarrow> receipts_answered E (sy_cl s')"
  unfolding quiet_def same_books_def using answered_same by blast

lemma answered_payment:
  assumes "pay_challenge E limits cfg invoice amount domain url start s = (r, s')" and "r \<noteq> Panic"
    and "receipts_answered E (sy_cl s)"
  shows "receipts_answered E (sy_cl s')"
  using pay_challenge_run [OF assms(1)]
proof (elim disjE exE conjE)
  fix rv b pr
  assume pr: "pr = fst (e_pay_invoice E (sy_ext s) invoice (rv_max_fee_sats rv))"
    and bk: "booked (to_ascii_lowercase invoice) url amount rv b pr (sy_cl s) (sy_cl s') r"
  show ?thesis
  proof (cases pr)
    case (Ok p)
    then have "map receipt_core (cl_receipts (sy_cl s')) = map receipt_core (cl_receipts (sy_cl s)) @ [payment_core url p]"
      using bk assms(2) by (simp add: booked_def)
    then show ?thesis using assms(3) by (rule answered_more) (use Ok pr in simp)
  next
    case (Err e)
    then have "cl_receipts (sy_cl s') = cl_receipts (sy_cl s)" using bk by (simp add: booked_def)
    then show ?thesis using assms(3) by (simp add: receipts_answered_def)
  qed (use bk assms(2) in \<open>simp add: booked_def\<close>)
qed (use assms(3) in \<open>simp_all add: receipts_answered_def\<close>)

lemma answered_answer:
  assumes "answer_challenge E limits cfg meth url body start response s = (r, s')" and "r \<noteq> Panic"
    and "receipts_answered E (sy_cl s)"
  shows "receipts_answered E (sy_cl s')"
  using assms unfolding answer_challenge_def
  by (auto elim!: bind_actE dest: answered_payment intro: answered_quiet [OF quiet_actD [OF quiet_retry]])

lemma answered_request:
  assumes "request E limits cfg meth url body s = (r, s')" and "r \<noteq> Panic" and "receipts_answered E (sy_cl s)"
  shows "receipts_answered E (sy_cl s')"
  using request_parts [OF assms(1)] assms(2,3) answered_quiet answered_answer by metis

lemma life_answered:
  assumes "client_life E limits cfg s"
  shows "receipts_answered E (sy_cl s)"
  using assms
proof induction
  case (built w)
  show ?case by (simp add: receipts_answered_def client_start_def)
qed (use answered_request in auto)

lemma life_receipt:
  assumes "client_life (with_backend supports pay remote sent E) limits cfg s" and "rc \<in> set (cl_receipts (sy_cl s))"
  shows "\<exists>w invoice cap p qs. pay (remote w) invoice cap = (Ok p, qs)
    \<and> rc_payment_hash rc = pr_payment_hash p \<and> rc_preimage rc = pr_preimage p"
proof -
  obtain w invoice cap p where "fst (pay (remote w) invoice cap) = Ok p"
    and "receipt_core rc = payment_core (rc_endpoint rc) p"
    using life_answered [OF assms(1)] assms(2) by (auto simp: receipts_answered_def answered_by_def with_backend_pay)
  then show ?thesis
    by (intro exI [of _ w] exI [of _ invoice] exI [of _ cap] exI [of _ p] exI [of _ "snd (pay (remote w) invoice cap)"])
      (auto simp: receipt_core_def payment_core_def prod_eq_iff)
qed

lemma lnd_rest_proof:
  assumes "lnd_rest_pay_invoice C parse b remote bolt11 cap = (Ok p, qs)"
  shows "\<exists>bytes. cd_unhex C (pr_preimage p) = Inr bytes \<and> pr_payment_hash p = cd_hex C (cd_sha256 C bytes)"
  using lnd_rest_success [OF assms] by (auto simp: proven_by_def)

section \<open>Property\<close>

text \<open>C10. The receipts of a client are proofs of payment, over its whole life: over LND REST and CLN gRPC
  the payment hash of every receipt is the SHA-256 hash of its preimage; over LND gRPC and CLN REST
  hash and preimage of every receipt are those of an answer of the node that says the payment is
  complete; over NWC and SwissKnife, which refuse capped payments, there is no receipt.\<close>

theorem receipts_are_proofs:
  assumes "rc \<in> set (cl_receipts (sy_cl s))"
  shows "(client_life (with_backend lnd_rest_supports_fee_limit (lnd_rest_pay_invoice C parse1 b1) remote1 sent1 E)
        limits cfg s \<longrightarrow>
        (\<exists>bytes. cd_unhex C (rc_preimage rc) = Inr bytes \<and> rc_payment_hash rc = cd_hex C (cd_sha256 C bytes)))
    \<and> (client_life (with_backend cln_grpc_supports_fee_limit (cln_grpc_pay_invoice C) remote2 sent2 E)
        limits cfg s \<longrightarrow>
        (\<exists>bytes. rc_preimage rc = cd_hex C bytes \<and> rc_payment_hash rc = cd_hex C (cd_sha256 C bytes)))
    \<and> (client_life (with_backend lnd_grpc_supports_fee_limit (lnd_grpc_pay_invoice md internal b3) remote3 sent3 E)
        limits cfg s \<longrightarrow>
        (\<exists>w q pay. remote3 w q = Message (Inr (Some pay)) \<and> gp_status pay = Succeeded
          \<and> rc_preimage rc = gp_payment_preimage pay \<and> rc_payment_hash rc = gp_payment_hash pay))
    \<and> (client_life (with_backend cln_rest_supports_fee_limit (cln_rest_pay_invoice parse4 b4) remote4 sent4 E)
        limits cfg s \<longrightarrow>
        (\<exists>w q code body d. remote4 w q = Reply code (Inr body) \<and> is_success code \<and> parse4 body = Inr d
          \<and> cp_status d = Some ''complete'' \<and> cp_payment_preimage d = Some (rc_preimage rc)
          \<and> cp_payment_hash d = Some (rc_payment_hash rc)))
    \<and> \<not> client_life (with_backend default_supports_fee_limit nwc_pay_invoice remote5 sent5 E) limits cfg s
    \<and> \<not> client_life (with_backend default_supports_fee_limit swissknife_pay_invoice remote6 sent6 E) limits cfg s"
proof (intro conjI impI notI)
  assume "client_life (with_backend lnd_rest_supports_fee_limit (lnd_rest_pay_invoice C parse1 b1) remote1 sent1 E)
      limits cfg s"
  from life_receipt [OF this assms]
  show "\<exists>bytes. cd_unhex C (rc_preimage rc) = Inr bytes \<and> rc_payment_hash rc = cd_hex C (cd_sha256 C bytes)"
    using lnd_rest_proof by metis
next
  assume "client_life (with_backend cln_grpc_supports_fee_limit (cln_grpc_pay_invoice C) remote2 sent2 E) limits cfg s"
  from life_receipt [OF this assms]
  show "\<exists>bytes. rc_preimage rc = cd_hex C bytes \<and> rc_payment_hash rc = cd_hex C (cd_sha256 C bytes)"
    using cln_grpc_success by metis
next
  assume "client_life (with_backend lnd_grpc_supports_fee_limit (lnd_grpc_pay_invoice md internal b3) remote3 sent3 E)
      limits cfg s"
  from life_receipt [OF this assms]
  show "\<exists>w q pay. remote3 w q = Message (Inr (Some pay)) \<and> gp_status pay = Succeeded
      \<and> rc_preimage rc = gp_payment_preimage pay \<and> rc_payment_hash rc = gp_payment_hash pay"
    using lnd_grpc_success by metis
next
  assume "client_life (with_backend cln_rest_supports_fee_limit (cln_rest_pay_invoice parse4 b4) remote4 sent4 E)
      limits cfg s"
  from life_receipt [OF this assms]
  show "\<exists>w q code body d. remote4 w q = Reply code (Inr body) \<and> is_success code \<and> parse4 body = Inr d
      \<and> cp_status d = Some ''complete'' \<and> cp_payment_preimage d = Some (rc_preimage rc)
      \<and> cp_payment_hash d = Some (rc_payment_hash rc)"
    using cln_rest_success by metis
next
  assume "client_life (with_backend default_supports_fee_limit nwc_pay_invoice remote5 sent5 E) limits cfg s"
  from life_receipt [OF this assms] show False by (simp add: nwc_pay_invoice_def)
next
  assume "client_life (with_backend default_supports_fee_limit swissknife_pay_invoice remote6 sent6 E) limits cfg s"
  from life_receipt [OF this assms] show False by (simp add: swissknife_pay_invoice_def)
qed

text \<open>An instance: LND REST proves a payment of other amounts than authorized; its receipt is kept.\<close>

definition proven_env :: "unit env" where
  "proven_env = with_backend lnd_rest_supports_fee_limit (lnd_rest_pay_invoice sample_codec sample_parse sample_rest)
     (\<lambda>_ _. Reply 200 (Inr (CHR ''w'' # CHR 0x0A # ''ok''))) (\<lambda>w _. w) sample_env"

definition proven_payment :: payment_result where
  "proven_payment = \<lparr>pr_preimage = ''p'', pr_payment_hash = ''p'', pr_amount_sats = 2, pr_fee_sats = 3\<rparr>"

lemma proven_env_fields:
  "e_pay_invoice proven_env w invoice cap = (Ok proven_payment, w)"
  "e_supports_fee_limit proven_env w" "e_clock proven_env w = Some 7200" "e_instant proven_env w = 0"
  "request_domain proven_env u = Some ''h''"
  "extract_challenge proven_env response = extract_challenge sample_env response"
  "find_token proven_env ''u'' sample_sys = (Ok None, sample_sys)"
  using sample_domain [of u]
  by (simp_all add: proven_env_def with_backend_def sample_paid lnd_rest_supports_fee_limit_def sample_env_def
      request_domain_def extract_challenge_def find_token_def store_get_def bind_act_def sample_sys_def
      client_start_def proven_payment_def)

definition demanded_sys :: "unit sys" where
  "demanded_sys = sample_sys\<lparr>sy_log := [HttpSent (plain_request ''GET'' ''u'' None) (Inr \<lparr>rs_status = 402,
     rs_origin = ''o'', rs_www_authenticate = Some sample_header, rs_body = []\<rparr>)]\<rparr>"

lemma proven_send:
  "send_request proven_env ''GET'' ''u'' None sample_sys = (Ok \<lparr>rs_status = 402, rs_origin = ''o'',
     rs_www_authenticate = Some sample_header, rs_body = []\<rparr>, demanded_sys)"
  by (simp add: send_request_def send_checked_def proven_env_def with_backend_def sample_env_def log_call_def
      sample_sys_def demanded_sys_def)

lemma proven_pay:
  "\<exists>s. pay_challenge proven_env unlimited sample_config ''lnbc10u1x'' 1000 (Some ''h'') ''u'' 0 demanded_sys
     = (Err (Backend violation_text), s) \<and> (\<exists>rc. cl_receipts (sy_cl s) = [rc] \<and> rc_preimage rc = ''p'')"
  by (simp add: pay_challenge_def Let_def sample_lower on_cl_eq claim_def sample_sys_def client_start_def
      proven_env_fields config_default_def now_secs_def sample_reserved bind_act_def pay_new_def call_pay_def
      log_call_def after_payment_def payment_receipt_def receipt_new_def elapsed_ms_def demanded_sys_def
      payment_violation_def proven_payment_def payment_total_def checked_add_def push_receipt_def
      settle_payment_def settle_at_def lift_res_def)

lemma proven_request:
  "\<exists>s. request proven_env unlimited sample_config ''GET'' ''u'' None sample_sys = (Err (Backend violation_text), s)
     \<and> (\<exists>rc. cl_receipts (sy_cl s) = [rc] \<and> rc_preimage rc = ''p'')"
  using proven_pay
  by (auto simp: request_def Let_def bind_act_def proven_env_fields try_cached_def proven_send PAYMENT_REQUIRED_def
      answer_challenge_def sample_challenge sample_amount)

theorem receipts_are_proofs_witness:
  "\<exists>s rc. client_life proven_env unlimited sample_config s \<and> cl_receipts (sy_cl s) = [rc]
     \<and> rc_preimage rc = ''p'' \<and> rc_payment_hash rc = ''p''"
proof -
  obtain s rc where run: "request proven_env unlimited sample_config ''GET'' ''u'' None sample_sys =
      (Err (Backend violation_text), s)" and rc: "cl_receipts (sy_cl s) = [rc]" "rc_preimage rc = ''p''"
    using proven_request by blast
  have life: "client_life proven_env unlimited sample_config s"
    by (rule client_life.requested [OF client_life.built [of _ _ _ "()"] run [unfolded sample_sys_def]]) simp
  have "rc \<in> set (cl_receipts (sy_cl s))" using rc(1) by simp
  from receipts_are_proofs [OF this, THEN conjunct1, THEN mp, OF life [unfolded proven_env_def]]
  have "\<exists>bytes. cd_unhex sample_codec (rc_preimage rc) = Inr bytes
      \<and> rc_payment_hash rc = cd_hex sample_codec (cd_sha256 sample_codec bytes)" .
  then show ?thesis using life rc by (auto simp: sample_codec_def)
qed

end
