(* ===== verification/Token_Cache.thy ===== *)
theory Token_Cache
  imports Proto_Types
begin

text \<open>
  \<open>crates/l402-core/src/cache.rs\<close>: the in-memory token store. A call holds the lock for its whole
  body, so a call is one step of the state. The hash map is an association list with distinct
  keys, because \<open>put\<close> asks for its length.
\<close>

record cache_inner =
  ci_tokens :: "(string \<times> string \<times> string) list"
  ci_insertion_order :: "string list"
  ci_capacity :: nat

definition cache_new :: "nat \<Rightarrow> cache_inner" where
  "cache_new capacity = \<lparr>ci_tokens = [], ci_insertion_order = [], ci_capacity = capacity\<rparr>"

definition cache_default :: cache_inner where
  "cache_default = cache_new 1024"

text \<open>The three blocks of \<open>put\<close>: evict, forget the old position, insert at the end.\<close>

definition evict_oldest :: "string \<Rightarrow> cache_inner \<Rightarrow> cache_inner" where
  "evict_oldest endpoint s =
     (if ci_capacity s \<le> length (ci_tokens s) \<and> map_of (ci_tokens s) endpoint = None
      then case ci_insertion_order s of
             [] \<Rightarrow> s
           | oldest # rest \<Rightarrow>
               s\<lparr>ci_tokens := AList.delete oldest (ci_tokens s), ci_insertion_order := rest\<rparr>
      else s)"

definition cache_put :: "cache_inner \<Rightarrow> string \<Rightarrow> string \<Rightarrow> string
    \<Rightarrow> (unit, client_error) rres \<times> cache_inner" where
  "cache_put s0 endpoint macaroon preimage =
     (let s1 = evict_oldest endpoint s0;
          s2 = (if map_of (ci_tokens s1) endpoint \<noteq> None
                then s1\<lparr>ci_insertion_order := filter (\<lambda>k. k \<noteq> endpoint) (ci_insertion_order s1)\<rparr>
                else s1)
      in (Ok (), s2\<lparr>ci_tokens := AList.update endpoint (macaroon, preimage) (ci_tokens s2),
                    ci_insertion_order := ci_insertion_order s2 @ [endpoint]\<rparr>))"

definition cache_get :: "cache_inner \<Rightarrow> string \<Rightarrow> ((string \<times> string) option, client_error) rres" where
  "cache_get s endpoint = Ok (map_of (ci_tokens s) endpoint)"

definition cache_remove :: "cache_inner \<Rightarrow> string \<Rightarrow> (unit, client_error) rres \<times> cache_inner" where
  "cache_remove s endpoint =
     (Ok (), s\<lparr>ci_tokens := AList.delete endpoint (ci_tokens s),
               ci_insertion_order := filter (\<lambda>k. k \<noteq> endpoint) (ci_insertion_order s)\<rparr>)"

definition cache_clear :: "cache_inner \<Rightarrow> (unit, client_error) rres \<times> cache_inner" where
  "cache_clear s = (Ok (), s\<lparr>ci_tokens := [], ci_insertion_order := []\<rparr>)"

section \<open>The invariant\<close>

text \<open>Both fields hold the same keys, once each, and at most the capacity (but at least one).\<close>

definition cache_inv :: "cache_inner \<Rightarrow> bool" where
  "cache_inv s \<longleftrightarrow> distinct (map fst (ci_tokens s)) \<and> distinct (ci_insertion_order s)
     \<and> set (ci_insertion_order s) = fst ` set (ci_tokens s)
     \<and> length (ci_tokens s) \<le> max 1 (ci_capacity s)"

lemma cache_new_inv: "cache_inv (cache_new n)"
  by (simp add: cache_new_def cache_inv_def)

lemma length_delete:
  "distinct (map fst al) \<Longrightarrow> k \<in> fst ` set al \<Longrightarrow> length (AList.delete k al) = length al - 1"
proof (induction al)
  case (Cons p al)
  show ?case
  proof (cases "fst p = k")
    case True
    then have "k \<notin> fst ` set al" using Cons.prems(1) by auto
    then show ?thesis using True by (simp add: AList.delete_eq) (metis (mono_tags, lifting) filter_True image_eqI case_prod_beta)
  next
    case False
    then have "k \<in> fst ` set al" using Cons.prems(2) by auto
    moreover from this have "al \<noteq> []" by auto
    ultimately show ?thesis using Cons False by (cases p) (simp add: AList.delete_eq)
  qed
qed simp

lemma length_update:
  "length (AList.update k v al) = (if k \<in> fst ` set al then length al else Suc (length al))"
  by (induction al) auto

lemma keys_update: "fst ` set (AList.update k v al) = insert k (fst ` set al)"
  by (induction al) auto

lemma keys_delete: "fst ` set (AList.delete k al) = fst ` set al - {k}"
  by (auto simp: AList.delete_eq image_iff)

lemma evict_oldest_inv:
  assumes "cache_inv s"
  shows "cache_inv (evict_oldest e s)"
proof (cases "ci_insertion_order s")
  case (Cons o1 rest)
  then have k: "fst ` set (ci_tokens s) = insert o1 (set rest)" "o1 \<notin> set rest" "distinct rest"
    using assms by (auto simp: cache_inv_def)
  have "length (AList.delete o1 (ci_tokens s)) \<le> length (ci_tokens s)" by (rule length_delete_le)
  then have l: "length (AList.delete o1 (ci_tokens s)) \<le> max 1 (ci_capacity s)"
    using assms by (auto simp: cache_inv_def)
  have d: "fst ` set (AList.delete o1 (ci_tokens s)) = set rest"
    using k by (simp only: keys_delete) auto
  show ?thesis using assms l k(3)
    by (simp add: evict_oldest_def Cons cache_inv_def distinct_delete d)
qed (simp add: evict_oldest_def assms)

text \<open>After the eviction there is room for a new key.\<close>

lemma evict_oldest_room:
  assumes "cache_inv s" and "map_of (ci_tokens (evict_oldest e s)) e = None"
  shows "length (ci_tokens (evict_oldest e s)) < max 1 (ci_capacity s)"
proof (cases "ci_capacity s \<le> length (ci_tokens s) \<and> map_of (ci_tokens s) e = None")
  case True
  show ?thesis
  proof (cases "ci_insertion_order s")
    case Nil
    then have "ci_tokens s = []" using assms(1) by (auto simp: cache_inv_def)
    then show ?thesis using Nil by (simp add: evict_oldest_def)
  next
    case (Cons o1 rest)
    then have "o1 \<in> fst ` set (ci_tokens s)" using assms(1) by (auto simp: cache_inv_def)
    moreover from this have "0 < length (ci_tokens s)" by auto
    ultimately show ?thesis using True Cons assms(1)
      by (auto simp: evict_oldest_def cache_inv_def length_delete)
  qed
next
  case False
  then have "evict_oldest e s = s" unfolding evict_oldest_def by (simp only: if_False)
  then show ?thesis using False assms(2) by simp
qed

lemma evict_oldest_capacity [simp]: "ci_capacity (evict_oldest e s) = ci_capacity s"
  by (simp add: evict_oldest_def split: list.splits)

lemma cache_put_inv:
  assumes "cache_inv s"
  shows "cache_inv (snd (cache_put s e m p))"
proof -
  note i = evict_oldest_inv [OF assms, of e]
  show ?thesis
  proof (cases "map_of (ci_tokens (evict_oldest e s)) e")
    case None
    then show ?thesis using i evict_oldest_room [OF assms None]
      by (auto simp: cache_put_def Let_def cache_inv_def distinct_update keys_update length_update
          map_of_eq_None_iff)
  next
    case (Some v)
    then have "e \<in> fst ` set (ci_tokens (evict_oldest e s))" by (force dest: map_of_SomeD)
    then show ?thesis using i Some
      by (auto simp: cache_put_def Let_def cache_inv_def distinct_update keys_update length_update)
  qed
qed

lemma cache_remove_inv: "cache_inv s \<Longrightarrow> cache_inv (snd (cache_remove s e))"
  using length_delete_le [of e "ci_tokens s"]
  by (auto simp: cache_remove_def cache_inv_def keys_delete distinct_delete)

lemma cache_clear_inv: "cache_inv s \<Longrightarrow> cache_inv (snd (cache_clear s))"
  by (simp add: cache_clear_def cache_inv_def)

lemma cache_get_put_same: "cache_get (snd (cache_put s e m p)) e = Ok (Some (m, p))"
  by (simp add: cache_get_def cache_put_def Let_def update_conv')

lemma cache_get_put_other:
  "e' \<noteq> e \<Longrightarrow> cache_get (snd (cache_put s e m p)) e' = cache_get s e'
     \<or> cache_get (snd (cache_put s e m p)) e' = Ok None"
  by (auto simp: cache_get_def cache_put_def Let_def update_conv' evict_oldest_def delete_conv'
      split: list.splits)

lemma cache_get_remove:
  "cache_get (snd (cache_remove s e)) e' = (if e' = e then Ok None else cache_get s e')"
  by (simp add: cache_get_def cache_remove_def delete_conv')

lemma cache_get_clear: "cache_get (snd (cache_clear s)) e = Ok None"
  by (simp add: cache_get_def cache_clear_def)

interpretation mem: token_store cache_put cache_get cache_remove cache_clear cache_inv
proof (unfold_locales, goal_cases)
  case (5 s e' e m p)
  then show ?case by (intro cache_get_put_other)
next
  case (8 s e)
  show ?case by (simp add: cache_get_def)
qed (simp_all add: cache_put_inv cache_remove_inv cache_clear_inv cache_get_put_same
    cache_get_remove cache_get_clear)

section \<open>The specification: a queue of bounded length\<close>

type_synonym fifo = "(string \<times> string \<times> string) list"

definition fifo_put :: "nat \<Rightarrow> fifo \<Rightarrow> string \<Rightarrow> string \<times> string \<Rightarrow> fifo" where
  "fifo_put n q e v =
     (if map_of q e \<noteq> None then filter (\<lambda>x. fst x \<noteq> e) q
      else if length q < n then q else tl q) @ [(e, v)]"

fun fifo_step :: "nat \<Rightarrow> fifo \<Rightarrow> store_op \<Rightarrow> fifo" where
  "fifo_step n q (Put e m p) = fifo_put n q e (m, p)"
| "fifo_step n q (Remove e) = filter (\<lambda>x. fst x \<noteq> e) q"
| "fifo_step n q Clear = []"

definition cache_abs :: "cache_inner \<Rightarrow> fifo" where
  "cache_abs s = map (\<lambda>k. (k, the (map_of (ci_tokens s) k))) (ci_insertion_order s)"

lemma map_of_keyed: "map_of (map (\<lambda>k. (k, f k)) ks) e = (if e \<in> set ks then Some (f e) else None)"
  by (induction ks) auto

lemma map_of_abs:
  assumes "cache_inv s"
  shows "map_of (cache_abs s) e = map_of (ci_tokens s) e"
proof (cases "map_of (ci_tokens s) e")
  case None
  then have "e \<notin> set (ci_insertion_order s)"
    using assms by (simp add: cache_inv_def map_of_eq_None_iff)
  then show ?thesis by (simp add: cache_abs_def map_of_keyed None)
next
  case (Some v)
  then have "e \<in> fst ` set (ci_tokens s)" by (force dest: map_of_SomeD)
  then have "e \<in> set (ci_insertion_order s)" using assms by (simp add: cache_inv_def)
  then show ?thesis by (simp add: cache_abs_def map_of_keyed Some)
qed

lemma length_abs:
  assumes "cache_inv s"
  shows "length (cache_abs s) = length (ci_tokens s)"
proof -
  have "length (ci_insertion_order s) = card (set (ci_insertion_order s))"
    using assms unfolding cache_inv_def by (metis distinct_card)
  also have "\<dots> = card (set (map fst (ci_tokens s)))" using assms by (simp add: cache_inv_def)
  also have "\<dots> = length (map fst (ci_tokens s))"
    using assms by (intro distinct_card) (simp add: cache_inv_def)
  finally show ?thesis by (simp add: cache_abs_def)
qed

lemma abs_insert:
  "e \<notin> set order \<Longrightarrow>
   map (\<lambda>k. (k, the (map_of (AList.update e v al) k))) (order @ [e])
   = map (\<lambda>k. (k, the (map_of al k))) order @ [(e, v)]"
  by (auto simp: update_conv')

lemma filter_abs:
  "filter (\<lambda>x. fst x \<noteq> e) (map (\<lambda>k. (k, f k)) ks) = map (\<lambda>k. (k, f k)) (filter (\<lambda>k. k \<noteq> e) ks)"
  by (induction ks) auto

lemma cache_abs_put:
  assumes "cache_inv s"
  shows "cache_abs (snd (cache_put s e m p)) = fifo_put (ci_capacity s) (cache_abs s) e (m, p)"
proof (cases "map_of (ci_tokens s) e")
  case (Some v)
  then have "evict_oldest e s = s" by (simp add: evict_oldest_def)
  then show ?thesis using Some map_of_abs [OF assms, of e]
      abs_insert [of e "filter (\<lambda>k. k \<noteq> e) (ci_insertion_order s)" "(m, p)" "ci_tokens s"]
    by (simp add: cache_put_def Let_def fifo_put_def) (simp add: cache_abs_def filter_abs)
next
  case None
  then have ne: "e \<notin> set (ci_insertion_order s)"
    using assms by (simp add: cache_inv_def map_of_eq_None_iff)
  show ?thesis
  proof (cases "ci_capacity s \<le> length (ci_tokens s)")
    case False
    then have "evict_oldest e s = s" by (simp add: evict_oldest_def)
    then show ?thesis using None ne False abs_insert [OF ne, of "(m, p)" "ci_tokens s"]
        map_of_abs [OF assms, of e] length_abs [OF assms]
      by (simp add: cache_put_def Let_def fifo_put_def) (simp add: cache_abs_def)
  next
    case True
    show ?thesis
    proof (cases "ci_insertion_order s")
      case Nil
      then have "ci_tokens s = []" using assms by (simp add: cache_inv_def)
      then show ?thesis using Nil
        by (simp add: cache_put_def Let_def evict_oldest_def fifo_put_def cache_abs_def)
    next
      case (Cons k ks)
      have d: "k \<notin> set ks" "e \<notin> set ks" "e \<noteq> k" using Cons ne assms by (auto simp: cache_inv_def)
      then have "map (\<lambda>x. (x, the (map_of (AList.delete k (ci_tokens s)) x))) ks
          = map (\<lambda>x. (x, the (map_of (ci_tokens s) x))) ks"
        by (auto simp: delete_conv')
      then show ?thesis
        using True None d Cons abs_insert [OF d(2), of "(m, p)" "AList.delete k (ci_tokens s)"]
          map_of_abs [OF assms, of e] length_abs [OF assms]
        by (simp add: cache_put_def Let_def evict_oldest_def fifo_put_def delete_conv')
          (simp add: cache_abs_def)
    qed
  qed
qed

lemma cache_abs_remove:
  "cache_abs (snd (cache_remove s e)) = filter (\<lambda>x. fst x \<noteq> e) (cache_abs s)"
  by (auto simp: cache_remove_def cache_abs_def filter_abs delete_conv')

lemma cache_abs_clear: "cache_abs (snd (cache_clear s)) = []"
  by (simp add: cache_clear_def cache_abs_def)

lemma cache_capacity_step [simp]: "ci_capacity (mem.apply_op s c) = ci_capacity s"
  by (cases c) (simp_all add: mem.apply_op_def cache_put_def cache_remove_def cache_clear_def Let_def)

lemma cache_abs_step:
  "cache_inv s \<Longrightarrow> cache_abs (mem.apply_op s c) = fifo_step (ci_capacity s) (cache_abs s) c"
  by (cases c) (simp_all add: mem.apply_op_def cache_abs_put cache_abs_remove cache_abs_clear)

lemma cache_abs_run:
  "cache_inv s \<Longrightarrow>
     cache_abs (foldl mem.apply_op s ops) = foldl (fifo_step (ci_capacity s)) (cache_abs s) ops"
proof (induction ops arbitrary: s)
  case (Cons c ops)
  then show ?case using Cons.IH [of "mem.apply_op s c"]
    by (simp add: mem.apply_op_inv cache_abs_step)
qed simp

text \<open>The state after a sequence of calls on a new store.\<close>

definition cache_run :: "nat \<Rightarrow> store_op list \<Rightarrow> cache_inner" where
  "cache_run n ops = foldl
     (\<lambda>s c. case c of Put e m p \<Rightarrow> snd (cache_put s e m p) | Remove e \<Rightarrow> snd (cache_remove s e)
        | Clear \<Rightarrow> snd (cache_clear s)) (cache_new n) ops"

lemma cache_run_eq: "cache_run n ops = foldl mem.apply_op (cache_new n) ops"
proof -
  have "mem.apply_op = (\<lambda>s c. case c of Put e m p \<Rightarrow> snd (cache_put s e m p)
      | Remove e \<Rightarrow> snd (cache_remove s e) | Clear \<Rightarrow> snd (cache_clear s))"
    by (intro ext) (rule mem.apply_op_def)
  then show ?thesis by (simp only: cache_run_def)
qed

lemma cache_run_capacity: "ci_capacity (cache_run n ops) = n"
proof -
  have "ci_capacity (foldl mem.apply_op s ops) = ci_capacity s" for s
    by (induction ops arbitrary: s) simp_all
  then show ?thesis by (simp add: cache_run_eq) (simp add: cache_new_def)
qed

lemma cache_run_inv: "cache_inv (cache_run n ops)"
  by (simp add: cache_run_eq mem.run_inv cache_new_inv)

section \<open>Properties\<close>

text \<open>C24. After any sequence of calls on a new store of capacity \<open>n\<close>, a lookup answers as the
  bounded queue does: a put of a new endpoint into a full queue drops the head, a put of a known
  endpoint moves it to the end. The store never holds more than the capacity (or one entry).\<close>

theorem cache_refines_fifo:
  "cache_get (cache_run n ops) e = Ok (map_of (foldl (fifo_step n) [] ops) e)
   \<and> length (ci_tokens (cache_run n ops)) \<le> max 1 n"
proof -
  note i = cache_run_inv [of n ops]
  have "cache_abs (cache_run n ops) = foldl (fifo_step n) [] ops"
    using cache_abs_run [OF cache_new_inv, of n ops]
    by (simp add: cache_run_eq) (simp add: cache_new_def cache_abs_def)
  then show ?thesis using i map_of_abs [OF i, of e]
    by (simp add: cache_get_def cache_inv_def cache_run_capacity)
qed

text \<open>A credential the store hands out is the one most recently stored for that endpoint, and
  not removed or cleared since.\<close>

lemma cache_hands_out_last_put:
  assumes "cache_get (cache_run n ops) e = Ok (Some c)"
  shows "reference_store ops e = Some c"
proof -
  have "cache_get (cache_new n) e = Ok None" for e by (simp add: cache_get_def cache_new_def)
  from mem.handed_out_was_put [OF cache_new_inv this] assms show ?thesis
    by (simp add: cache_run_eq)
qed

end
