(* ===== verification/Sqlite_Store.thy ===== *)
theory Sqlite_Store
  imports Proto_Types
begin

text \<open>
  \<open>crates/l402-sqlite\<close>: the persistent token store. The SQL statements of the source are functions
  on the rows of its one table, whose primary key is the endpoint; the engine that runs them may
  fail before a statement takes effect. \<open>i64\<close> is \<open>int\<close> with its bounds written out. The record
  \<open>sq_call\<close> is what one call meets: the clock (\<open>None\<close> before the epoch), the failure of the engine,
  and the text tokio reports if the blocking task panics.
\<close>

section \<open>Errors and state\<close>

datatype sqlite_store_error =
    Database string
  | OpenFailed string string
  | Migration string
  | TaskJoin string

fun sqlite_error_display :: "sqlite_store_error \<Rightarrow> string" where
  "sqlite_error_display (Database e) = ''database error: '' @ e"
| "sqlite_error_display (OpenFailed path source) =
     ''failed to open database at '' @ path @ '': '' @ source"
| "sqlite_error_display (Migration e) = ''schema migration failed: '' @ e"
| "sqlite_error_display (TaskJoin e) = ''blocking task failed: '' @ e"

definition from_sqlite_error :: "sqlite_store_error \<Rightarrow> client_error" where
  "from_sqlite_error err = Backend (sqlite_error_display err)"

record token_row =
  r_endpoint :: string
  r_macaroon :: string
  r_preimage :: string
  r_created_at :: int
  r_expires_at :: "int option"

text \<open>The table (\<open>None\<close> before the migration) and the schema version.\<close>

record database =
  db_tokens :: "token_row list option"
  db_user_version :: int

record sqlite_store =
  sq_conn :: database
  sq_poisoned :: bool
  sq_ttl :: "(u64 \<times> nat) option"

record sq_call =
  q_clock :: "u64 option"
  q_fault :: "string option"
  q_join :: string

section \<open>Opening and migrating\<close>

definition create_table :: "database \<Rightarrow> database" where
  "create_table db = (case db_tokens db of None \<Rightarrow> db\<lparr>db_tokens := Some []\<rparr> | Some _ \<Rightarrow> db)"

text \<open>The three statements of the migration, each with its possible failure.\<close>

definition migrate ::
  "string option \<Rightarrow> string option \<Rightarrow> string option \<Rightarrow> database
   \<Rightarrow> (unit, sqlite_store_error) rres \<times> database" where
  "migrate read_fault batch_fault update_fault db =
     (case read_fault of
        Some e \<Rightarrow> (Err (Migration (''failed to read user_version: '' @ e)), db)
      | None \<Rightarrow>
          if db_user_version db < 1
          then (case batch_fault of
              Some e \<Rightarrow> (Err (Migration (''v1 migration failed: '' @ e)), db)
            | None \<Rightarrow>
                let db1 = create_table db in
                (case update_fault of
                   Some e \<Rightarrow> (Err (Migration (''failed to update user_version: '' @ e)), db1)
                 | None \<Rightarrow> (Ok (), db1\<lparr>db_user_version := 1\<rparr>)))
          else (Ok (), db))"

definition sqlite_new ::
  "string \<Rightarrow> string + database \<Rightarrow> string option \<Rightarrow> string option \<Rightarrow> string option \<Rightarrow> string option
   \<Rightarrow> (sqlite_store, sqlite_store_error) rres" where
  "sqlite_new path opened wal_fault f1 f2 f3 =
     (case opened of
        Inl e \<Rightarrow> Err (OpenFailed path e)
      | Inr conn \<Rightarrow>
         (case wal_fault of
            Some e \<Rightarrow> Err (Migration (''failed to enable WAL mode: '' @ e))
          | None \<Rightarrow>
              (case migrate f1 f2 f3 conn of
                 (Ok _, conn1) \<Rightarrow> Ok \<lparr>sq_conn = conn1, sq_poisoned = False, sq_ttl = None\<rparr>
               | (Err e, _) \<Rightarrow> Err e
               | (Panic, _) \<Rightarrow> Panic)))"

definition sqlite_in_memory ::
  "string + database \<Rightarrow> string option \<Rightarrow> string option \<Rightarrow> string option
   \<Rightarrow> (sqlite_store, sqlite_store_error) rres" where
  "sqlite_in_memory opened f1 f2 f3 =
     (case opened of
        Inl e \<Rightarrow> Err (Database e)
      | Inr conn \<Rightarrow>
          (case migrate f1 f2 f3 conn of
             (Ok _, conn1) \<Rightarrow> Ok \<lparr>sq_conn = conn1, sq_poisoned = False, sq_ttl = None\<rparr>
           | (Err e, _) \<Rightarrow> Err e
           | (Panic, _) \<Rightarrow> Panic))"

definition with_ttl :: "sqlite_store \<Rightarrow> u64 \<times> nat \<Rightarrow> sqlite_store" where
  "with_ttl s ttl = s\<lparr>sq_ttl := Some ttl\<rparr>"

section \<open>Time\<close>

definition i64_max :: int where
  "i64_max = 9223372036854775807"

text \<open>\<open>as_secs() as i64\<close> reinterprets the 64 bits.\<close>

definition unix_now :: "sq_call \<Rightarrow> (int, 'e) rres" where
  "unix_now q = (case q_clock q of None \<Rightarrow> Panic | Some t \<Rightarrow> Ok (sint t))"

definition add_i64 :: "int \<Rightarrow> int \<Rightarrow> (int, 'e) rres" where
  "add_i64 a b = (if a + b \<le> i64_max \<and> - i64_max - 1 \<le> a + b then Ok (a + b) else Panic)"

definition expires_at :: "sq_call \<Rightarrow> sqlite_store \<Rightarrow> (int option, 'e) rres" where
  "expires_at q s =
     (case sq_ttl s of
        None \<Rightarrow> Ok None
      | Some (secs, nanos) \<Rightarrow>
          rbind (unix_now q) (\<lambda>now.
          rbind (add_i64 now (if int (unat secs) \<le> i64_max then int (unat secs) else i64_max)) (\<lambda>t.
          Ok (Some t))))"

section \<open>Statements\<close>

definition insert_row :: "token_row \<Rightarrow> token_row list \<Rightarrow> token_row list" where
  "insert_row r rows =
     (if \<exists>x \<in> set rows. r_endpoint x = r_endpoint r
      then map (\<lambda>x. if r_endpoint x = r_endpoint r
             then x\<lparr>r_macaroon := r_macaroon r, r_preimage := r_preimage r,
                    r_created_at := r_created_at r, r_expires_at := r_expires_at r\<rparr>
             else x) rows
      else rows @ [r])"

definition row_expired :: "int \<Rightarrow> token_row \<Rightarrow> bool" where
  "row_expired now r = (case r_expires_at r of None \<Rightarrow> False | Some t \<Rightarrow> t \<le> now)"

definition select_token :: "string \<Rightarrow> int \<Rightarrow> token_row list \<Rightarrow> (string \<times> string) option" where
  "select_token endpoint now rows =
     (case filter (\<lambda>r. r_endpoint r = endpoint
              \<and> (case r_expires_at r of None \<Rightarrow> True | Some t \<Rightarrow> now < t)) rows of
        [] \<Rightarrow> None
      | r # _ \<Rightarrow> Some (r_macaroon r, r_preimage r))"

section \<open>The operations\<close>

text \<open>
  \<open>blocking q s f\<close> runs \<open>f\<close> on the rows under the lock, on the blocking pool: a poisoned lock and a
  panic of the task become \<open>TaskJoin\<close>, and a panic poisons the lock. \<open>statement q f\<close> is a statement
  of the engine, which fails or takes effect.
\<close>

definition statement :: "sq_call \<Rightarrow> (token_row list \<Rightarrow> 'a \<times> token_row list) \<Rightarrow> database
    \<Rightarrow> ('a, sqlite_store_error) rres \<times> database" where
  "statement q f db =
     (case q_fault q of
        Some e \<Rightarrow> (Err (Database e), db)
      | None \<Rightarrow> (case db_tokens db of
          None \<Rightarrow> (Err (Database ''no such table: l402_tokens''), db)
        | Some rows \<Rightarrow> (case f rows of (a, rows') \<Rightarrow> (Ok a, db\<lparr>db_tokens := Some rows'\<rparr>))))"

definition blocking ::
  "sq_call \<Rightarrow> sqlite_store \<Rightarrow> (database \<Rightarrow> ('a, sqlite_store_error) rres \<times> database)
   \<Rightarrow> ('a, sqlite_store_error) rres \<times> sqlite_store" where
  "blocking q s f =
     (if sq_poisoned s
      then (Err (TaskJoin ''mutex poisoned: poisoned lock: another task failed inside''), s)
      else case f (sq_conn s) of
        (Panic, db) \<Rightarrow> (Err (TaskJoin (q_join q)), s\<lparr>sq_conn := db, sq_poisoned := True\<rparr>)
      | (r, db) \<Rightarrow> (r, s\<lparr>sq_conn := db\<rparr>))"

definition timed :: "sq_call \<Rightarrow> (int \<Rightarrow> database \<Rightarrow> ('a, 'e) rres \<times> database)
    \<Rightarrow> database \<Rightarrow> ('a, 'e) rres \<times> database" where
  "timed q f db = (case unix_now q of Ok now \<Rightarrow> f now db | Err e \<Rightarrow> (Err e, db) | Panic \<Rightarrow> (Panic, db))"

definition cleanup_expired :: "sq_call \<Rightarrow> sqlite_store \<Rightarrow> (u64, sqlite_store_error) rres \<times> sqlite_store" where
  "cleanup_expired q s =
     blocking q s (timed q (\<lambda>now. statement q (\<lambda>rows.
       (of_nat (length (filter (row_expired now) rows)), filter (\<lambda>r. \<not> row_expired now r) rows))))"

definition count_tokens :: "sq_call \<Rightarrow> sqlite_store \<Rightarrow> (u64, sqlite_store_error) rres \<times> sqlite_store" where
  "count_tokens q s = blocking q s (statement q (\<lambda>rows. (of_nat (length rows), rows)))"

definition sq_put :: "sq_call \<Rightarrow> sqlite_store \<Rightarrow> string \<Rightarrow> string \<Rightarrow> string
    \<Rightarrow> (unit, client_error) rres \<times> sqlite_store" where
  "sq_put q s endpoint macaroon preimage =
     (case expires_at q s of
        Panic \<Rightarrow> (Panic, s)
      | Err e \<Rightarrow> (Err e, s)
      | Ok expiry \<Rightarrow>
         (case blocking q s (timed q (\<lambda>now. statement q (\<lambda>rows. ((), insert_row
                 \<lparr>r_endpoint = endpoint, r_macaroon = macaroon, r_preimage = preimage,
                  r_created_at = now, r_expires_at = expiry\<rparr> rows)))) of
            (r, s') \<Rightarrow> (map_err from_sqlite_error r, s')))"

definition sq_get_step :: "sq_call \<Rightarrow> sqlite_store \<Rightarrow> string
    \<Rightarrow> ((string \<times> string) option, client_error) rres \<times> sqlite_store" where
  "sq_get_step q s endpoint =
     (case blocking q s (timed q (\<lambda>now. statement q (\<lambda>rows. (select_token endpoint now rows, rows)))) of
        (r, s') \<Rightarrow> (map_err from_sqlite_error r, s'))"

definition sq_get :: "sq_call \<Rightarrow> sqlite_store \<Rightarrow> string
    \<Rightarrow> ((string \<times> string) option, client_error) rres" where
  "sq_get q s endpoint = fst (sq_get_step q s endpoint)"

definition sq_remove :: "sq_call \<Rightarrow> sqlite_store \<Rightarrow> string \<Rightarrow> (unit, client_error) rres \<times> sqlite_store" where
  "sq_remove q s endpoint =
     (case blocking q s (statement q (\<lambda>rows. ((), filter (\<lambda>r. r_endpoint r \<noteq> endpoint) rows))) of
        (r, s') \<Rightarrow> (map_err from_sqlite_error r, s'))"

definition sq_clear :: "sq_call \<Rightarrow> sqlite_store \<Rightarrow> (unit, client_error) rres \<times> sqlite_store" where
  "sq_clear q s =
     (case blocking q s (statement q (\<lambda>rows. ((), []))) of
        (r, s') \<Rightarrow> (map_err from_sqlite_error r, s'))"

section \<open>The table\<close>

definition table_ok :: "token_row list \<Rightarrow> bool" where
  "table_ok rows \<longleftrightarrow> distinct (map r_endpoint rows)"

lemma known_endpoint: "e \<in> r_endpoint ` set rows \<longleftrightarrow> (\<exists>x \<in> set rows. r_endpoint x = e)"
  by blast

lemma insert_row_endpoints:
  "map r_endpoint (insert_row r rows) =
     (if r_endpoint r \<in> r_endpoint ` set rows then map r_endpoint rows
      else map r_endpoint rows @ [r_endpoint r])"
  unfolding known_endpoint by (auto simp: insert_row_def)

lemma table_ok_insert: "table_ok rows \<Longrightarrow> table_ok (insert_row r rows)"
  unfolding table_ok_def insert_row_endpoints by auto

lemma table_ok_filter: "table_ok rows \<Longrightarrow> table_ok (filter P rows)"
  by (simp add: table_ok_def distinct_map_filter)

text \<open>A lookup in a table with unique endpoints, row by row.\<close>

definition served :: "int \<Rightarrow> token_row \<Rightarrow> bool" where
  "served now r = (case r_expires_at r of None \<Rightarrow> True | Some t \<Rightarrow> now < t)"

lemma served_iff: "served now r \<longleftrightarrow> \<not> row_expired now r"
  by (auto simp: served_def row_expired_def split: option.splits)

lemma select_token_Some_iff:
  assumes "table_ok rows"
  shows "select_token e now rows = Some (m, p) \<longleftrightarrow>
    (\<exists>r \<in> set rows. r_endpoint r = e \<and> served now r \<and> r_macaroon r = m \<and> r_preimage r = p)"
  using assms
proof (induction rows)
  case (Cons r rows)
  show ?case
  proof (cases "r_endpoint r = e \<and> served now r")
    case True
    then have "\<forall>r' \<in> set rows. r_endpoint r' \<noteq> e" using Cons.prems by (auto simp: table_ok_def known_endpoint)
    then show ?thesis using True by (auto simp: select_token_def served_def)
  next
    case False
    then have "select_token e now (r # rows) = select_token e now rows"
      by (auto simp: select_token_def served_def)
    then show ?thesis using Cons False by (auto simp: table_ok_def)
  qed
qed (simp add: select_token_def)

lemma select_token_eqI:
  assumes "table_ok rows" and "table_ok rows'"
    and "\<And>m p. (\<exists>r \<in> set rows. r_endpoint r = e \<and> served now r \<and> r_macaroon r = m \<and> r_preimage r = p)
       \<longleftrightarrow> (\<exists>r \<in> set rows'. r_endpoint r = e' \<and> served now' r \<and> r_macaroon r = m \<and> r_preimage r = p)"
  shows "select_token e now rows = select_token e' now' rows'"
proof -
  have iff: "select_token e now rows = Some x \<longleftrightarrow> select_token e' now' rows' = Some x" for x
    using select_token_Some_iff [OF assms(1), of e now "fst x" "snd x"]
      select_token_Some_iff [OF assms(2), of e' now' "fst x" "snd x"] assms(3) [of "fst x" "snd x"]
    by simp
  show ?thesis
  proof (cases "select_token e now rows")
    case None
    then show ?thesis using iff by (cases "select_token e' now' rows'") auto
  next
    case (Some x)
    then show ?thesis using iff by simp
  qed
qed

lemma select_inserted:
  assumes "table_ok rows"
  shows "select_token e now (insert_row r rows) =
    (if e = r_endpoint r then (if served now r then Some (r_macaroon r, r_preimage r) else None)
     else select_token e now rows)"
proof -
  have ok: "table_ok (insert_row r rows)" using assms by (rule table_ok_insert)
  have mem: "(\<exists>x \<in> set (insert_row r rows). r_endpoint x = e \<and> served now x \<and> r_macaroon x = m \<and> r_preimage x = p)
    \<longleftrightarrow> (if e = r_endpoint r then served now r \<and> r_macaroon r = m \<and> r_preimage r = p
        else \<exists>x \<in> set rows. r_endpoint x = e \<and> served now x \<and> r_macaroon x = m \<and> r_preimage x = p)" for m p
  proof (cases "\<exists>x \<in> set rows. r_endpoint x = r_endpoint r")
    case True
    then obtain y where y: "y \<in> set rows" "r_endpoint y = r_endpoint r" by blast
    define y' where "y' = y\<lparr>r_macaroon := r_macaroon r, r_preimage := r_preimage r,
      r_created_at := r_created_at r, r_expires_at := r_expires_at r\<rparr>"
    have "y' \<in> set (insert_row r rows)" using y True by (force simp: insert_row_def y'_def)
    moreover have "r_endpoint y' = r_endpoint r" "served now y' = served now r"
      "r_macaroon y' = r_macaroon r" "r_preimage y' = r_preimage r"
      by (simp_all add: y'_def served_def y(2))
    ultimately show ?thesis using True by (auto simp: insert_row_def served_def)
  qed (auto simp: insert_row_def served_def)
  show ?thesis
  proof (cases "e = r_endpoint r")
    case False
    then show ?thesis using mem by (simp add: select_token_eqI [OF ok assms])
  next
    case True
    show ?thesis
    proof (cases "select_token e now (insert_row r rows)")
      case None
      then have "\<not> served now r"
        using select_token_Some_iff [OF ok, of e now "r_macaroon r" "r_preimage r"]
          mem [of "r_macaroon r" "r_preimage r"] True by (simp, blast)
      then show ?thesis using None True by simp
    next
      case (Some x)
      obtain m p where x: "x = (m, p)" by (cases x)
      then show ?thesis using Some select_token_Some_iff [OF ok, of e now m p] mem [of m p] True by simp
    qed
  qed
qed

lemma select_filtered:
  assumes "table_ok rows"
  shows "select_token e now (filter (\<lambda>r. r_endpoint r \<noteq> d) rows) =
    (if e = d then None else select_token e now rows)"
proof (cases "e = d")
  case True
  then show ?thesis by (simp add: select_token_def filter_empty_conv)
next
  case False
  then have "select_token e now (filter (\<lambda>r. r_endpoint r \<noteq> d) rows) = select_token e now rows"
    by (intro select_token_eqI table_ok_filter assms) auto
  then show ?thesis using False by simp
qed

section \<open>The store without a time to live is a token store\<close>

definition sq_ok :: "sqlite_store \<Rightarrow> bool" where
  "sq_ok s \<longleftrightarrow> \<not> sq_poisoned s \<and> (case db_tokens (sq_conn s) of None \<Rightarrow> False | Some rows \<Rightarrow> table_ok rows)"

definition sq_rows :: "sqlite_store \<Rightarrow> token_row list" where
  "sq_rows s = (case db_tokens (sq_conn s) of None \<Rightarrow> [] | Some rows \<Rightarrow> rows)"

text \<open>A call that the engine does not fail.\<close>

definition sound_call :: "u64 \<Rightarrow> sq_call" where
  "sound_call t = \<lparr>q_clock = Some t, q_fault = None, q_join = []\<rparr>"

lemma sq_okE:
  assumes "sq_ok s"
  obtains "db_tokens (sq_conn s) = Some (sq_rows s)" and "table_ok (sq_rows s)" and "\<not> sq_poisoned s"
  using assms by (auto simp: sq_ok_def sq_rows_def split: option.splits)

text \<open>What the operations do to the rows of a sound store.\<close>

definition set_rows :: "sqlite_store \<Rightarrow> token_row list \<Rightarrow> sqlite_store" where
  "set_rows s rows = s\<lparr>sq_conn := (sq_conn s)\<lparr>db_tokens := Some rows\<rparr>\<rparr>"

lemma set_rows_simps [simp]:
  "sq_rows (set_rows s rows) = rows" "sq_ttl (set_rows s rows) = sq_ttl s"
  "sq_poisoned (set_rows s rows) = sq_poisoned s" "sq_ok s \<Longrightarrow> table_ok rows \<Longrightarrow> sq_ok (set_rows s rows)"
  by (auto simp: set_rows_def sq_rows_def sq_ok_def)

lemma set_rows_same: "sq_ok s \<Longrightarrow> set_rows s (sq_rows s) = s"
  by (elim sq_okE) (simp add: set_rows_def)

lemma sq_get_sound:
  "sq_ok s \<Longrightarrow> sq_get_step (sound_call t) s e = (Ok (select_token e (sint t) (sq_rows s)), s)"
  by (elim sq_okE) (simp add: sq_get_step_def blocking_def timed_def unix_now_def statement_def sound_call_def)

lemma sq_put_sound:
  assumes "sq_ok s" and "expires_at (sound_call t) s = (Ok expiry :: (int option, client_error) rres)"
  shows "sq_put (sound_call t) s e m p = (Ok (), set_rows s (insert_row
    \<lparr>r_endpoint = e, r_macaroon = m, r_preimage = p, r_created_at = sint t, r_expires_at = expiry\<rparr> (sq_rows s)))"
  using assms(1)
  by (elim sq_okE) (simp add: sq_put_def assms(2), simp add: blocking_def timed_def unix_now_def
      statement_def sound_call_def set_rows_def)

lemma sq_remove_sound:
  "sq_ok s \<Longrightarrow> sq_remove (sound_call t) s e = (Ok (), set_rows s (filter (\<lambda>r. r_endpoint r \<noteq> e) (sq_rows s)))"
  by (elim sq_okE) (simp add: sq_remove_def blocking_def statement_def sound_call_def set_rows_def)

lemma sq_clear_sound: "sq_ok s \<Longrightarrow> sq_clear (sound_call t) s = (Ok (), set_rows s [])"
  by (elim sq_okE) (simp add: sq_clear_def blocking_def statement_def sound_call_def set_rows_def)

lemma cleanup_sound:
  "sq_ok s \<Longrightarrow> cleanup_expired (sound_call t) s =
     (Ok (of_nat (length (filter (row_expired (sint t)) (sq_rows s)))),
      set_rows s (filter (\<lambda>r. \<not> row_expired (sint t) r) (sq_rows s)))"
  by (elim sq_okE)
    (simp add: cleanup_expired_def blocking_def timed_def unix_now_def statement_def sound_call_def set_rows_def)

lemma expires_none: "sq_ttl s = None \<Longrightarrow> expires_at q s = Ok None"
  by (simp add: expires_at_def)

definition plain_ok :: "sqlite_store \<Rightarrow> bool" where
  "plain_ok s \<longleftrightarrow> sq_ok s \<and> sq_ttl s = None \<and> (\<forall>r \<in> set (sq_rows s). r_expires_at r = None)"

lemma sq_ok_table: "sq_ok s \<Longrightarrow> table_ok (sq_rows s)"
  by (elim sq_okE)

lemma insert_row_plain:
  "\<forall>x \<in> set rows. r_expires_at x = None \<Longrightarrow> r_expires_at r = None \<Longrightarrow>
     x \<in> set (insert_row r rows) \<Longrightarrow> r_expires_at x = None"
  by (auto simp: insert_row_def split: if_splits)

lemma plain_ok_insert:
  "plain_ok s \<Longrightarrow> r_expires_at r = None \<Longrightarrow> plain_ok (set_rows s (insert_row r (sq_rows s)))"
  unfolding plain_ok_def using insert_row_plain [of "sq_rows s" r]
  by (auto simp: table_ok_insert sq_ok_table)

lemma plain_ok_filter: "plain_ok s \<Longrightarrow> plain_ok (set_rows s (filter P (sq_rows s)))"
  unfolding plain_ok_def by (simp add: table_ok_filter sq_ok_table)

lemma plain_ok_empty: "plain_ok s \<Longrightarrow> plain_ok (set_rows s [])"
  by (auto simp: plain_ok_def table_ok_def)

lemma plain_table: "plain_ok s \<Longrightarrow> table_ok (sq_rows s)"
  by (auto simp: plain_ok_def elim: sq_okE)

lemma sq_put_plain:
  "plain_ok s \<Longrightarrow> sq_put (sound_call t) s e m p = (Ok (), set_rows s (insert_row
    \<lparr>r_endpoint = e, r_macaroon = m, r_preimage = p, r_created_at = sint t, r_expires_at = None\<rparr> (sq_rows s)))"
  by (rule sq_put_sound) (simp_all add: plain_ok_def expires_none)

lemma sq_get_plain:
  "plain_ok s \<Longrightarrow> sq_get (sound_call t) s e = Ok (select_token e (sint t) (sq_rows s))"
  by (simp add: sq_get_def sq_get_sound plain_ok_def)

text \<open>A call can occur if the clock is past the epoch; it is sound if, moreover, the engine does not
  fail it. Calls differ in their time and in their failures.\<close>

definition clock_set :: "sq_call \<Rightarrow> bool" where
  "clock_set q \<longleftrightarrow> q_clock q \<noteq> None"

definition sound_sq :: "sq_call \<Rightarrow> bool" where
  "sound_sq q \<longleftrightarrow> clock_set q \<and> q_fault q = None"

definition sq_holds :: "sqlite_store \<Rightarrow> (string \<rightharpoonup> string \<times> string)" where
  "sq_holds s e = select_token e 0 (sq_rows s)"

lemma clock_setE:
  assumes "clock_set q" obtains t where "q_clock q = Some t"
  using assms by (auto simp: clock_set_def)

lemma sound_sqE:
  assumes "sound_sq q" obtains t where "q_clock q = Some t" and "q_fault q = None"
  using assms by (auto simp: sound_sq_def clock_set_def)

lemma select_plain:
  "\<forall>r \<in> set rows. r_expires_at r = None \<Longrightarrow> select_token e now rows = select_token e 0 rows"
  unfolding select_token_def by (rule arg_cong [where f = "case_list _ _"], rule filter_cong) auto

text \<open>A plain store under any conditions.\<close>

lemma sq_put_any:
  assumes "clock_set q" and "plain_ok s"
  shows "\<exists>t. q_clock q = Some t \<and> sq_put q s e m p = (case q_fault q of
      Some err \<Rightarrow> (Err (from_sqlite_error (Database err)), s)
    | None \<Rightarrow> (Ok (), set_rows s (insert_row
        \<lparr>r_endpoint = e, r_macaroon = m, r_preimage = p, r_created_at = sint t, r_expires_at = None\<rparr> (sq_rows s))))"
proof -
  obtain t where "q_clock q = Some t" using assms(1) by (rule clock_setE)
  moreover have "sq_ok s" "expires_at q s = (Ok None :: (int option, client_error) rres)"
    using assms(2) by (simp_all add: plain_ok_def expires_none)
  ultimately show ?thesis
    by (elim sq_okE) (simp add: sq_put_def blocking_def timed_def unix_now_def statement_def set_rows_def split: option.split)
qed

lemma sq_get_any:
  assumes "clock_set q" and "plain_ok s"
  shows "sq_get q s e = (case q_fault q of
      Some err \<Rightarrow> Err (from_sqlite_error (Database err)) | None \<Rightarrow> Ok (sq_holds s e))"
proof -
  obtain t where t: "q_clock q = Some t" using assms(1) by (rule clock_setE)
  have s: "sq_ok s" "\<forall>r \<in> set (sq_rows s). r_expires_at r = None" using assms(2) by (simp_all add: plain_ok_def)
  show ?thesis using s(1) t select_plain [OF s(2), of e "sint t"]
    by (elim sq_okE)
      (simp add: sq_get_def sq_get_step_def blocking_def timed_def unix_now_def statement_def sq_holds_def split: option.split)
qed

lemma sq_remove_any:
  "plain_ok s \<Longrightarrow> sq_remove q s e = (case q_fault q of
      Some err \<Rightarrow> (Err (from_sqlite_error (Database err)), s)
    | None \<Rightarrow> (Ok (), set_rows s (filter (\<lambda>r. r_endpoint r \<noteq> e) (sq_rows s))))"
  unfolding plain_ok_def
  by (elim conjE sq_okE) (simp add: sq_remove_def blocking_def statement_def set_rows_def split: option.split)

lemma sq_clear_any:
  "plain_ok s \<Longrightarrow> sq_clear q s = (case q_fault q of
      Some err \<Rightarrow> (Err (from_sqlite_error (Database err)), s)
    | None \<Rightarrow> (Ok (), set_rows s []))"
  unfolding plain_ok_def
  by (elim conjE sq_okE) (simp add: sq_clear_def blocking_def statement_def set_rows_def split: option.split)

lemma sq_holds_set_rows: "sq_holds (set_rows s rows) = (\<lambda>e. select_token e 0 rows)"
  by (simp add: sq_holds_def fun_eq_iff)

lemma sq_holds_put:
  "plain_ok s \<Longrightarrow> r_expires_at r = None \<Longrightarrow>
     sq_holds (set_rows s (insert_row r (sq_rows s))) = (sq_holds s)(r_endpoint r \<mapsto> (r_macaroon r, r_preimage r))"
  by (simp add: sq_holds_set_rows select_inserted plain_table served_def fun_eq_iff)
    (simp add: sq_holds_def)

lemma sq_holds_remove:
  "plain_ok s \<Longrightarrow> sq_holds (set_rows s (filter (\<lambda>r. r_endpoint r \<noteq> e) (sq_rows s))) = (sq_holds s)(e := None)"
  by (simp add: sq_holds_set_rows select_filtered plain_table fun_eq_iff) (simp add: sq_holds_def)

interpretation sq: timed_store sq_put sq_get sq_remove sq_clear clock_set sound_sq plain_ok sq_holds
proof (unfold_locales, goal_cases)
  case (1 q)
  then show ?case by (simp add: sound_sq_def)
next
  case (2 q s e m p)
  then show ?case using sq_put_any [OF 2, of e m p] by (auto simp: plain_ok_insert split: option.splits)
next
  case (3 q s e)
  then show ?case by (simp add: sq_remove_any plain_ok_filter split: option.split)
next
  case (4 q s)
  then show ?case by (simp add: sq_clear_any plain_ok_empty split: option.split)
next
  case (5 q s e m p)
  then show ?case using sq_put_any [OF 5, of e m p] by (auto simp: sq_holds_put split: option.splits)
next
  case (6 q s e)
  then show ?case by (simp add: sq_remove_any sq_holds_remove split: option.split)
next
  case (7 q s)
  then show ?case by (simp add: sq_clear_any sq_holds_set_rows select_token_def split: option.split)
next
  case (8 q s e v)
  then show ?case by (simp add: sq_get_any split: option.splits)
next
  case (9 q s e)
  then show ?case by (simp add: sq_get_any sound_sq_def)
next
  case (10 q s e m p)
  then show ?case using sq_put_any [OF 10, of e m p] by (auto simp: sound_sq_def split: option.splits)
next
  case (11 q s e)
  then show ?case by (simp add: sq_remove_any sound_sq_def split: option.split)
next
  case (12 q s)
  then show ?case by (simp add: sq_clear_any sound_sq_def split: option.split)
qed

text \<open>The store after a sequence of calls, each under its own conditions.\<close>

definition sqlite_run :: "sqlite_store \<Rightarrow> (sq_call \<times> store_op) list \<Rightarrow> sqlite_store" where
  "sqlite_run s calls = foldl (\<lambda>s (q, c). case c of
       Put e m p \<Rightarrow> snd (sq_put q s e m p)
     | Remove e \<Rightarrow> snd (sq_remove q s e)
     | Clear \<Rightarrow> snd (sq_clear q s)) s calls"

text \<open>The calls the engine did not fail.\<close>

definition effective :: "(sq_call \<times> store_op) list \<Rightarrow> store_op list" where
  "effective calls = map snd (filter (\<lambda>(q, c). q_fault q = None) calls)"

definition empty_database :: database where
  "empty_database = \<lparr>db_tokens = None, db_user_version = 0\<rparr>"

definition fresh_sqlite :: sqlite_store where
  "fresh_sqlite = \<lparr>sq_conn = \<lparr>db_tokens = Some [], db_user_version = 1\<rparr>, sq_poisoned = False, sq_ttl = None\<rparr>"

lemma sqlite_in_memory_fresh: "sqlite_in_memory (Inr empty_database) None None None = Ok fresh_sqlite"
  by (simp add: sqlite_in_memory_def migrate_def create_table_def empty_database_def fresh_sqlite_def)

lemma fresh_plain: "plain_ok fresh_sqlite"
  by (simp add: plain_ok_def sq_ok_def sq_rows_def fresh_sqlite_def table_ok_def)

lemma fresh_holds: "sq_holds fresh_sqlite = (\<lambda>_. None)"
  by (simp add: fun_eq_iff sq_holds_def select_token_def) (simp add: fresh_sqlite_def sq_rows_def)

lemma sqlite_run_eq: "sqlite_run s calls = foldl sq.call_op s calls"
proof -
  have "sq.call_op = (\<lambda>s (q, c). case c of
       Put e m p \<Rightarrow> snd (sq_put q s e m p)
     | Remove e \<Rightarrow> snd (sq_remove q s e)
     | Clear \<Rightarrow> snd (sq_clear q s))"
    by (intro ext) (simp add: sq.call_op_def split_beta)
  then show ?thesis by (simp only: sqlite_run_def)
qed

lemma effective_eq:
  "\<forall>(q, c) \<in> set calls. clock_set q \<Longrightarrow>
     effective calls = map snd (filter (\<lambda>c. sound_sq (fst c)) calls)"
  by (induction calls) (auto simp: effective_def sound_sq_def)

section \<open>Properties\<close>

text \<open>C33. Without a time to live the database is a map that forgets nothing: after any sequence of calls
  on a newly created store, at any times past the epoch and in any order, some of them failed by the engine, a
  call reports an error exactly if the engine failed it, and every lookup that the engine does not
  fail answers, at whatever time, what the last effective put left, or nothing. The clock must be
  past the epoch, since a call before it panics and poisons the store.\<close>

theorem sqlite_refines_map:
  assumes "\<forall>(q, c) \<in> set calls. q_clock q \<noteq> None"
    and "q_clock q' = Some t" and "q_fault q' = None"
  shows "\<exists>s. sqlite_in_memory (Inr empty_database) None None None = Ok s
     \<and> sq_get q' (sqlite_run s calls) e = Ok (reference_store (effective calls) e)
     \<and> (\<forall>q m p. q_clock q \<noteq> None \<longrightarrow>
          (fst (sq_put q (sqlite_run s calls) e m p) = Ok () \<longleftrightarrow> q_fault q = None)
        \<and> (fst (sq_remove q (sqlite_run s calls) e) = Ok () \<longleftrightarrow> q_fault q = None)
        \<and> (fst (sq_clear q (sqlite_run s calls)) = Ok () \<longleftrightarrow> q_fault q = None))"
proof -
  have ok: "\<forall>(q, c) \<in> set calls. clock_set q" "\<forall>c \<in> set calls. clock_set (fst c)"
    using assms(1) by (auto simp: clock_set_def)
  have sound: "sound_sq q'" using assms(2,3) by (simp add: sound_sq_def clock_set_def)
  have kept: "plain_ok (sqlite_run fresh_sqlite calls)"
    unfolding sqlite_run_eq using ok(2) fresh_plain by (rule sq.calls_keep)
  have "sq_holds (sqlite_run fresh_sqlite calls) = reference_store (effective calls)"
    unfolding sqlite_run_eq reference_store_def effective_eq [OF ok(1)]
    using sq.calls_hold [OF ok(2) fresh_plain] by (simp add: fresh_holds)
  then show ?thesis
    using sq.get_sound [OF sound kept, of e] sq.put_sound [OF _ kept] sq.remove_sound [OF _ kept]
      sq.clear_sound [OF _ kept] sqlite_in_memory_fresh
    by (simp add: sound_sq_def clock_set_def)
qed

text \<open>An instance: the put that failed is not seen, the other one is, a year later.\<close>

theorem sqlite_refines_map_witness:
  "sq_get (sound_call 31536100) (sqlite_run fresh_sqlite
      [(sound_call 100, Put ''e'' ''m'' ''p''), (\<lparr>q_clock = Some 50, q_fault = Some ''full'', q_join = []\<rparr>, Put ''e'' ''m2'' ''p2'')]) ''e''
     = Ok (Some (''m'', ''p''))"
  using sqlite_refines_map [of "[(sound_call 100, Put ''e'' ''m'' ''p''),
      (\<lparr>q_clock = Some 50, q_fault = Some ''full'', q_join = []\<rparr>, Put ''e'' ''m2'' ''p2'')]" "sound_call 31536100" 31536100 "''e''"]
  by (simp add: sqlite_in_memory_fresh effective_def reference_store_def sound_call_def)

text \<open>C34. With a time to live, a stored token is served as long as the clock has not reached the second
  in which it was stored plus the whole seconds of the time to live, and not from then on; the
  fraction of a second of the time to live is dropped, so that one below a second never serves. The
  other endpoints are not affected. The clock must lie between the epoch and the point where adding the
  seconds leaves \<open>i64\<close>.\<close>

theorem ttl_expiry_exact:
  assumes "sq_ok s" and "sq_ttl s = Some (secs, nanos)"
    and "0 \<le> sint t" and "sint t + int (unat secs) \<le> i64_max"
  shows "fst (sq_put (sound_call t) s e m p) = Ok ()
    \<and> sq_get (sound_call t') (snd (sq_put (sound_call t) s e m p)) e' =
        (if e' = e then Ok (if sint t' < sint t + int (unat secs) then Some (m, p) else None)
         else sq_get (sound_call t') s e')"
proof -
  have x: "expires_at (sound_call t) s = Ok (Some (sint t + int (unat secs)))"
    using assms(2-4) uint_ge_0 [of secs] order.trans [of "- 9223372036854775808" 0 "sint t + uint secs"]
    by (simp add: expires_at_def unix_now_def sound_call_def add_i64_def i64_max_def)
  note put = sq_put_sound [OF assms(1) x, of e m p]
  have ok: "sq_ok (snd (sq_put (sound_call t) s e m p))"
    using assms(1) by (simp add: put table_ok_insert sq_ok_table)
  show ?thesis using assms(1) ok sq_ok_table [OF assms(1)]
    by (simp add: put sq_get_def sq_get_sound select_inserted served_def)
qed

theorem ttl_expiry_exact_witness:
  "sq_get (sound_call 159) (snd (sq_put (sound_call 100) (with_ttl fresh_sqlite (60, 0)) ''e'' ''m'' ''p'')) ''e''
     = Ok (Some (''m'', ''p''))"
proof -
  have ok: "sq_ok (with_ttl fresh_sqlite (60, 0))"
    by (simp add: with_ttl_def fresh_sqlite_def sq_ok_def table_ok_def)
  have t: "sq_ttl (with_ttl fresh_sqlite (60, 0)) = Some (60, 0)" by (simp add: with_ttl_def)
  show ?thesis using ttl_expiry_exact [OF ok t, of 100 "''e''" "''m''" "''p''" 159 "''e''"]
    by (simp add: i64_max_def)
qed

text \<open>Purging expired tokens removes only what no later lookup would serve, and reports how
  many rows it removed.\<close>

lemma cleanup_is_invisible:
  assumes "sq_ok s" and "sint t \<le> sint t'" and "length (sq_rows s) < 2 ^ 64"
  shows "sq_get (sound_call t') (snd (cleanup_expired (sound_call t) s)) e = sq_get (sound_call t') s e
    \<and> (\<exists>n. fst (cleanup_expired (sound_call t) s) = Ok n
         \<and> unat n + length (sq_rows (snd (cleanup_expired (sound_call t) s))) = length (sq_rows s))"
proof -
  let ?keep = "filter (\<lambda>r. \<not> row_expired (sint t) r) (sq_rows s)"
  note tab = sq_ok_table [OF assms(1)]
  have ok: "sq_ok (set_rows s ?keep)" using assms(1) tab by (simp add: table_ok_filter)
  have live: "served (sint t') r \<Longrightarrow> \<not> row_expired (sint t) r" for r
    using assms(2) by (auto simp: served_def row_expired_def split: option.splits)
  have "select_token e (sint t') ?keep = select_token e (sint t') (sq_rows s)"
    by (rule select_token_eqI [OF table_ok_filter [OF tab] tab]) (use live in auto)
  moreover have "length (filter (row_expired (sint t)) (sq_rows s)) + length ?keep = length (sq_rows s)"
    by (rule sum_length_filter_compl)
  moreover from this have "length (filter (row_expired (sint t)) (sq_rows s)) < 2 ^ 64" using assms(3) by linarith
  ultimately show ?thesis using assms(1) ok
    by (simp add: cleanup_sound sq_get_def sq_get_sound unat_of_nat)
qed

text \<open>A call that fails leaves the table as it was: a failing engine, a poisoned lock and a panic
  of the task are errors of the call, never a partial change.\<close>

lemma sqlite_failure_changes_nothing:
  assumes "sq_put q s e m p = (r, s')" and "r \<noteq> Ok ()"
  shows "sq_conn s' = sq_conn s \<and> fst (sq_remove q s e) \<noteq> Panic
    \<and> (fst (sq_remove q s e) \<noteq> Ok () \<longrightarrow> sq_conn (snd (sq_remove q s e)) = sq_conn s)"
  using assms
  by (auto simp: sq_put_def sq_remove_def blocking_def timed_def statement_def
      split: rres.splits prod.splits option.splits if_splits)

text \<open>The cap of an overlong time to live does not do what it is for: capping the seconds at the
  largest \<open>i64\<close> and then adding them to the clock overflows whenever the clock is past the epoch,
  so that storing a token panics in a checked build.\<close>

lemma ttl_cap_overflows:
  assumes "sq_ttl s = Some (secs, nanos)" and "i64_max \<le> int (unat secs)" and "0 < sint t"
  shows "fst (sq_put (sound_call t) s e m p) = Panic"
  using assms by (simp add: sq_put_def expires_at_def unix_now_def sound_call_def add_i64_def)

lemma ttl_cap_overflows_today:
  "fst (sq_put (sound_call 1700000000) (with_ttl fresh_sqlite (u64_max, 0)) ''e'' ''m'' ''p'') = Panic"
  by (rule ttl_cap_overflows [of _ u64_max 0]) (simp_all add: with_ttl_def i64_max_def)

text \<open>Migrating is idempotent, also after a migration that stopped half way: it keeps every stored
  token, and a second run changes nothing.\<close>

lemma migrate_idempotent:
  assumes "migrate None None f db0 = (r0, db)" and "migrate None None None db = (r, db')"
  shows "r = Ok () \<and> migrate None None None db' = (Ok (), db')
    \<and> (\<forall>rows. db_tokens db0 = Some rows \<longrightarrow> db_tokens db' = Some rows)"
  using assms by (auto simp: migrate_def create_table_def Let_def split: option.splits if_splits)

lemma migrate_after_failure:
  "snd (migrate None None None (snd (migrate None None (Some ''locked'') empty_database))) = sq_conn fresh_sqlite"
  using migrate_idempotent [of "Some ''locked''" empty_database, OF prod.collapse [symmetric] prod.collapse [symmetric]]
  by (simp add: migrate_def create_table_def empty_database_def fresh_sqlite_def)

end
