(* ===== verification/Client_Stores.thy ===== *)
theory Client_Stores
  imports Client_Props Token_Cache Sqlite_Store
begin

text \<open>
  The client over a token store. \<open>over_store\<close> puts a store beside the world the client calls: the world
  sets the conditions of each call of the store (the time, a failing engine), and moves on with it.
  That the proof of a payment is found again is proved once, in the contract \<open>timed_store\<close> of the port.
\<close>

definition over_store ::
  "('q \<Rightarrow> 's \<Rightarrow> string \<Rightarrow> string \<Rightarrow> string \<Rightarrow> (unit, client_error) rres \<times> 's)
   \<Rightarrow> ('q \<Rightarrow> 's \<Rightarrow> string \<Rightarrow> ((string \<times> string) option, client_error) rres)
   \<Rightarrow> ('q \<Rightarrow> 's \<Rightarrow> string \<Rightarrow> (unit, client_error) rres \<times> 's)
   \<Rightarrow> ('w \<Rightarrow> 'q) \<Rightarrow> ('w \<Rightarrow> 'w) \<Rightarrow> 'w env \<Rightarrow> ('w \<times> 's) env" where
  "over_store put get remove cond tick E = \<lparr>
     e_send = (\<lambda>(w, s) rq. case e_send E w rq of (r, w') \<Rightarrow> (r, (w', s))),
     e_supports_fee_limit = (\<lambda>(w, s). e_supports_fee_limit E w),
     e_pay_invoice = (\<lambda>(w, s) invoice fee. case e_pay_invoice E w invoice fee of (r, w') \<Rightarrow> (r, (w', s))),
     e_put = (\<lambda>(w, s) e m p. case put (cond w) s e m p of (r, s') \<Rightarrow> (r, (tick w, s'))),
     e_get = (\<lambda>(w, s) e. (get (cond w) s e, (tick w, s))),
     e_remove = (\<lambda>(w, s) e. case remove (cond w) s e of (r, s') \<Rightarrow> (r, (tick w, s'))),
     e_clock = (\<lambda>(w, s). e_clock E w), e_instant = (\<lambda>(w, s). e_instant E w),
     e_url_parse = e_url_parse E, e_header_value = e_header_value E,
     e_header_to_str = e_header_to_str E, e_b64_std = e_b64_std E, e_b64_url = e_b64_url E\<rparr>"

section \<open>The end of a paid request\<close>

text \<open>What ran last in a request that paid.\<close>

definition paid_end ::
  "'w env \<Rightarrow> string \<Rightarrow> string \<Rightarrow> string option \<Rightarrow> nat \<Rightarrow> nat \<Rightarrow> l402_token
   \<Rightarrow> 'w sys \<Rightarrow> l402_response \<Rightarrow> 'w sys \<Rightarrow> bool" where
  "paid_end E meth url body start i token s x s' \<longleftrightarrow>
     (\<exists>s1 s2 resp rc cl. persist_token E url token s = (Ok (), s1)
      \<and> send_with_auth E meth url body token s1 = (Ok resp, s2)
      \<and> rs_status resp \<noteq> PAYMENT_REQUIRED
      \<and> update_receipt i (rs_status resp) (elapsed_ms E start (sy_ext s2)) (sy_cl s2) = (Ok rc, cl) \<and> s' = s2\<lparr>sy_cl := cl\<rparr>
      \<and> lr_inner x = resp \<and> lr_receipt x = Some rc)"

lemma retry_end:
  assumes "retry_paid E meth url body start m (payment, i, newly) s = (Ok x, s')"
  shows "paid_end E meth url body start i (token_new m (pr_preimage payment)) s x s' \<and> lr_paid x = newly"
proof -
  let ?t = "token_new m (pr_preimage payment)"
  from assms obtain s1 where p: "persist_token E url ?t s = (Ok (), s1)"
    and "bind_act (send_with_auth E meth url body ?t) (\<lambda>retry_response.
      bind_act (\<lambda>s. on_cl (update_receipt i (rs_status retry_response) (elapsed_ms E start (sy_ext s))) s) (\<lambda>rc.
      if rs_status retry_response = PAYMENT_REQUIRED
      then bind_act (on_cl (drop_unpersisted url)) (\<lambda>_.
           bind_act (store_remove E url) (\<lambda>_.
           fail (RetryFailed ''server returned 402 again after payment; receipt retained'')))
      else ret \<lparr>lr_inner = retry_response, lr_paid = newly, lr_cached_token = \<not> newly,
                lr_receipt = Some rc\<rparr>)) s1 = (Ok x, s')"
    by (auto simp: retry_paid_def Let_def elim: bind_actE)
  then show ?thesis
    by (elim bind_actE) (auto simp: paid_end_def on_cl_eq update_receipt_def p Let_def elim!: bind_actE
        split: if_splits)
qed


text \<open>What ran before the payment, up to the answer that demanded it.\<close>

definition before_payment ::
  "'w env \<Rightarrow> string \<Rightarrow> string \<Rightarrow> string option \<Rightarrow> (http_response, 'w) act" where
  "before_payment E meth url body =
     bind_act (find_token E url) (\<lambda>token.
     bind_act (try_cached E meth url body token) (\<lambda>done1.
     case done1 of Some r \<Rightarrow> ret (lr_inner r) | None \<Rightarrow> send_request E meth url body))"

lemma request_end:
  assumes "request E limits cfg meth url body s = (Ok x, s')" and "lr_paid x"
  shows "\<exists>response invoice m amount payment i s1 s2.
    before_payment E meth url body s = (Ok response, s1)
    \<and> pay_challenge E limits cfg invoice amount (request_domain E url) url (e_instant E (sy_ext s)) s1
        = (Ok (payment, i, True), s2)
    \<and> paid_end E meth url body (e_instant E (sy_ext s)) i (token_new m (pr_preimage payment)) s2 x s'"
  using assms
  by (auto simp: request_def before_payment_def Let_def answer_challenge_def try_cached_def lift_res_def
      elim!: bind_actE dest!: retry_end split: option.splits if_splits; blast)

lemma booked_newly:
  "booked key url amount rv b pr cl cl' (Ok (payment, i, True)) \<Longrightarrow> i = length (cl_receipts cl)
    \<and> map receipt_core (cl_receipts cl') = map receipt_core (cl_receipts cl) @ [payment_core url payment]"
  by (cases pr) (auto simp: booked_def split: if_splits)

text \<open>The receipt that a paid request returns is the one of its payment.\<close>

lemma paid_receipt:
  assumes "pay_challenge E limits cfg invoice amount domain url start s1 = (Ok (payment, i, True), s2)"
    and "paid_end E meth url body start i token s2 x s'"
  shows "\<exists>rc. lr_receipt x = Some rc \<and> rc_preimage rc = pr_preimage payment"
proof -
  let ?n = "length (cl_receipts (sy_cl s1))"
  have pay: "i = ?n \<and> map receipt_core (cl_receipts (sy_cl s2)) =
      map receipt_core (cl_receipts (sy_cl s1)) @ [payment_core url payment]"
    using pay_challenge_run [OF assms(1)]
    by (auto dest: booked_newly simp: answered_from_map_def split: option.splits)
  then have core: "map receipt_core (cl_receipts (sy_cl s2)) ! i = payment_core url payment"
    and len: "length (cl_receipts (sy_cl s2)) = Suc i"
    by (metis length_map nth_append_length) (metis pay length_append_singleton length_map)
  obtain t1 t2 resp rc cl where e: "persist_token E url token s2 = (Ok (), t1)"
    "send_with_auth E meth url body token t1 = (Ok resp, t2)"
    "update_receipt i (rs_status resp) (elapsed_ms E start (sy_ext t2)) (sy_cl t2) = (Ok rc, cl)"
    "lr_receipt x = Some rc"
    using assms(2) unfolding paid_end_def by blast
  have "quiet meth url body s2 t2"
    by (rule quiet_trans [OF quiet_actD [OF quiet_persist e(1)] quiet_actD [OF quiet_send_with_auth e(2)]])
  then have same: "map receipt_core (cl_receipts (sy_cl t2)) = map receipt_core (cl_receipts (sy_cl s2))"
    by (auto simp: quiet_def same_books_def)
  then have l2: "length (cl_receipts (sy_cl t2)) = Suc i" using len by (metis length_map)
  have "receipt_core (cl_receipts (sy_cl t2) ! i) = payment_core url payment"
    using core l2 by (simp flip: same)
  then show ?thesis using e(3,4)
    by (auto simp: update_receipt_def receipt_core_def payment_core_def Let_def split: if_splits)
qed

section \<open>Over any token store\<close>

named_theorems keeps_intro \<open>actions that keep the store's invariant\<close>

context timed_store
begin

abbreviation stored :: "('w \<Rightarrow> 'q) \<Rightarrow> ('w \<Rightarrow> 'w) \<Rightarrow> 'w env \<Rightarrow> ('w \<times> 's) env" where
  "stored cond tick E \<equiv> over_store put get remove cond tick E"

definition keeps :: "('a, 'w \<times> 's) act \<Rightarrow> bool" where
  "keeps m \<longleftrightarrow> (\<forall>s r s'. m s = (r, s') \<longrightarrow> inv (snd (sy_ext s)) \<longrightarrow> inv (snd (sy_ext s')))"

lemma keepsD: "keeps m \<Longrightarrow> m s = (r, s') \<Longrightarrow> inv (snd (sy_ext s)) \<Longrightarrow> inv (snd (sy_ext s'))"
  unfolding keeps_def by blast

lemma keeps_imp: "keeps m \<Longrightarrow> m s = (r, s') \<Longrightarrow> inv (snd (sy_ext s)) \<longrightarrow> inv (snd (sy_ext s'))"
  unfolding keeps_def by blast

lemma keeps_bind [keeps_intro]: "keeps m \<Longrightarrow> (\<And>a. keeps (f a)) \<Longrightarrow> keeps (bind_act m f)"
  unfolding keeps_def bind_act_def by (auto split: prod.splits rres.splits)

lemma keeps_pure [keeps_intro]: "keeps (ret a)" "keeps (fail e)" "keeps (lift_res r)" "keeps (on_cl f)"
  by (auto simp: keeps_def on_cl_eq)

lemma snd_ext [simp]:
  "snd (sy_ext (log_call c s)) = snd (sy_ext s)" "sy_cl (log_call c s) = sy_cl s"
  "sy_ext (log_call c s) = sy_ext s"
  by (simp_all add: log_call_def)

lemma send_store: "send_checked (stored cond tick E) rq s = (r, s') \<Longrightarrow> snd (sy_ext s') = snd (sy_ext s)"
  by (auto simp: send_checked_def over_store_def Let_def split: prod.splits sum.splits if_splits)

lemma send_auth_store:
  "send_with_auth (stored cond tick E) meth url body token s = (r, s') \<Longrightarrow> snd (sy_ext s') = snd (sy_ext s)"
  by (auto simp: send_with_auth_def dest: send_store split: sum.splits)

lemma keeps_send [keeps_intro]:
  "keeps (send_request (stored cond tick E) meth url body)" "keeps (send_with_auth (stored cond tick E) meth url body token)"
  by (auto simp: keeps_def send_request_def dest: send_store send_auth_store)

lemma keeps_get [keeps_intro]: "keeps (store_get (stored cond tick E) url)"
  by (auto simp: keeps_def store_get_def over_store_def split: prod.splits)

lemma keeps_remove: "(\<And>w. may (cond w)) \<Longrightarrow> keeps (store_remove (stored cond tick E) url)"
  using remove_keeps
  by (auto simp: keeps_def store_remove_def over_store_def split: prod.splits)
    (metis sndI)

lemma keeps_before: "(\<And>w. may (cond w)) \<Longrightarrow> keeps (before_payment (stored cond tick E) meth url body)"
proof -
  assume may: "\<And>w. may (cond w)"
  have "keeps (find_token (stored cond tick E) url)"
    unfolding keeps_def find_token_def
    by (auto split: option.splits elim!: bind_actE dest: keepsD [OF keeps_get])
  moreover have "keeps (try_cached (stored cond tick E) meth url body token)" for token
    by (auto simp: try_cached_def split: option.split intro!: keeps_intro keeps_remove may)
  ultimately show ?thesis
    by (auto simp: before_payment_def split: option.split intro!: keeps_intro)
qed

lemma keeps_after: "keeps (after_payment E' key amount url start rv p)"
  by (auto simp: keeps_def after_payment_def Let_def on_cl_eq bind_act_def split: prod.splits rres.splits if_splits)

lemma call_pay_store: "call_pay (stored cond tick E) invoice fee s = (r, s') \<Longrightarrow> snd (sy_ext s') = snd (sy_ext s)"
  by (auto simp: call_pay_def over_store_def Let_def split: prod.splits rres.splits)

lemma keeps_pay_new: "keeps (pay_new (stored cond tick E) invoice key amount url start rv)"
  unfolding keeps_def
proof (intro allI impI)
  fix s r s'
  assume n: "pay_new (stored cond tick E) invoice key amount url start rv s = (r, s')" and i: "inv (snd (sy_ext s))"
  obtain pr s1 where c: "call_pay (stored cond tick E) invoice (rv_max_fee_sats rv) s = (pr, s1)" by fastforce
  have i1: "inv (snd (sy_ext s1))" using i call_pay_store [OF c] by simp
  show "inv (snd (sy_ext s'))"
    using n i1 by (cases pr) (auto simp: pay_new_def c on_cl_eq bind_act_def release_claim_def forget_claim_def split: if_splits
        dest: keepsD [OF keeps_after])
qed

lemma keeps_pay [keeps_intro]: "keeps (pay_challenge (stored cond tick E) limits cfg invoice amount domain url start)"
  unfolding keeps_def pay_challenge_def Let_def
  by (auto elim!: bind_actE simp: on_cl_eq split: sum.splits dest!: keeps_imp [OF keeps_pay_new])

lemma persisted:
  assumes "persist_token (stored cond tick E) url t s = (Ok (), s')" and "inv (snd (sy_ext s))"
    and may: "\<And>w. may (cond w)"
  shows "holds (snd (sy_ext s')) url = Some (tk_macaroon t, tk_preimage t) \<and> inv (snd (sy_ext s'))"
proof -
  obtain w db where s: "sy_ext s = (w, db)" by (cases "sy_ext s")
  obtain r db' where p: "put (cond w) db url (tk_macaroon t) (tk_preimage t) = (r, db')" by fastforce
  have "r = Ok () \<and> snd (sy_ext s') = db'" using assms(1)
    by (auto simp: persist_token_def on_cl_eq keep_unpersisted_def store_put_def over_store_def s p elim!: bind_actE)
  then show ?thesis
    using put_holds [OF may, of db w url "tk_macaroon t" "tk_preimage t"]
      put_keeps [OF may, of db w url "tk_macaroon t" "tk_preimage t"] assms(2) s p by simp
qed

text \<open>A request that paid leaves the credential of its receipt in the store, and the server accepted it.\<close>

lemma paid_token_stored:
  assumes "request (stored cond tick E) limits cfg meth url body s = (Ok x, s')" and "lr_paid x"
    and "inv (snd (sy_ext s))" and may: "\<And>w. may (cond w)"
  shows "\<exists>rc m t1 t2. lr_receipt x = Some rc
    \<and> holds (snd (sy_ext s')) url = Some (m, rc_preimage rc) \<and> inv (snd (sy_ext s'))
    \<and> send_with_auth (stored cond tick E) meth url body (token_new m (rc_preimage rc)) t1 = (Ok (lr_inner x), t2)
    \<and> sy_ext t2 = sy_ext s'"
proof -
  let ?E = "stored cond tick E"
  obtain response invoice m amount payment i s1 s2 where r:
    "before_payment ?E meth url body s = (Ok response, s1)"
    "pay_challenge ?E limits cfg invoice amount (request_domain ?E url) url (e_instant ?E (sy_ext s)) s1
       = (Ok (payment, i, True), s2)"
    "paid_end ?E meth url body (e_instant ?E (sy_ext s)) i (token_new m (pr_preimage payment)) s2 x s'"
    using request_end [OF assms(1,2)] by blast
  obtain rc where rc: "lr_receipt x = Some rc" "rc_preimage rc = pr_preimage payment"
    using paid_receipt [OF r(2,3)] by blast
  have i2: "inv (snd (sy_ext s2))"
    using keepsD [OF keeps_pay r(2) keepsD [OF keeps_before [OF may] r(1) assms(3)]] .
  obtain t1 t2 cl where e: "persist_token ?E url (token_new m (pr_preimage payment)) s2 = (Ok (), t1)"
    "send_with_auth ?E meth url body (token_new m (pr_preimage payment)) t1 = (Ok (lr_inner x), t2)"
    "s' = t2\<lparr>sy_cl := cl\<rparr>"
    using r(3) unfolding paid_end_def by blast
  show ?thesis
    using persisted [OF e(1) i2 may] send_auth_store [OF e(2)] e rc
    by (intro exI [of _ rc] exI [of _ m] exI [of _ t1] exI [of _ t2]) (simp add: token_new_def)
qed

text \<open>A stored credential is presented first, and nothing is paid if the server accepts it.\<close>

lemma presented_first:
  assumes "sound (cond w)" and "inv db" and "holds db url = Some (m, p)" and "cl_unpersisted cl url = None"
    and "send_with_auth (stored cond tick E) meth url body (token_new m p) \<lparr>sy_ext = (tick w, db), sy_cl = cl, sy_log = l\<rparr> = (Ok resp, s')"
    and "rs_status resp \<noteq> PAYMENT_REQUIRED"
  shows "request (stored cond tick E) limits cfg meth url body \<lparr>sy_ext = (w, db), sy_cl = cl, sy_log = l\<rparr> =
      (Ok \<lparr>lr_inner = resp, lr_paid = False, lr_cached_token = True, lr_receipt = None\<rparr>, s')
    \<and> sy_cl s' = cl \<and> pays (sy_log s') = pays l"
proof -
  let ?s = "\<lparr>sy_ext = (w, db), sy_cl = cl, sy_log = l\<rparr>" and ?s1 = "\<lparr>sy_ext = (tick w, db), sy_cl = cl, sy_log = l\<rparr>"
  have "store_get (stored cond tick E) url ?s = (Ok (Some (m, p)), ?s1)"
    using get_sound [OF assms(1,2), of url] assms(3) by (simp add: store_get_def over_store_def)
  then have find: "find_token (stored cond tick E) url ?s = (Ok (Some (token_new m p)), ?s1)"
    using assms(4) by (simp add: find_token_def)
  have "try_cached (stored cond tick E) meth url body (Some (token_new m p)) ?s1 =
      (Ok (Some \<lparr>lr_inner = resp, lr_paid = False, lr_cached_token = True, lr_receipt = None\<rparr>), s')"
    using assms(5,6) by (simp add: try_cached_def)
  then show ?thesis using find send_with_auth_run [OF assms(5)] by (auto simp: request_def)
qed

lemma credential_reused:
  assumes "request (stored cond tick E) limits cfg meth url body s = (Ok x, s')" and "lr_paid x"
    and "inv (snd (sy_ext s))" and may: "\<And>w. may (cond w)"
  shows "\<exists>rc m t1 t2. lr_receipt x = Some rc
    \<and> send_with_auth (stored cond tick E) meth url body (token_new m (rc_preimage rc)) t1 = (Ok (lr_inner x), t2)
    \<and> sy_ext t2 = sy_ext s'
    \<and> (\<forall>calls. (\<forall>c \<in> set calls. may (fst c) \<and> op_spares url (snd c)) \<longrightarrow>
        (\<forall>E2 cond2 tick2 w2 limits2 cfg2 meth2 body2 cl2 resp s2. sound (cond2 w2) \<longrightarrow> cl_unpersisted cl2 url = None \<longrightarrow>
        send_with_auth (stored cond2 tick2 E2) meth2 url body2 (token_new m (rc_preimage rc))
          \<lparr>sy_ext = (tick2 w2, foldl call_op (snd (sy_ext s')) calls), sy_cl = cl2, sy_log = []\<rparr> = (Ok resp, s2) \<longrightarrow>
        rs_status resp \<noteq> PAYMENT_REQUIRED \<longrightarrow>
        request (stored cond2 tick2 E2) limits2 cfg2 meth2 url body2
          \<lparr>sy_ext = (w2, foldl call_op (snd (sy_ext s')) calls), sy_cl = cl2, sy_log = []\<rparr> =
          (Ok \<lparr>lr_inner = resp, lr_paid = False, lr_cached_token = True, lr_receipt = None\<rparr>, s2)
        \<and> sy_cl s2 = cl2 \<and> pays (sy_log s2) = []))"
proof -
  obtain rc m t1 t2 where *: "lr_receipt x = Some rc"
    "send_with_auth (stored cond tick E) meth url body (token_new m (rc_preimage rc)) t1 = (Ok (lr_inner x), t2)"
    "sy_ext t2 = sy_ext s'"
    and h: "holds (snd (sy_ext s')) url = Some (m, rc_preimage rc)" and i: "inv (snd (sy_ext s'))"
    using paid_token_stored [OF assms] by blast
  have later: "inv (foldl call_op (snd (sy_ext s')) calls)"
    "holds (foldl call_op (snd (sy_ext s')) calls) url = Some (m, rc_preimage rc)"
    if "\<forall>c \<in> set calls. may (fst c) \<and> op_spares url (snd c)" for calls
    using that h calls_keep [OF _ i, of calls] calls_hold_untouched [OF _ i, of calls url] by auto
  show ?thesis
    by (intro exI [of _ rc] exI [of _ m] exI [of _ t1] exI [of _ t2] conjI * allI impI)
      (use presented_first [OF _ later] in \<open>fastforce+\<close>)
qed

end

section \<open>Property\<close>

text \<open>C12. A credential that was paid for survives the client, in a SQLite store without a time to live:
  after a request that paid, and any further calls on the database for other endpoints, any client
  over the same database, at any later time, with any environment, budget, configuration and history
  of its own, first presents the credential with which the paid request was answered, unless it has
  an unpersisted one of its own or the engine fails the lookup; if the server still accepts it, the
  client returns that answer, pays nothing and keeps its books. The times of the calls are arbitrary
  (past the epoch), and the engine may fail any other call.\<close>

theorem credential_survives_restart:
  assumes "request (over_store sq_put sq_get sq_remove cond tick E) limits cfg meth url body s = (Ok x, s')"
    and "lr_paid x" and "plain_ok (snd (sy_ext s))" and "\<forall>w. q_clock (cond w) \<noteq> None"
  shows "\<exists>rc m t1 t2. lr_receipt x = Some rc
    \<and> send_with_auth (over_store sq_put sq_get sq_remove cond tick E) meth url body (token_new m (rc_preimage rc)) t1
        = (Ok (lr_inner x), t2)
    \<and> sy_ext t2 = sy_ext s'
    \<and> (\<forall>calls. (\<forall>(q, c) \<in> set calls. q_clock q \<noteq> None \<and> op_spares url c) \<longrightarrow>
        (\<forall>(E2 :: 'v env) cond2 tick2 w2 limits2 cfg2 meth2 body2 cl2 resp s2.
        q_clock (cond2 w2) \<noteq> None \<and> q_fault (cond2 w2) = None \<longrightarrow> cl_unpersisted cl2 url = None \<longrightarrow>
        send_with_auth (over_store sq_put sq_get sq_remove cond2 tick2 E2) meth2 url body2 (token_new m (rc_preimage rc))
          \<lparr>sy_ext = (tick2 w2, sqlite_run (snd (sy_ext s')) calls), sy_cl = cl2, sy_log = []\<rparr> = (Ok resp, s2) \<longrightarrow>
        rs_status resp \<noteq> PAYMENT_REQUIRED \<longrightarrow>
        request (over_store sq_put sq_get sq_remove cond2 tick2 E2) limits2 cfg2 meth2 url body2
          \<lparr>sy_ext = (w2, sqlite_run (snd (sy_ext s')) calls), sy_cl = cl2, sy_log = []\<rparr> =
          (Ok \<lparr>lr_inner = resp, lr_paid = False, lr_cached_token = True, lr_receipt = None\<rparr>, s2)
        \<and> sy_cl s2 = cl2 \<and> pays (sy_log s2) = []))"
proof -
  have "\<And>w. clock_set (cond w)" using assms(4) by (simp add: clock_set_def)
  from sq.credential_reused [OF assms(1-3) this] show ?thesis
    unfolding sqlite_run_eq clock_set_def sound_sq_def split_beta .
qed

text \<open>An instance: the sample server and backend, over a new database.\<close>

definition sample_db_env :: "(unit \<times> sqlite_store) env" where
  "sample_db_env = over_store sq_put sq_get sq_remove (\<lambda>_. sound_call 100) (\<lambda>w. w) sample_env"

definition sample_db_sys :: "port_call list \<Rightarrow> sqlite_store \<Rightarrow> client_state \<Rightarrow> (unit \<times> sqlite_store) sys" where
  "sample_db_sys l db cl = \<lparr>sy_ext = ((), db), sy_cl = cl, sy_log = l\<rparr>"

lemmas sample_db_defs = sample_db_env_def sample_db_sys_def over_store_def sample_env_def

lemma sample_db_env_fields:
  "e_instant sample_db_env w = 0" "request_domain sample_db_env u = Some ''h''"
  "extract_challenge sample_db_env = extract_challenge sample_env"
  by (auto simp: sample_db_defs request_domain_def trim_end_matches_def extract_challenge_def fun_eq_iff split: prod.split)

lemma sample_db_find:
  "find_token sample_db_env ''u'' (sample_db_sys l fresh_sqlite client_start) = (Ok None, sample_db_sys l fresh_sqlite client_start)"
proof -
  have "sq_get (sound_call 100) fresh_sqlite ''u'' = Ok None"
    by (simp add: sq_get_plain fresh_plain select_token_def) (simp add: fresh_sqlite_def sq_rows_def)
  then show ?thesis
    by (simp add: find_token_def client_start_def store_get_def bind_act_def sample_db_defs)
qed

abbreviation sample_demand :: http_response where
  "sample_demand \<equiv> \<lparr>rs_status = 402, rs_origin = ''o'', rs_www_authenticate = Some sample_header, rs_body = []\<rparr>"

lemma sample_db_send:
  "\<exists>l'. send_request sample_db_env ''GET'' ''u'' None (sample_db_sys l db cl) = (Ok sample_demand, sample_db_sys l' db cl)"
  "\<exists>l'. send_with_auth sample_db_env ''GET'' ''u'' None tok (sample_db_sys l db cl) =
     (Ok \<lparr>rs_status = 200, rs_origin = ''o'', rs_www_authenticate = None, rs_body = ''data''\<rparr>, sample_db_sys l' db cl)"
  by (auto simp: send_request_def send_with_auth_def send_checked_def sample_db_defs log_call_def)

lemma sample_db_pay:
  "\<exists>l'. pay_challenge sample_db_env unlimited sample_config ''lnbc10u1x'' 1000 (Some ''h'') ''u'' 0
     (sample_db_sys l db client_start) = (Ok (sample_payment, 0, True), sample_db_sys l' db sample_paid_cl)"
  by (simp add: pay_challenge_def Let_def sample_lower on_cl_eq claim_def client_start_def
      sample_db_defs config_default_def now_secs_def sample_reserved bind_act_def pay_new_def call_pay_def
      log_call_def after_payment_def payment_receipt_def receipt_new_def elapsed_ms_def
      payment_violation_def sample_payment_def payment_total_def checked_add_def push_receipt_def
      settle_payment_def settle_at_def commit_payment_def sample_paid_cl_def lift_res_def)

lemma sample_paid_facts:
  "cl_unpersisted sample_paid_cl = (\<lambda>_. None)" "cl_receipts sample_paid_cl \<noteq> []"
  by (simp_all add: sample_paid_cl_def commit_payment_def settle_payment_def client_start_def split: prod.splits)

lemma sample_db_persist:
  "\<exists>l' db'. persist_token sample_db_env ''u'' tok (sample_db_sys l fresh_sqlite sample_paid_cl) =
     (Ok (), sample_db_sys l' db' sample_paid_cl)"
proof -
  have "(cl_unpersisted sample_paid_cl)(''u'' := None) = cl_unpersisted sample_paid_cl"
    by (simp add: sample_paid_facts fun_eq_iff)
  then show ?thesis
    by (simp add: persist_token_def on_cl_eq keep_unpersisted_def store_put_def sample_db_defs log_call_def
      bind_act_def drop_if_saved_def drop_unpersisted_def sq_put_plain fresh_plain)
qed

lemma sample_db_request:
  "\<exists>x s'. request sample_db_env unlimited sample_config ''GET'' ''u'' None (sample_db_sys [] fresh_sqlite client_start)
     = (Ok x, s') \<and> lr_paid x"
proof -
  let ?tok = "token_new ''QQ'' (pr_preimage sample_payment)"
  obtain l1 where s1: "send_request sample_db_env ''GET'' ''u'' None (sample_db_sys [] fresh_sqlite client_start) =
      (Ok sample_demand, sample_db_sys l1 fresh_sqlite client_start)" using sample_db_send(1) by blast
  obtain l2 where s2: "pay_challenge sample_db_env unlimited sample_config ''lnbc10u1x'' 1000 (Some ''h'') ''u'' 0
     (sample_db_sys l1 fresh_sqlite client_start) = (Ok (sample_payment, 0, True), sample_db_sys l2 fresh_sqlite sample_paid_cl)"
    using sample_db_pay by blast
  obtain l3 db' where s3: "persist_token sample_db_env ''u'' ?tok (sample_db_sys l2 fresh_sqlite sample_paid_cl) =
     (Ok (), sample_db_sys l3 db' sample_paid_cl)" using sample_db_persist by blast
  obtain l4 where s4: "send_with_auth sample_db_env ''GET'' ''u'' None ?tok (sample_db_sys l3 db' sample_paid_cl) =
     (Ok \<lparr>rs_status = 200, rs_origin = ''o'', rs_www_authenticate = None, rs_body = ''data''\<rparr>, sample_db_sys l4 db' sample_paid_cl)"
    using sample_db_send(2) by blast
  have cl: "sy_cl (sample_db_sys l4 db' sample_paid_cl) = sample_paid_cl" by (simp add: sample_db_sys_def)
  show ?thesis
    by (simp add: request_def Let_def sample_db_env_fields sample_db_find try_cached_def s1 PAYMENT_REQUIRED_def
        answer_challenge_def sample_challenge sample_amount s2 retry_paid_def s3 s4)
      (simp add: bind_act_def on_cl_eq update_receipt_def cl sample_paid_facts Let_def)
qed

text \<open>A new client over the database then gets the data without paying, a year later.\<close>

definition sample_later_env :: "(unit \<times> sqlite_store) env" where
  "sample_later_env = over_store sq_put sq_get sq_remove (\<lambda>_. sound_call 31536100) (\<lambda>w. w) sample_env"

theorem credential_survives_restart_witness:
  "\<exists>x s' y s2. request sample_db_env unlimited sample_config ''GET'' ''u'' None
        (sample_db_sys [] fresh_sqlite client_start) = (Ok x, s')
    \<and> request sample_later_env unlimited sample_config ''GET'' ''u'' None
        \<lparr>sy_ext = sy_ext s', sy_cl = client_start, sy_log = []\<rparr> = (Ok y, s2)
    \<and> lr_cached_token y \<and> \<not> lr_paid y \<and> pays (sy_log s2) = []"
proof -
  obtain x s' where r: "request sample_db_env unlimited sample_config ''GET'' ''u'' None
      (sample_db_sys [] fresh_sqlite client_start) = (Ok x, s')" "lr_paid x"
    using sample_db_request by blast
  have p: "plain_ok (snd (sy_ext (sample_db_sys [] fresh_sqlite client_start)))"
    by (simp add: sample_db_sys_def fresh_plain)
  obtain db where db: "sy_ext s' = ((), db)" by (cases "sy_ext s'") auto
  have clk: "\<forall>w::unit. q_clock (sound_call 100) \<noteq> None" by (simp add: sound_call_def)
  from credential_survives_restart [where ?'v = unit, OF r(1) [unfolded sample_db_env_def] r(2) p clk]
  obtain rc :: receipt and m where again:
    "\<forall>calls. (\<forall>(q, c) \<in> set calls. q_clock q \<noteq> None \<and> op_spares ''u'' c) \<longrightarrow>
      (\<forall>(E2 :: unit env) cond2 tick2 w2 limits2 cfg2 meth2 body2 cl2 resp s2.
      q_clock (cond2 w2) \<noteq> None \<and> q_fault (cond2 w2) = None \<longrightarrow> cl_unpersisted cl2 ''u'' = None \<longrightarrow>
      send_with_auth (over_store sq_put sq_get sq_remove cond2 tick2 E2) meth2 ''u'' body2 (token_new m (rc_preimage rc))
        \<lparr>sy_ext = (tick2 w2, sqlite_run (snd (sy_ext s')) calls), sy_cl = cl2, sy_log = []\<rparr> = (Ok resp, s2) \<longrightarrow>
      rs_status resp \<noteq> PAYMENT_REQUIRED \<longrightarrow>
      request (over_store sq_put sq_get sq_remove cond2 tick2 E2) limits2 cfg2 meth2 ''u'' body2
        \<lparr>sy_ext = (w2, sqlite_run (snd (sy_ext s')) calls), sy_cl = cl2, sy_log = []\<rparr> =
        (Ok \<lparr>lr_inner = resp, lr_paid = False, lr_cached_token = True, lr_receipt = None\<rparr>, s2)
      \<and> sy_cl s2 = cl2 \<and> pays (sy_log s2) = [])"
    by blast
  have none: "\<forall>(q, c) \<in> set []. q_clock q \<noteq> None \<and> op_spares ''u'' c" by simp
  obtain s2 where sent: "send_with_auth sample_later_env ''GET'' ''u'' None (token_new m (rc_preimage rc)) (sample_db_sys [] db client_start) =
      (Ok \<lparr>rs_status = 200, rs_origin = ''o'', rs_www_authenticate = None, rs_body = ''data''\<rparr>, s2)"
    by (simp add: sample_later_env_def sample_db_sys_def send_with_auth_def send_checked_def sample_env_def over_store_def log_call_def)
  note answer = again [THEN spec, of "[]", THEN mp, OF none, THEN spec, of sample_env, THEN spec, of "\<lambda>_. sound_call 31536100",
      THEN spec, of "\<lambda>w. w", folded sample_later_env_def, unfolded sqlite_run_def foldl_Nil db snd_conv]
  have "request sample_later_env unlimited sample_config ''GET'' ''u'' None \<lparr>sy_ext = ((), db), sy_cl = client_start, sy_log = []\<rparr> =
        (Ok \<lparr>lr_inner = \<lparr>rs_status = 200, rs_origin = ''o'', rs_www_authenticate = None, rs_body = ''data''\<rparr>,
           lr_paid = False, lr_cached_token = True, lr_receipt = None\<rparr>, s2)
      \<and> sy_cl s2 = client_start \<and> pays (sy_log s2) = []"
    by (rule answer [rule_format]) (simp_all add: sent [unfolded sample_db_sys_def client_start_def] sound_call_def client_start_def PAYMENT_REQUIRED_def)
  then show ?thesis using r(1) db by auto
qed

end
