(* ===== verification/Client_Tokens.thy ===== *)
theory Client_Tokens
  imports Client_Stores
begin

text \<open>
  Concurrent requests on one client, as far as credentials go. A task is one call of \<open>request\<close>; its
  state says before which block it is. A block is what runs under one lock, one call of the token
  store, or one HTTP exchange, and blocks of different tasks interleave in any order; a future may
  be dropped between any two of its blocks (the code has an await at fewer places). The payment is
  the oracle of this model: \<open>pay_challenge\<close> may return any preimage (\<open>Client_Concurrent.thy\<close> says what
  it does to the books, \<open>Client_Runs.thy\<close> that the preimage proves a settled payment). Between its
  return and the block that keeps the proof there is no await, so that a dropped future never
  separates the two.
\<close>

section \<open>Tasks and events\<close>

datatype task =
    Looking string
  | Trying string l402_token
  | Tried string
  | Removing string
  | Asking string
  | Demanded string string
  | Keeping string l402_token
  | Kept string l402_token
  | Retrying string l402_token
  | Retried string
  | Clearing string
  | Finished

text \<open>What the outside answers to a block: a response that is no 402, a 402 (to a plain request with the
  macaroon of its challenge), a failure, or the preimage of the payment.\<close>

datatype outcome = Answered | PaymentDemanded string | Failure | Settled string

text \<open>What an observer sees: a credential was paid for, sent, or answered with 402.\<close>

datatype credential_event =
    Issued string l402_token
  | Presented string l402_token
  | Denied string l402_token

record 's token_sys =
  tl_cl :: client_state
  tl_store :: 's
  tl_tasks :: "task list"
  tl_trace :: "credential_event list"

definition token_start :: "'s \<Rightarrow> 's token_sys" where
  "token_start store = \<lparr>tl_cl = client_start, tl_store = store, tl_tasks = [], tl_trace = []\<rparr>"

text \<open>The first block of a request: the tokens that are kept because they are not persisted.\<close>

definition first_lookup :: "client_state \<Rightarrow> string \<Rightarrow> task" where
  "first_lookup cl url =
     (case cl_unpersisted cl url of Some token \<Rightarrow> Trying url token | None \<Rightarrow> Looking url)"

fun block ::
  "('s \<Rightarrow> string \<Rightarrow> string \<Rightarrow> string \<Rightarrow> (unit, client_error) rres \<times> 's)
   \<Rightarrow> ('s \<Rightarrow> string \<Rightarrow> ((string \<times> string) option, client_error) rres)
   \<Rightarrow> ('s \<Rightarrow> string \<Rightarrow> (unit, client_error) rres \<times> 's)
   \<Rightarrow> outcome \<Rightarrow> task \<Rightarrow> client_state \<Rightarrow> 's \<Rightarrow> task \<times> client_state \<times> 's \<times> credential_event list" where
  "block put get remove outcome (Looking url) cl s =
     (case get s url of
        Ok (Some (macaroon, preimage)) \<Rightarrow> (Trying url (token_new macaroon preimage), cl, s, [])
      | Ok None \<Rightarrow> (Asking url, cl, s, [])
      | _ \<Rightarrow> (Finished, cl, s, []))"
| "block put get remove outcome (Trying url token) cl s =
     (case outcome of
        PaymentDemanded _ \<Rightarrow> (Tried url, cl, s, [Presented url token, Denied url token])
      | _ \<Rightarrow> (Finished, cl, s, [Presented url token]))"
| "block put get remove outcome (Tried url) cl s = (Removing url, snd (drop_unpersisted url cl), s, [])"
| "block put get remove outcome (Removing url) cl s =
     (case remove s url of (r, s') \<Rightarrow> (if r = Ok () then Asking url else Finished, cl, s', []))"
| "block put get remove outcome (Asking url) cl s =
     (case outcome of
        PaymentDemanded macaroon \<Rightarrow> (Demanded url macaroon, cl, s, [])
      | _ \<Rightarrow> (Finished, cl, s, []))"
| "block put get remove outcome (Demanded url macaroon) cl s =
     (case outcome of
        Settled preimage \<Rightarrow>
          (let token = token_new macaroon preimage in
           (Keeping url token, snd (keep_unpersisted url token cl), s, [Issued url token]))
      | _ \<Rightarrow> (Finished, cl, s, []))"
| "block put get remove outcome (Keeping url token) cl s =
     (case put s url (tk_macaroon token) (tk_preimage token) of (r, s') \<Rightarrow>
        (if r = Ok () then Kept url token else Finished, cl, s', []))"
| "block put get remove outcome (Kept url token) cl s =
     (Retrying url token, snd (drop_if_saved url token cl), s, [])"
| "block put get remove outcome (Retrying url token) cl s =
     (case outcome of
        PaymentDemanded _ \<Rightarrow> (Retried url, cl, s, [Presented url token, Denied url token])
      | _ \<Rightarrow> (Finished, cl, s, [Presented url token]))"
| "block put get remove outcome (Retried url) cl s = (Clearing url, snd (drop_unpersisted url cl), s, [])"
| "block put get remove outcome (Clearing url) cl s =
     (case remove s url of (r, s') \<Rightarrow> (Finished, cl, s', []))"
| "block put get remove outcome Finished cl s = (Finished, cl, s, [])"

datatype schedule =
    Begin string
  | Run nat outcome
  | Cancel nat

fun token_step ::
  "('s \<Rightarrow> string \<Rightarrow> string \<Rightarrow> string \<Rightarrow> (unit, client_error) rres \<times> 's)
   \<Rightarrow> ('s \<Rightarrow> string \<Rightarrow> ((string \<times> string) option, client_error) rres)
   \<Rightarrow> ('s \<Rightarrow> string \<Rightarrow> (unit, client_error) rres \<times> 's)
   \<Rightarrow> schedule \<Rightarrow> 's token_sys \<Rightarrow> 's token_sys" where
  "token_step put get remove (Begin url) st = st\<lparr>tl_tasks := tl_tasks st @ [first_lookup (tl_cl st) url]\<rparr>"
| "token_step put get remove (Run i outcome) st =
     (if i < length (tl_tasks st)
      then (case block put get remove outcome (tl_tasks st ! i) (tl_cl st) (tl_store st) of
              (t, cl, s, evs) \<Rightarrow> \<lparr>tl_cl = cl, tl_store = s, tl_tasks = (tl_tasks st)[i := t],
                                  tl_trace = tl_trace st @ evs\<rparr>)
      else st)"
| "token_step put get remove (Cancel i) st = st\<lparr>tl_tasks := (tl_tasks st)[i := Finished]\<rparr>"

definition token_run where
  "token_run put get remove es st = foldl (\<lambda>st e. token_step put get remove e st) st es"

text \<open>The same over a store whose calls differ in their conditions \<open>q\<close>, the time and the failures.\<close>

definition timed_run where
  "timed_run put get remove es st = foldl (\<lambda>st (q, e). token_step (put q) (get q) (remove q) e st) st es"

lemma token_run_timed:
  "token_run put get remove es st
     = timed_run (\<lambda>_ :: unit. put) (\<lambda>_. get) (\<lambda>_. remove) (map (Pair ()) es) st"
  by (simp add: token_run_def timed_run_def foldl_map)

lemma timed_run_simps [simp]:
  "timed_run put get remove [] st = st"
  "timed_run put get remove ((q, e) # es) st
     = timed_run put get remove es (token_step (put q) (get q) (remove q) e st)"
  "timed_run put get remove (es @ es') st = timed_run put get remove es' (timed_run put get remove es st)"
  by (simp_all add: timed_run_def)

text \<open>The credential a new request for the URL would present.\<close>

definition available :: "('s \<Rightarrow> string \<Rightarrow> ((string \<times> string) option, client_error) rres)
    \<Rightarrow> 's token_sys \<Rightarrow> string \<Rightarrow> l402_token option" where
  "available get st url =
     (case cl_unpersisted (tl_cl st) url of
        Some token \<Rightarrow> Some token
      | None \<Rightarrow> (case get (tl_store st) url of
            Ok (Some (macaroon, preimage)) \<Rightarrow> Some (token_new macaroon preimage)
          | _ \<Rightarrow> None))"

section \<open>Credentials stay where they were issued\<close>

fun carries :: "task \<Rightarrow> (string \<times> l402_token) option" where
  "carries (Trying url token) = Some (url, token)"
| "carries (Keeping url token) = Some (url, token)"
| "carries (Kept url token) = Some (url, token)"
| "carries (Retrying url token) = Some (url, token)"
| "carries _ = None"

text \<open>The tasks that are about to remove what is known for a URL.\<close>

fun clears :: "task \<Rightarrow> string option" where
  "clears (Tried url) = Some url"
| "clears (Removing url) = Some url"
| "clears (Retried url) = Some url"
| "clears (Clearing url) = Some url"
| "clears _ = None"

definition denied :: "credential_event list \<Rightarrow> string \<Rightarrow> bool" where
  "denied trace url \<longleftrightarrow> (\<exists>token. Denied url token \<in> set trace)"

context confining_store
begin

text \<open>\<open>s0\<close> is the store the client starts with.\<close>

definition known_for :: "'s \<Rightarrow> credential_event list \<Rightarrow> string \<Rightarrow> l402_token \<Rightarrow> bool" where
  "known_for s0 trace url token \<longleftrightarrow> Issued url token \<in> set trace
     \<or> holds s0 url = Some (tk_macaroon token, tk_preimage token)"

lemma known_mono: "known_for s0 trace url token \<Longrightarrow> known_for s0 (trace @ evs) url token"
  by (auto simp: known_for_def)

text \<open>Every credential that is kept, stored or about to be sent is known for its URL.\<close>

definition confined :: "'s \<Rightarrow> 's token_sys \<Rightarrow> bool" where
  "confined s0 st \<longleftrightarrow> inv (tl_store st)
   \<and> (\<forall>url token. cl_unpersisted (tl_cl st) url = Some token \<longrightarrow> known_for s0 (tl_trace st) url token)
   \<and> (\<forall>url m p. holds (tl_store st) url = Some (m, p) \<longrightarrow> known_for s0 (tl_trace st) url (token_new m p))
   \<and> (\<forall>t \<in> set (tl_tasks st). \<forall>url token. carries t = Some (url, token) \<longrightarrow> known_for s0 (tl_trace st) url token)
   \<and> (\<forall>url token. Presented url token \<in> set (tl_trace st) \<longrightarrow> known_for s0 (tl_trace st) url token)"

lemma store_after:
  assumes "may q" and "inv s" and "\<forall>url m p. holds s url = Some (m, p) \<longrightarrow> K url (token_new m p)"
  shows "put q s u m p = (r, s') \<Longrightarrow> K u (token_new m p) \<Longrightarrow>
      inv s' \<and> (\<forall>url m p. holds s' url = Some (m, p) \<longrightarrow> K url (token_new m p))"
    and "remove q s u = (r, s') \<Longrightarrow>
      inv s' \<and> (\<forall>url m p. holds s' url = Some (m, p) \<longrightarrow> K url (token_new m p))"
  using put_inv [OF assms(1,2), of u m p] put_below [OF assms(1,2), of u m p] remove_inv [OF assms(1,2), of u]
    remove_below [OF assms(1,2), of u] assms(3) by fastforce+

lemma token_new_eta [simp]: "token_new (tk_macaroon t) (tk_preimage t) = t"
  by (simp add: token_new_def)

definition parts_confined ::
  "(string \<Rightarrow> l402_token \<Rightarrow> bool) \<Rightarrow> task \<Rightarrow> client_state \<Rightarrow> 's \<Rightarrow> credential_event list \<Rightarrow> bool" where
  "parts_confined K t cl s evs \<longleftrightarrow> inv s
   \<and> (\<forall>url token. cl_unpersisted cl url = Some token \<longrightarrow> K url token)
   \<and> (\<forall>url m p. holds s url = Some (m, p) \<longrightarrow> K url (token_new m p))
   \<and> (\<forall>url token. carries t = Some (url, token) \<longrightarrow> K url token)
   \<and> (\<forall>url token. Presented url token \<in> set evs \<longrightarrow> K url token)"

lemma block_confined:
  assumes "block (put q) (get q) (remove q) outcome t cl s = (t', cl', s', evs)" and may: "may q"
    and "parts_confined K t cl s []" and "\<And>url token. Issued url token \<in> set evs \<Longrightarrow> K url token"
  shows "parts_confined K t' cl' s' evs"
proof -
  have i: "inv s" and st: "\<forall>url m p. holds s url = Some (m, p) \<longrightarrow> K url (token_new m p)"
    using assms(3) by (auto simp: parts_confined_def)
  show ?thesis
  proof (cases t)
    case (Removing url)
    obtain r s1 where r: "remove q s url = (r, s1)" by fastforce
    show ?thesis using assms(1,3) store_after(2) [OF may i st r]
      by (auto simp: Removing r parts_confined_def split: if_splits)
  next
    case (Clearing url)
    obtain r s1 where r: "remove q s url = (r, s1)" by fastforce
    show ?thesis using assms(1,3) store_after(2) [OF may i st r] by (auto simp: Clearing r parts_confined_def)
  next
    case (Keeping url token)
    obtain r s1 where r: "put q s url (tk_macaroon token) (tk_preimage token) = (r, s1)" by fastforce
    show ?thesis using assms(1,3) store_after(1) [OF may i st r]
      by (auto simp: Keeping r parts_confined_def split: if_splits)
  next
    case (Demanded url macaroon)
    then show ?thesis using assms
      by (cases outcome) (auto simp: parts_confined_def keep_unpersisted_def Let_def split: if_splits)
  next
    case (Looking url)
    then show ?thesis using assms(1,3) get_below [OF may i, of url]
      by (auto simp: parts_confined_def split: rres.splits option.splits)
  qed (use assms in \<open>auto simp: parts_confined_def drop_unpersisted_def drop_if_saved_def
      split: rres.splits option.splits outcome.splits if_splits\<close>)
qed

lemma confinedD:
  assumes "confined s0 st" and "t \<in> set (tl_tasks st)"
  shows "parts_confined (known_for s0 (tl_trace st)) t (tl_cl st) (tl_store st) []"
  using assms by (auto simp: confined_def parts_confined_def)

lemma parts_mono:
  "parts_confined K t cl s evs \<Longrightarrow> (\<And>url token. K url token \<Longrightarrow> K' url token) \<Longrightarrow> parts_confined K' t cl s evs"
  by (auto simp: parts_confined_def)

lemma confined_step:
  assumes "may q"
  shows "confined s0 st \<Longrightarrow> confined s0 (token_step (put q) (get q) (remove q) e st)"
proof (cases e)
  case (Begin url)
  assume "confined s0 st"
  then show ?thesis by (auto simp: Begin confined_def first_lookup_def split: option.splits)
next
  case (Cancel i)
  assume "confined s0 st"
  then show ?thesis
    by (auto simp: Cancel confined_def dest!: set_update_subset_insert [THEN subsetD])
next
  case (Run i outcome)
  assume c: "confined s0 st"
  show ?thesis
  proof (cases "i < length (tl_tasks st)")
    case True
    obtain t cl s evs where b: "block (put q) (get q) (remove q) outcome (tl_tasks st ! i) (tl_cl st) (tl_store st) = (t, cl, s, evs)"
      by (metis prod_cases4)
    let ?K = "known_for s0 (tl_trace st @ evs)"
    have "parts_confined ?K t cl s evs"
      by (rule block_confined [OF b assms parts_mono [OF confinedD [OF c nth_mem [OF True]]]])
        (auto simp: known_for_def)
    then show ?thesis using c True
      by (auto simp: Run b confined_def parts_confined_def intro: known_mono
          dest!: set_update_subset_insert [THEN subsetD])
  qed (use c in \<open>simp add: Run\<close>)
qed

lemma confined_available:
  "may q \<Longrightarrow> confined s0 st \<Longrightarrow> available (get q) st url = Some token \<Longrightarrow> known_for s0 (tl_trace st) url token"
  by (auto simp: confined_def available_def dest: get_below split: option.splits rres.splits)

lemma confined_start: "inv s0 \<Longrightarrow> confined s0 (token_start s0)"
  by (simp add: confined_def token_start_def client_start_def known_for_def token_new_def)

lemma confined_run:
  "\<forall>(q, e) \<in> set es. may q \<Longrightarrow> inv s0 \<Longrightarrow> confined s0 (timed_run put get remove es (token_start s0))"
proof (induction es rule: rev_induct)
  case Nil
  then show ?case by (simp add: confined_start)
next
  case (snoc qe es)
  then show ?case by (cases qe) (auto intro: confined_step)
qed

end

section \<open>A paid credential is not lost\<close>

text \<open>Over a store that keeps what it is given: until the server refuses some credential of a URL,
  nothing that was issued for the URL is out of reach.\<close>

context timed_store
begin

definition within_reach :: "client_state \<Rightarrow> 's \<Rightarrow> string \<Rightarrow> bool" where
  "within_reach cl s url \<longleftrightarrow> cl_unpersisted cl url \<noteq> None \<or> (\<exists>c. holds s url = Some c)"

definition task_safe :: "'s \<Rightarrow> string \<Rightarrow> task \<Rightarrow> bool" where
  "task_safe s url t \<longleftrightarrow> clears t \<noteq> Some url
     \<and> (\<forall>token. t = Kept url token \<longrightarrow> (\<exists>c. holds s url = Some c))"

definition undenied_safe :: "'s token_sys \<Rightarrow> bool" where
  "undenied_safe st \<longleftrightarrow> (\<forall>url. \<not> denied (tl_trace st) url \<longrightarrow>
     (\<forall>t \<in> set (tl_tasks st). task_safe (tl_store st) url t)
   \<and> (\<forall>token. Issued url token \<in> set (tl_trace st) \<longrightarrow> within_reach (tl_cl st) (tl_store st) url))"

lemma stored_stays:
  assumes "may q" and "inv s" and "holds s url = Some c"
  shows "put q s u m p = (r, s') \<Longrightarrow> \<exists>c. holds s' url = Some c"
    and "remove q s u = (r, s') \<Longrightarrow> u \<noteq> url \<Longrightarrow> holds s' url = Some c"
  using put_holds [OF assms(1,2), of u m p] remove_holds [OF assms(1,2), of u] assms(3)
  by (auto split: if_splits)

text \<open>A block of a safe task, for a URL that stays undenied: what was stored stays stored, what was in
  reach stays in reach, and the task and its credential are safe afterwards.\<close>

lemma block_safe:
  assumes "block (put q) (get q) (remove q) outcome t cl s = (t', cl', s', evs)" and may: "may q" and "inv s"
    and "task_safe s url t" and "\<forall>token. Denied url token \<notin> set evs"
  shows "((\<exists>c. holds s url = Some c) \<longrightarrow> (\<exists>c. holds s' url = Some c))
    \<and> (within_reach cl s url \<longrightarrow> within_reach cl' s' url)
    \<and> task_safe s' url t'
    \<and> (\<forall>token. Issued url token \<in> set evs \<longrightarrow> within_reach cl' s' url)"
proof (cases t)
  case (Removing u)
  obtain r s1 where r: "remove q s u = (r, s1)" by fastforce
  have "u \<noteq> url" using assms(4) by (simp add: Removing task_safe_def)
  then show ?thesis using assms(1) stored_stays(2) [OF may assms(3) _ r]
    by (auto simp: Removing r within_reach_def task_safe_def split: if_splits)
next
  case (Clearing u)
  obtain r s1 where r: "remove q s u = (r, s1)" by fastforce
  have "u \<noteq> url" using assms(4) by (simp add: Clearing task_safe_def)
  then show ?thesis using assms(1) stored_stays(2) [OF may assms(3) _ r]
    by (auto simp: Clearing r within_reach_def task_safe_def)
next
  case (Keeping u token)
  obtain r s1 where r: "put q s u (tk_macaroon token) (tk_preimage token) = (r, s1)" by fastforce
  have "r = Ok () \<Longrightarrow> holds s1 u = Some (tk_macaroon token, tk_preimage token)"
    using put_holds [OF may assms(3), of u "tk_macaroon token" "tk_preimage token"] r by simp
  then show ?thesis using assms(1) stored_stays(1) [OF may assms(3) _ r]
    by (auto simp: Keeping r within_reach_def task_safe_def split: if_splits)
next
  case (Demanded u macaroon)
  then show ?thesis using assms(1)
    by (cases outcome) (auto simp: within_reach_def task_safe_def keep_unpersisted_def Let_def)
qed (use assms in \<open>auto simp: within_reach_def task_safe_def drop_unpersisted_def drop_if_saved_def
    split: rres.splits option.splits outcome.splits if_splits\<close>)

lemma undenied_step:
  assumes "undenied_safe st" and "inv (tl_store st)" and "may q"
  shows "undenied_safe (token_step (put q) (get q) (remove q) e st)"
proof (cases e)
  case (Begin u)
  then show ?thesis using assms(1)
    by (auto simp: undenied_safe_def first_lookup_def task_safe_def split: option.splits)
next
  case (Cancel i)
  then show ?thesis using assms(1)
    by (auto simp: undenied_safe_def task_safe_def dest!: set_update_subset_insert [THEN subsetD])
next
  case (Run i outcome)
  show ?thesis
  proof (cases "i < length (tl_tasks st)")
    case True
    obtain t cl s evs where b: "block (put q) (get q) (remove q) outcome (tl_tasks st ! i) (tl_cl st) (tl_store st) = (t, cl, s, evs)"
      by (metis prod_cases4)
    show ?thesis unfolding undenied_safe_def
    proof (intro allI impI)
      fix url
      let ?st = "token_step (put q) (get q) (remove q) e st"
      assume n: "\<not> denied (tl_trace ?st) url"
      then have old: "\<not> denied (tl_trace st) url" and new: "\<forall>token. Denied url token \<notin> set evs"
        by (auto simp: Run True b denied_def)
      have safe: "\<forall>t \<in> set (tl_tasks st). task_safe (tl_store st) url t"
        and reach: "\<And>token. Issued url token \<in> set (tl_trace st) \<Longrightarrow> within_reach (tl_cl st) (tl_store st) url"
        using assms(1) old by (auto simp: undenied_safe_def)
      note bs = block_safe [OF b assms(3,2) _ new]
      have this_safe: "task_safe (tl_store st) url (tl_tasks st ! i)" using safe True by simp
      have "task_safe s url t'" if "t' \<in> set (tl_tasks st)" for t'
        using safe that bs [OF this_safe] by (auto simp: task_safe_def)
      then show "(\<forall>t \<in> set (tl_tasks ?st). task_safe (tl_store ?st) url t)
        \<and> (\<forall>token. Issued url token \<in> set (tl_trace ?st) \<longrightarrow> within_reach (tl_cl ?st) (tl_store ?st) url)"
        using bs [OF this_safe] reach
        by (auto simp: Run True b dest!: set_update_subset_insert [THEN subsetD])
    qed
  qed (use assms Run in simp)
qed

lemma undenied_run:
  "\<forall>(q, e) \<in> set es. may q \<Longrightarrow> inv s0 \<Longrightarrow> undenied_safe (timed_run put get remove es (token_start s0))"
proof (induction es rule: rev_induct)
  case Nil
  show ?case by (simp add: token_start_def undenied_safe_def)
next
  case (snoc qe es)
  obtain q e where qe: "qe = (q, e)" by fastforce
  have "inv (tl_store (timed_run put get remove es (token_start s0)))"
    using confined_run [of es s0] snoc.prems by (simp add: confined_def)
  then show ?case using undenied_step [OF snoc.IH] snoc.prems by (simp add: qe)
qed

lemma paid_credential_available:
  assumes "inv s0" and "st = timed_run put get remove es (token_start s0)" and "\<forall>(q, e) \<in> set es. may q" and "sound q"
    and "Issued url token \<in> set (tl_trace st)" and "\<not> denied (tl_trace st) url"
  shows "\<exists>token'. available (get q) st url = Some token' \<and> known_for s0 (tl_trace st) url token'"
proof -
  have c: "confined s0 st" using confined_run [OF assms(3,1)] assms(2) by simp
  have "within_reach (tl_cl st) (tl_store st) url"
    using undenied_run [OF assms(3,1)] assms(2,5,6) by (auto simp: undenied_safe_def)
  moreover have "get q (tl_store st) url = Ok (holds (tl_store st) url)"
    using get_sound [OF assms(4)] c by (simp add: confined_def)
  ultimately have "\<exists>token'. available (get q) st url = Some token'"
    by (auto simp: within_reach_def available_def split: option.splits)
  then show ?thesis using confined_available [OF sound_may [OF assms(4)] c] by blast
qed

end

section \<open>A late refusal\<close>

text \<open>What a task does that is refused, and one that pays and is answered.\<close>

definition is_refused :: "nat \<Rightarrow> schedule list" where
  "is_refused i = [Run i (PaymentDemanded []), Run i Answered, Run i Answered]"

definition pays_and_is_answered :: "nat \<Rightarrow> string \<Rightarrow> string \<Rightarrow> schedule list" where
  "pays_and_is_answered i macaroon preimage =
     [Run i (PaymentDemanded macaroon), Run i (Settled preimage), Run i Answered, Run i Answered, Run i Answered]"

context timed_store
begin

lemma refused_run:
  assumes "i < length (tl_tasks st)" and "tl_tasks st ! i = Trying url t" and "inv (tl_store st)"
    and "map snd es = is_refused i" and "\<forall>(q, e) \<in> set es. sound q"
    and st': "st' = timed_run put get remove es st"
  shows "tl_tasks st' = (tl_tasks st)[i := Asking url] \<and> inv (tl_store st')
    \<and> cl_unpersisted (tl_cl st') url = None \<and> holds (tl_store st') url = None
    \<and> tl_trace st' = tl_trace st @ [Presented url t, Denied url t]"
proof -
  obtain q1 q2 q3 where es: "es = [(q1, Run i (PaymentDemanded [])), (q2, Run i Answered), (q3, Run i Answered)]"
    using assms(4) by (auto simp: is_refused_def map_eq_Cons_conv)
  have q: "sound q3" "may q3" using assms(5) sound_may by (auto simp: es)
  obtain s where r: "remove q3 (tl_store st) url = (Ok (), s)"
    using remove_sound [OF q(2) assms(3), of url] q(1) by (cases "remove q3 (tl_store st) url") auto
  have "holds s = (holds (tl_store st))(url := None)" "inv s"
    using remove_holds [OF q(2) assms(3), of url] remove_keeps [OF q(2) assms(3), of url] r by simp_all
  then show ?thesis using assms(1,2) r unfolding st' es by (simp add: drop_unpersisted_def)
qed

lemma paid_run:
  assumes "i < length (tl_tasks st)" and "tl_tasks st ! i = Asking url" and "inv (tl_store st)"
    and "map snd es = pays_and_is_answered i m p" and "\<forall>(q, e) \<in> set es. sound q"
    and st': "st' = timed_run put get remove es st"
  shows "tl_tasks st' = (tl_tasks st)[i := Finished] \<and> inv (tl_store st')
    \<and> cl_unpersisted (tl_cl st') url = None \<and> holds (tl_store st') url = Some (m, p)
    \<and> tl_trace st' = tl_trace st @ [Issued url (token_new m p), Presented url (token_new m p)]"
proof -
  obtain q1 q2 q3 q4 q5 where es: "es = [(q1, Run i (PaymentDemanded m)), (q2, Run i (Settled p)), (q3, Run i Answered),
      (q4, Run i Answered), (q5, Run i Answered)]"
    using assms(4) by (auto simp: pays_and_is_answered_def map_eq_Cons_conv)
  have q: "sound q3" "may q3" using assms(5) sound_may by (auto simp: es)
  obtain s where r: "put q3 (tl_store st) url m p = (Ok (), s)"
    using put_sound [OF q(2) assms(3), of url m p] q(1) by (cases "put q3 (tl_store st) url m p") auto
  have "holds s = (holds (tl_store st))(url \<mapsto> (m, p))" "inv s"
    using put_holds [OF q(2) assms(3), of url m p] put_keeps [OF q(2) assms(3), of url m p] r by simp_all
  moreover have "tk_macaroon (token_new m p) = m" "tk_preimage (token_new m p) = p" by (simp_all add: token_new_def)
  ultimately show ?thesis using assms(1,2) r unfolding st' es
    by (simp add: Let_def drop_if_saved_def keep_unpersisted_def drop_unpersisted_def)
qed

lemma refusal_discards:
  assumes "i < length (tl_tasks st)" and "j < length (tl_tasks st)" and "i \<noteq> j"
    and "tl_tasks st ! i = Trying url t" and "tl_tasks st ! j = Trying url t'" and i: "inv (tl_store st)"
    and es: "map snd es1 = is_refused i" "map snd es2 = pays_and_is_answered i m p" "map snd es3 = is_refused j"
    and ok: "\<forall>(q, e) \<in> set (es1 @ es2 @ es3). sound q"
    and "sound q"
  shows "available (get q) (timed_run put get remove (es1 @ es2) st) url = Some (token_new m p)"
    and "available (get q) (timed_run put get remove (es1 @ es2 @ es3) st) url = None"
    and "tl_trace (timed_run put get remove (es1 @ es2 @ es3) st) = tl_trace st
      @ [Presented url t, Denied url t, Issued url (token_new m p), Presented url (token_new m p),
         Presented url t', Denied url t']"
proof -
  define s1 where "s1 = timed_run put get remove es1 st"
  define s2 where "s2 = timed_run put get remove es2 s1"
  define s3 where "s3 = timed_run put get remove es3 s2"
  have run: "timed_run put get remove (es1 @ es2) st = s2" "timed_run put get remove (es1 @ es2 @ es3) st = s3"
    by (simp_all add: s1_def s2_def s3_def)
  have q: "\<forall>(q, e) \<in> set es1. sound q" "\<forall>(q, e) \<in> set es2. sound q" "\<forall>(q, e) \<in> set es3. sound q" using ok by auto
  note r1 = refused_run [OF assms(1,4) i es(1) q(1) s1_def]
  have t1: "i < length (tl_tasks s1)" "tl_tasks s1 ! i = Asking url" using r1 assms(1) by simp_all
  note r2 = paid_run [OF t1 conjunct1 [OF conjunct2 [OF r1]] es(2) q(2) s2_def]
  have t2: "j < length (tl_tasks s2)" "tl_tasks s2 ! j = Trying url t'" using r1 r2 assms(2,3,5) by simp_all
  note r3 = refused_run [OF t2 conjunct1 [OF conjunct2 [OF r2]] es(3) q(3) s3_def]
  show "available (get q) (timed_run put get remove (es1 @ es2) st) url = Some (token_new m p)"
    using r2 get_sound [OF \<open>sound q\<close>, of "tl_store s2" url] unfolding run by (simp add: available_def)
  show "available (get q) (timed_run put get remove (es1 @ es2 @ es3) st) url = None"
    using r3 get_sound [OF \<open>sound q\<close>, of "tl_store s3" url] unfolding run by (simp add: available_def)
  show "tl_trace (timed_run put get remove (es1 @ es2 @ es3) st) = tl_trace st
      @ [Presented url t, Denied url t, Issued url (token_new m p), Presented url (token_new m p),
         Presented url t', Denied url t']"
    using r1 r2 r3 unfolding run by simp
qed

end

section \<open>Properties\<close>

text \<open>C16. Credentials stay where they were issued: under any interleaving of concurrent requests, with
  futures dropped anywhere, a request presents a credential to a URL only if it was paid for in
  answer to a challenge of that URL on this client, or was in the store for that URL before; the
  same holds of what a new request would present.\<close>

theorem credentials_confined:
  assumes "cache_inv s0" and "st = token_run cache_put cache_get cache_remove es (token_start s0)"
    and "Presented url token \<in> set (tl_trace st) \<or> available cache_get st url = Some token"
  shows "Issued url token \<in> set (tl_trace st)
    \<or> cache_get s0 url = Ok (Some (tk_macaroon token, tk_preimage token))"
proof -
  have c: "mem.one.confined s0 st"
    using mem.one.confined_run [OF _ assms(1), of "map (Pair ()) es"] assms(2) by (simp add: token_run_timed)
  have "mem.one.known_for s0 (tl_trace st) url token"
    using assms(3) mem.one.confined_available [OF TrueI c] c unfolding mem.one.confined_def by blast
  then show ?thesis by (simp add: mem.one.known_for_def answer_of_Some)
qed

theorem credentials_confined_witness:
  "\<exists>st. st = token_run cache_put cache_get cache_remove
        ([Begin ''u'', Run 0 Answered] @ pays_and_is_answered 0 ''m'' ''p'') (token_start cache_default)
    \<and> available cache_get st ''u'' = Some (token_new ''m'' ''p'')
    \<and> Issued ''u'' (token_new ''m'' ''p'') \<in> set (tl_trace st)"
proof -
  let ?es = "[Begin ''u'', Run 0 Answered] @ pays_and_is_answered 0 ''m'' ''p''"
  let ?st = "token_run cache_put cache_get cache_remove ?es (token_start cache_default)"
  have i: "cache_inv cache_default" by (simp add: cache_default_def cache_new_inv)
  have g: "cache_get cache_default ''u'' = Ok None"
    by (simp add: cache_default_def cache_new_def cache_get_def)
  obtain s1 where put: "cache_put cache_default ''u'' ''m'' ''p'' = (Ok (), s1)" by (simp add: cache_put_def Let_def)
  have g1: "cache_get s1 ''u'' = Ok (Some (''m'', ''p''))"
    using cache_get_put_same [of cache_default "''u''" "''m''" "''p''"] put by simp
  have tok: "tk_macaroon (token_new ''m'' ''p'') = ''m''" "tk_preimage (token_new ''m'' ''p'') = ''p''"
    by (simp_all add: token_new_def)
  have "available cache_get ?st ''u'' = Some (token_new ''m'' ''p'')"
    by (simp add: token_run_def pays_and_is_answered_def token_start_def first_lookup_def client_start_def g Let_def
        keep_unpersisted_def tok put g1 drop_if_saved_def drop_unpersisted_def available_def)
  then show ?thesis using credentials_confined [OF i refl disjI2, of ?es "''u''" "token_new ''m'' ''p''"] g by auto
qed

text \<open>C15. A credential that was paid for is not lost: over a SQLite store without a time to live, whatever
  requests run concurrently, wherever their futures are dropped, at whatever times (past the epoch)
  the store is called and whichever of its calls the engine fails, a URL for which a credential was
  issued has one, issued or stored for that URL, that the next request whose lookup the engine does
  not fail presents, at least until the server refuses a credential of that URL.\<close>

theorem paid_credential_not_lost:
  assumes "plain_ok s0" and "st = timed_run sq_put sq_get sq_remove es (token_start s0)"
    and "\<forall>(q, e) \<in> set es. q_clock q \<noteq> None" and "q_clock q' = Some t" and "q_fault q' = None"
    and "Issued url token \<in> set (tl_trace st)" and "\<not> denied (tl_trace st) url"
  shows "\<exists>token'. available (sq_get q') st url = Some token'
    \<and> (Issued url token' \<in> set (tl_trace st)
       \<or> sq_get q' s0 url = Ok (Some (tk_macaroon token', tk_preimage token')))"
proof -
  have clocks: "\<forall>(q, e) \<in> set es. clock_set q" using assms(3) by (simp add: clock_set_def)
  have sound: "sound_sq q'" using assms(4,5) by (simp add: sound_sq_def clock_set_def)
  show ?thesis
    using sq.paid_credential_available [OF assms(1,2) clocks sound assms(6,7)] sq.get_sound [OF sound assms(1)]
    by (simp add: sq.known_for_def)
qed

text \<open>An instance: the engine fails the put, so that only the unpersisted copy is left, and a year passes.\<close>

definition sample_late_put :: "(sq_call \<times> schedule) list" where
  "sample_late_put = map (Pair (sound_call 100)) [Begin ''u'', Run 0 Answered, Run 0 (PaymentDemanded ''m''), Run 0 (Settled ''p'')]
     @ [(\<lparr>q_clock = Some 31536100, q_fault = Some ''disk full'', q_join = []\<rparr>, Run 0 Answered)]"

theorem paid_credential_not_lost_witness:
  "\<exists>token. available (sq_get (sound_call 31536200))
      (timed_run sq_put sq_get sq_remove sample_late_put (token_start fresh_sqlite)) ''u'' = Some token"
proof -
  let ?st = "timed_run sq_put sq_get sq_remove sample_late_put (token_start fresh_sqlite)"
  have q: "sound_sq (sound_call t)" for t by (simp add: sound_sq_def clock_set_def sound_call_def)
  have g: "sq_get (sound_call t) fresh_sqlite ''u'' = Ok None" for t
    using sq.get_sound [OF q fresh_plain] by (simp add: fresh_holds)
  have clocks: "\<forall>(q, e) \<in> set sample_late_put. q_clock q \<noteq> None" by (simp add: sample_late_put_def sound_call_def)
  have "tl_trace ?st = [Issued ''u'' (token_new ''m'' ''p'')]"
    by (simp add: sample_late_put_def token_start_def first_lookup_def client_start_def g Let_def split: prod.split)
  then show ?thesis
    using paid_credential_not_lost [OF fresh_plain refl clocks, of "sound_call 31536200" 31536200 "''u''" "token_new ''m'' ''p''"]
    by (auto simp: denied_def sound_call_def)
qed




end
