(* ===== verification/Client_Runs.thy ===== *)
theory Client_Runs
  imports Client_Life Client_Tokens
begin

text \<open>
  The two interleaved models are models of the code: a request of \<open>Client.thy\<close> that runs on its own is
  a run of the blocks of one task of \<open>Client_Tokens.thy\<close>, and its payment is a run of the steps of one
  task of \<open>Client_Concurrent.thy\<close>. What those theories prove of every interleaving therefore holds of the
  sequential code. As with a big-step and a small-step semantics, each action is simulated on its
  own, and simulations compose.
\<close>

section \<open>Blocks of one task\<close>

text \<open>Each block runs under the conditions \<open>q\<close> that the store meets then.\<close>

fun walk ::
  "('q \<Rightarrow> 's \<Rightarrow> string \<Rightarrow> string \<Rightarrow> string \<Rightarrow> (unit, client_error) rres \<times> 's)
   \<Rightarrow> ('q \<Rightarrow> 's \<Rightarrow> string \<Rightarrow> ((string \<times> string) option, client_error) rres)
   \<Rightarrow> ('q \<Rightarrow> 's \<Rightarrow> string \<Rightarrow> (unit, client_error) rres \<times> 's)
   \<Rightarrow> ('q \<times> outcome) list \<Rightarrow> task \<Rightarrow> client_state \<Rightarrow> 's \<Rightarrow> task \<times> client_state \<times> 's \<times> credential_event list" where
  "walk put get remove [] t cl s = (t, cl, s, [])"
| "walk put get remove ((q, oc) # ocs) t cl s =
     (case block (put q) (get q) (remove q) oc t cl s of (t1, cl1, s1, evs1) \<Rightarrow>
        case walk put get remove ocs t1 cl1 s1 of (t2, cl2, s2, evs2) \<Rightarrow> (t2, cl2, s2, evs1 @ evs2))"

lemma walk_append:
  "walk put get remove ocs t cl s = (t1, cl1, s1, evs1) \<Longrightarrow>
   walk put get remove ocs' t1 cl1 s1 = (t2, cl2, s2, evs2) \<Longrightarrow>
   walk put get remove (ocs @ ocs') t cl s = (t2, cl2, s2, evs1 @ evs2)"
  by (induction ocs arbitrary: t cl s evs1) (auto split: prod.splits)

text \<open>The steps of task \<open>i\<close>.\<close>

definition runs_of :: "nat \<Rightarrow> ('q \<times> outcome) list \<Rightarrow> ('q \<times> schedule) list" where
  "runs_of i ocs = map (\<lambda>(q, oc). (q, Run i oc)) ocs"

lemma walk_is_run:
  assumes "i < length (tl_tasks st)"
    and "walk put get remove ocs (tl_tasks st ! i) (tl_cl st) (tl_store st) = (t, cl, s, evs)"
  shows "timed_run put get remove (runs_of i ocs) st
    = \<lparr>tl_cl = cl, tl_store = s, tl_tasks = (tl_tasks st)[i := t], tl_trace = tl_trace st @ evs\<rparr>"
  using assms
proof (induction ocs arbitrary: st evs)
  case Nil
  then show ?case by (cases st) (auto simp: runs_of_def)
next
  case (Cons qoc ocs)
  obtain q oc where qoc: "qoc = (q, oc)" by fastforce
  obtain t1 cl1 s1 evs1 where b: "block (put q) (get q) (remove q) oc (tl_tasks st ! i) (tl_cl st) (tl_store st) = (t1, cl1, s1, evs1)"
    by (metis prod_cases4)
  obtain evs2 where w: "walk put get remove ocs t1 cl1 s1 = (t, cl, s, evs2)" "evs = evs1 @ evs2"
    using Cons.prems(2) b by (auto simp: qoc split: prod.splits)
  let ?st = "\<lparr>tl_cl = cl1, tl_store = s1, tl_tasks = (tl_tasks st)[i := t1], tl_trace = tl_trace st @ evs1\<rparr>"
  have "timed_run put get remove (runs_of i ocs) ?st
    = \<lparr>tl_cl = cl, tl_store = s, tl_tasks = (tl_tasks st)[i := t], tl_trace = tl_trace st @ evs\<rparr>"
    using Cons.IH [of ?st evs2] Cons.prems(1) w by simp
  then show ?case using Cons.prems(1) b by (simp add: runs_of_def qoc)
qed

section \<open>Simulation of a request\<close>

text \<open>A payment the map of payments knows.\<close>

definition known_payment_of :: "client_state \<Rightarrow> payment_result \<Rightarrow> bool" where
  "known_payment_of cl p \<longleftrightarrow> (\<exists>key i. cl_payments cl key = Some (Some (p, i)))"

text \<open>Every credential in a header of the log is one that the events show as presented to its URL.\<close>

definition shown :: "'w env \<Rightarrow> port_call list \<Rightarrow> credential_event list \<Rightarrow> bool" where
  "shown E calls evs \<longleftrightarrow> (\<forall>rq res h. HttpSent rq res \<in> set calls \<longrightarrow> rq_authorization rq = Some h \<longrightarrow>
     (\<exists>token. Presented (rq_url rq) token \<in> set evs \<and> e_header_value E (to_header_value token) = Inr h))"

text \<open>Every credential that is issued proves a payment that the backend has settled.\<close>

definition earned :: "client_state \<Rightarrow> port_call list \<Rightarrow> credential_event list \<Rightarrow> bool" where
  "earned cl calls evs \<longleftrightarrow> (\<forall>url token. Issued url token \<in> set evs \<longrightarrow>
     (\<exists>p. pr_preimage p = tk_preimage token \<and> (known_payment_of cl p \<or> PaySettled p \<in> set calls)))"

definition calls_made :: "'w env \<Rightarrow> credential_event list \<Rightarrow> 'w sys \<Rightarrow> 'w sys \<Rightarrow> bool" where
  "calls_made E evs a b \<longleftrightarrow> (\<exists>calls. sy_log b = sy_log a @ calls \<and> shown E calls evs \<and> earned (sy_cl a) calls evs
     \<and> (\<forall>p. known_payment_of (sy_cl b) p \<longrightarrow> known_payment_of (sy_cl a) p \<or> PaySettled p \<in> set calls))"

lemma shown_append: "shown E c1 e1 \<Longrightarrow> shown E c2 e2 \<Longrightarrow> shown E (c1 @ c2) (e1 @ e2)"
  unfolding shown_def by (metis UnCI UnE set_append)

lemma earned_append:
  assumes "earned cl c1 e1" and "earned cl' c2 e2"
    and "\<And>p. known_payment_of cl' p \<Longrightarrow> known_payment_of cl p \<or> PaySettled p \<in> set c1"
  shows "earned cl (c1 @ c2) (e1 @ e2)"
  using assms unfolding earned_def by (metis UnCI UnE set_append)

lemma calls_trans:
  assumes "calls_made E e1 a b" and "calls_made E e2 b c"
  shows "calls_made E (e1 @ e2) a c"
proof -
  obtain c1 c2 where l: "sy_log b = sy_log a @ c1" "sy_log c = sy_log b @ c2" "shown E c1 e1" "shown E c2 e2"
    "earned (sy_cl a) c1 e1" "earned (sy_cl b) c2 e2"
    and k: "\<And>p. known_payment_of (sy_cl b) p \<Longrightarrow> known_payment_of (sy_cl a) p \<or> PaySettled p \<in> set c1"
      "\<And>p. known_payment_of (sy_cl c) p \<Longrightarrow> known_payment_of (sy_cl b) p \<or> PaySettled p \<in> set c2"
    using assms unfolding calls_made_def by blast
  have "known_payment_of (sy_cl a) p \<or> PaySettled p \<in> set (c1 @ c2)" if "known_payment_of (sy_cl c) p" for p
    using k that by auto
  then show ?thesis unfolding calls_made_def
    using l(1,2) shown_append [OF l(3,4)] earned_append [OF l(5,6) k(1)]
    by (intro exI [of _ "c1 @ c2"]) simp
qed

text \<open>The code goes from \<open>a\<close> to \<open>b\<close> while the task goes from \<open>t\<close> to \<open>t'\<close>; of the client only the
  unpersisted tokens are compared, which is all that a block reads.\<close>

definition simulated ::
  "('q \<Rightarrow> 's \<Rightarrow> string \<Rightarrow> string \<Rightarrow> string \<Rightarrow> (unit, client_error) rres \<times> 's)
   \<Rightarrow> ('q \<Rightarrow> 's \<Rightarrow> string \<Rightarrow> ((string \<times> string) option, client_error) rres)
   \<Rightarrow> ('q \<Rightarrow> 's \<Rightarrow> string \<Rightarrow> (unit, client_error) rres \<times> 's)
   \<Rightarrow> ('w \<Rightarrow> 'q) \<Rightarrow> ('w \<Rightarrow> 'w) \<Rightarrow> 'w env
   \<Rightarrow> task \<Rightarrow> ('w \<times> 's) sys \<Rightarrow> credential_event list \<Rightarrow> task \<Rightarrow> ('w \<times> 's) sys \<Rightarrow> bool" where
  "simulated put get remove cond tick E t a evs t' b \<longleftrightarrow>
     calls_made (over_store put get remove cond tick E) evs a b
   \<and> (\<forall>cl. cl_unpersisted cl = cl_unpersisted (sy_cl a) \<longrightarrow>
        (\<exists>ocs cl'. walk put get remove ocs t cl (snd (sy_ext a)) = (t', cl', snd (sy_ext b), evs)
           \<and> fst ` set ocs \<subseteq> range cond \<and> cl_unpersisted cl' = cl_unpersisted (sy_cl b)))"

lemma sim_trans:
  assumes "simulated put get remove cond tick E t a e1 t1 b" and "simulated put get remove cond tick E t1 b e2 t2 c"
  shows "simulated put get remove cond tick E t a (e1 @ e2) t2 c"
  unfolding simulated_def
proof (intro conjI allI impI)
  fix cl :: client_state
  assume "cl_unpersisted cl = cl_unpersisted (sy_cl a)"
  then obtain ocs cl1 where w1: "walk put get remove ocs t cl (snd (sy_ext a)) = (t1, cl1, snd (sy_ext b), e1)"
    "fst ` set ocs \<subseteq> range cond" "cl_unpersisted cl1 = cl_unpersisted (sy_cl b)"
    using assms(1) unfolding simulated_def by blast
  obtain ocs' cl2 where w2: "walk put get remove ocs' t1 cl1 (snd (sy_ext b)) = (t2, cl2, snd (sy_ext c), e2)"
    "fst ` set ocs' \<subseteq> range cond" "cl_unpersisted cl2 = cl_unpersisted (sy_cl c)"
    using assms(2) w1(3) unfolding simulated_def by blast
  show "\<exists>ocs cl'. walk put get remove ocs t cl (snd (sy_ext a)) = (t2, cl', snd (sy_ext c), e1 @ e2)
      \<and> fst ` set ocs \<subseteq> range cond \<and> cl_unpersisted cl' = cl_unpersisted (sy_cl c)"
    using walk_append [OF w1(1) w2(1)] w1(2) w2(2,3) by (intro exI [of _ "ocs @ ocs'"] exI [of _ cl2]) auto
qed (use assms calls_trans in \<open>auto simp: simulated_def\<close>)

lemma sim_block:
  assumes "calls_made (over_store put get remove cond tick E) evs a b"
    and "\<And>cl q. q = cond (fst (sy_ext a)) \<Longrightarrow> cl_unpersisted cl = cl_unpersisted (sy_cl a) \<Longrightarrow>
      \<exists>cl'. block (put q) (get q) (remove q) oc t cl (snd (sy_ext a)) = (t', cl', snd (sy_ext b), evs)
        \<and> cl_unpersisted cl' = cl_unpersisted (sy_cl b)"
  shows "simulated put get remove cond tick E t a evs t' b"
  unfolding simulated_def
proof (intro conjI allI impI)
  fix cl :: client_state
  let ?q = "cond (fst (sy_ext a))"
  assume "cl_unpersisted cl = cl_unpersisted (sy_cl a)"
  from assms(2) [OF refl this] obtain cl' where
    "block (put ?q) (get ?q) (remove ?q) oc t cl (snd (sy_ext a)) = (t', cl', snd (sy_ext b), evs)"
    "cl_unpersisted cl' = cl_unpersisted (sy_cl b)" by blast
  then show "\<exists>ocs cl'. walk put get remove ocs t cl (snd (sy_ext a)) = (t', cl', snd (sy_ext b), evs)
      \<and> fst ` set ocs \<subseteq> range cond \<and> cl_unpersisted cl' = cl_unpersisted (sy_cl b)"
    by (intro exI [of _ "[(?q, oc)]"] exI [of _ cl']) auto
qed (rule assms(1))

section \<open>Each action\<close>

definition refused :: "(http_response, client_error) rres \<Rightarrow> bool" where
  "refused r \<longleftrightarrow> (case r of Ok response \<Rightarrow> rs_status response = PAYMENT_REQUIRED | _ \<Rightarrow> False)"

definition sent_events :: "string \<Rightarrow> l402_token \<Rightarrow> (http_response, client_error) rres \<Rightarrow> credential_event list" where
  "sent_events url token r = Presented url token # (if refused r then [Denied url token] else [])"

text \<open>An action that issues nothing and leaves the payments alone.\<close>

lemma calls_plain:
  assumes "sy_log b = sy_log a @ calls" and "shown E calls evs" and "\<forall>url token. Issued url token \<notin> set evs"
    and "cl_payments (sy_cl b) = cl_payments (sy_cl a)"
  shows "calls_made E evs a b"
  unfolding calls_made_def
  by (intro exI [of _ calls]) (use assms in \<open>auto simp: earned_def known_payment_of_def\<close>)

lemma sim_still:
  assumes "calls_made (over_store put get remove cond tick E) [] a b"
    and "cl_unpersisted (sy_cl b) = cl_unpersisted (sy_cl a)" and "snd (sy_ext b) = snd (sy_ext a)"
  shows "simulated put get remove cond tick E t a [] t b"
  unfolding simulated_def using assms by (auto intro!: exI [of _ "[]"])

lemma send_checked_view:
  assumes "send_checked (over_store put get remove cond tick E) rq a = (r, b)"
  shows "sy_cl b = sy_cl a \<and> snd (sy_ext b) = snd (sy_ext a) \<and> (\<exists>res. sy_log b = sy_log a @ [HttpSent rq res])
    \<and> r \<noteq> Panic"
  using assms by (auto simp: send_checked_def over_store_def log_call_def Let_def
      split: prod.splits sum.splits if_splits)

lemma send_auth_view:
  assumes "send_with_auth (over_store put get remove cond tick E) meth url body token a = (r, b)"
  shows "sy_cl b = sy_cl a \<and> snd (sy_ext b) = snd (sy_ext a) \<and> r \<noteq> Panic
    \<and> calls_made (over_store put get remove cond tick E) (sent_events url token r) a b"
proof (cases "e_header_value E (to_header_value token)")
  case (Inl e)
  then have "b = a" "r \<noteq> Panic" using assms by (auto simp: send_with_auth_def over_store_def)
  then show ?thesis by (auto simp: shown_def sent_events_def intro!: calls_plain [of _ _ "[]"])
next
  case (Inr h)
  let ?rq = "\<lparr>rq_method = meth, rq_url = url, rq_body = body, rq_authorization = Some h\<rparr>"
  have hv: "e_header_value (over_store put get remove cond tick E) (to_header_value token) = Inr h"
    using Inr by (simp add: over_store_def)
  then have "send_checked (over_store put get remove cond tick E) ?rq a = (r, b)"
    using assms by (simp add: send_with_auth_def)
  from send_checked_view [OF this] obtain res where v: "sy_cl b = sy_cl a" "snd (sy_ext b) = snd (sy_ext a)"
    "sy_log b = sy_log a @ [HttpSent ?rq res]" "r \<noteq> Panic" by blast
  then show ?thesis using hv
    by (auto simp: shown_def sent_events_def intro!: calls_plain [of _ _ "[HttpSent ?rq res]"])
qed

text \<open>What the server answered, as a block sees it.\<close>

definition outcome_of :: "string \<Rightarrow> (http_response, client_error) rres \<Rightarrow> outcome" where
  "outcome_of macaroon r = (if refused r then PaymentDemanded macaroon else Answered)"

lemma sim_send_auth:
  assumes "send_with_auth (over_store put get remove cond tick E) meth url body token a = (r, b)"
  shows "simulated put get remove cond tick E (Trying url token) a (sent_events url token r)
      (if refused r then Tried url else Finished) b"
    and "simulated put get remove cond tick E (Retrying url token) a (sent_events url token r)
      (if refused r then Retried url else Finished) b"
  using send_auth_view [OF assms]
  by (auto intro!: sim_block [where oc = "outcome_of [] r"] simp: outcome_of_def sent_events_def)

lemma sim_send:
  assumes "send_request (over_store put get remove cond tick E) meth url body a = (r, b)"
  shows "simulated put get remove cond tick E (Asking url) a [] (if refused r then Demanded url macaroon else Finished) b"
proof -
  let ?rq = "\<lparr>rq_method = meth, rq_url = url, rq_body = body, rq_authorization = None\<rparr>"
  obtain res where "sy_cl b = sy_cl a" "snd (sy_ext b) = snd (sy_ext a)" "sy_log b = sy_log a @ [HttpSent ?rq res]"
    using send_checked_view assms unfolding send_request_def by blast
  then show ?thesis
    by (auto intro!: sim_block [where oc = "outcome_of macaroon r"] calls_plain [of _ _ "[HttpSent ?rq res]"]
        simp: outcome_of_def shown_def)
qed

lemma sim_remove:
  assumes "store_remove (over_store put get remove cond tick E) url a = (r, b)"
  shows "simulated put get remove cond tick E (Removing url) a [] (if r = Ok () then Asking url else Finished) b"
    and "simulated put get remove cond tick E (Clearing url) a [] Finished b"
  using assms
  by (auto intro!: sim_block [where oc = Answered] calls_plain [of _ _ "[StoreRemoved url]"]
      simp: store_remove_def over_store_def log_call_def shown_def split: prod.splits)

lemma sim_drop:
  assumes "on_cl (drop_unpersisted url) a = (r, b)"
  shows "simulated put get remove cond tick E (Tried url) a [] (Removing url) b"
    and "simulated put get remove cond tick E (Retried url) a [] (Clearing url) b"
  using assms
  by (auto intro!: sim_block [where oc = Answered] calls_plain [of _ _ "[]"]
      simp: on_cl_eq drop_unpersisted_def shown_def)

lemma sim_put:
  assumes "store_put (over_store put get remove cond tick E) url token a = (r, b)"
  shows "simulated put get remove cond tick E (Keeping url token) a [] (if r = Ok () then Kept url token else Finished) b"
  using assms
  by (auto intro!: sim_block [where oc = Answered] calls_plain [of _ _ "[StorePut url token]"]
      simp: store_put_def over_store_def log_call_def shown_def split: prod.splits)

lemma sim_saved:
  assumes "on_cl (drop_if_saved url token) a = (r, b)"
  shows "simulated put get remove cond tick E (Kept url token) a [] (Retrying url token) b"
  using assms
  by (auto intro!: sim_block [where oc = Answered] calls_plain [of _ _ "[]"]
      simp: on_cl_eq drop_if_saved_def drop_unpersisted_def shown_def split: option.splits)

lemma sim_find:
  assumes "find_token (over_store put get remove cond tick E) url a = (r, b)"
  shows "simulated put get remove cond tick E (first_lookup (sy_cl a) url) a []
      (case r of Ok (Some token) \<Rightarrow> Trying url token | Ok None \<Rightarrow> Asking url | _ \<Rightarrow> Finished) b"
proof (cases "cl_unpersisted (sy_cl a) url")
  case (Some token)
  then have "b = a" "r = Ok (Some token)" using assms by (auto simp: find_token_def)
  then show ?thesis using Some
    by (auto simp: first_lookup_def shown_def intro!: sim_still calls_plain [of _ _ "[]"])
next
  case None
  obtain w db where w: "sy_ext a = (w, db)" by (cases "sy_ext a")
  have b: "b = a\<lparr>sy_ext := (tick w, db)\<rparr>" and r: "r = (case get (cond w) db url of
      Ok c \<Rightarrow> Ok (case c of None \<Rightarrow> None | Some (m, p) \<Rightarrow> Some (token_new m p)) | Err e \<Rightarrow> Err e | Panic \<Rightarrow> Panic)"
    using assms None
    by (auto simp: find_token_def store_get_def over_store_def bind_act_def w split: prod.splits rres.splits)
  show ?thesis unfolding b
    by (rule sim_block [where oc = Answered])
      (auto simp: r w first_lookup_def None shown_def intro!: calls_plain [of _ _ "[]"]
        split: rres.splits option.splits)
qed

section \<open>The payment, as the token layer sees it\<close>

text \<open>A stretch that keeps tokens and store, sends no request, and knows a payment afterwards only if
  it was known or settled in it.\<close>

definition pays_only :: "('w \<times> 's) sys \<Rightarrow> ('w \<times> 's) sys \<Rightarrow> port_call list \<Rightarrow> bool" where
  "pays_only a b calls \<longleftrightarrow> cl_unpersisted (sy_cl b) = cl_unpersisted (sy_cl a) \<and> snd (sy_ext b) = snd (sy_ext a)
     \<and> sy_log b = sy_log a @ calls \<and> (\<forall>rq res. HttpSent rq res \<notin> set calls)
     \<and> (\<forall>q. known_payment_of (sy_cl b) q \<longrightarrow> known_payment_of (sy_cl a) q \<or> PaySettled q \<in> set calls)"

lemma after_payment_view:
  assumes "after_payment E key amount url start rv p a = (r, b)"
  shows "cl_unpersisted (sy_cl b) = cl_unpersisted (sy_cl a) \<and> sy_ext b = sy_ext a \<and> sy_log b = sy_log a
    \<and> (\<forall>q. known_payment_of (sy_cl b) q \<longrightarrow> known_payment_of (sy_cl a) q \<or> q = p)
    \<and> (\<forall>x. r = Ok x \<longrightarrow> fst x = p)"
  using assms
  by (auto simp: after_payment_def Let_def on_cl_eq push_receipt_def settle_payment_def commit_payment_def
      known_payment_of_def elim!: bind_actE split: prod.splits rres.splits if_splits) blast+

lemma call_pay_view:
  assumes "call_pay (over_store put get remove cond tick E) invoice fee a = (r, b)"
  shows "sy_cl b = sy_cl a \<and> snd (sy_ext b) = snd (sy_ext a)
    \<and> sy_log b = sy_log a @ PaySent invoice fee # (case r of Ok p \<Rightarrow> [PaySettled p] | _ \<Rightarrow> [])"
  using assms by (auto simp: call_pay_def over_store_def log_call_def Let_def split: prod.splits rres.splits)

lemma pay_new_view:
  assumes "pay_new (over_store put get remove cond tick E) invoice key amount url start rv a = (r, b)"
  shows "\<exists>calls. pays_only a b calls \<and> (\<forall>x. r = Ok x \<longrightarrow> PaySettled (fst x) \<in> set calls)"
proof -
  obtain pr s1 where c: "call_pay (over_store put get remove cond tick E) invoice (rv_max_fee_sats rv) a = (pr, s1)" by fastforce
  note v = call_pay_view [OF c]
  show ?thesis
  proof (cases pr)
    case (Ok p)
    then have "after_payment (over_store put get remove cond tick E) key amount url start rv p s1 = (r, b)"
      using assms c by (simp add: pay_new_def)
    from after_payment_view [OF this] v show ?thesis
      by (intro exI [of _ "[PaySent invoice (rv_max_fee_sats rv), PaySettled p]"]) (auto simp: Ok pays_only_def)
  next
    case (Err e)
    have "known_payment_of (sy_cl b) q \<longrightarrow> known_payment_of (sy_cl a) q" for q
      using assms v unfolding known_payment_of_def
      by (auto simp: Err pay_new_def c on_cl_eq release_claim_def forget_claim_def bind_act_def split: if_splits) blast
    then show ?thesis using assms v
      by (intro exI [of _ "[PaySent invoice (rv_max_fee_sats rv)]"])
        (auto simp: Err pay_new_def c pays_only_def on_cl_eq release_claim_def forget_claim_def bind_act_def
          split: if_splits)
  next
    case Panic
    then show ?thesis using assms v
      by (intro exI [of _ "[PaySent invoice (rv_max_fee_sats rv)]"]) (auto simp: pay_new_def c pays_only_def)
  qed
qed

lemma claim_view:
  assumes "claim limits cfg supports key amount domain now cl = (r, cl')"
  shows "cl_unpersisted cl' = cl_unpersisted cl \<and> (\<forall>q. known_payment_of cl' q \<longrightarrow> known_payment_of cl q)
    \<and> (\<forall>p i. r = Ok (Inl (p, i)) \<longrightarrow> known_payment_of cl p)"
  using assms by (fastforce simp: claim_def known_payment_of_def split: option.splits if_splits prod.splits rres.splits)

lemma pay_challenge_view:
  assumes "pay_challenge (over_store put get remove cond tick E) limits cfg invoice amount domain url start a = (r, b)"
  shows "\<exists>calls. pays_only a b calls
    \<and> (\<forall>p i n. r = Ok (p, i, n) \<longrightarrow> known_payment_of (sy_cl a) p \<or> PaySettled p \<in> set calls)"
proof -
  let ?W = "over_store put get remove cond tick E" and ?key = "to_ascii_lowercase invoice"
  obtain c cl where c: "claim limits cfg (e_supports_fee_limit ?W (sy_ext a)) ?key amount domain
      (now_secs ?W (sy_ext a)) (sy_cl a) = (c, cl)" by fastforce
  note v = claim_view [OF c]
  show ?thesis
  proof (cases "\<exists>rv. c = Ok (Inr rv)")
    case True
    then obtain rv where rv: "c = Ok (Inr rv)" by blast
    obtain pr s1 where n: "pay_new ?W invoice ?key amount url start rv (a\<lparr>sy_cl := cl\<rparr>) = (pr, s1)" by fastforce
    obtain calls where calls: "pays_only (a\<lparr>sy_cl := cl\<rparr>) s1 calls"
      "\<forall>x. pr = Ok x \<longrightarrow> PaySettled (fst x) \<in> set calls" using pay_new_view [OF n] by blast
    have "b = s1" "\<forall>p i n. r = Ok (p, i, n) \<longrightarrow> PaySettled p \<in> set calls"
      using assms calls(2)
      by (auto simp: pay_challenge_def Let_def on_cl_eq c rv n bind_act_def split: rres.splits prod.splits)
    then show ?thesis using calls(1) v by (intro exI [of _ calls]) (auto simp: pays_only_def)
  next
    case False
    then have "b = a\<lparr>sy_cl := cl\<rparr>" "\<forall>p i n. r = Ok (p, i, n) \<longrightarrow> known_payment_of (sy_cl a) p"
      using assms v
      by (auto simp: pay_challenge_def Let_def on_cl_eq c bind_act_def split: rres.splits sum.splits)
    then show ?thesis using v by (intro exI [of _ "[]"]) (auto simp: pays_only_def)
  qed
qed

lemma sim_pay_fails:
  assumes "pay_challenge (over_store put get remove cond tick E) limits cfg invoice amount domain url' start a = (r, b)"
  shows "simulated put get remove cond tick E (Demanded url m) a [] Finished b"
proof -
  obtain calls where p: "pays_only a b calls" using pay_challenge_view [OF assms] by blast
  then have "calls_made (over_store put get remove cond tick E) [] a b"
    unfolding calls_made_def by (auto simp: pays_only_def shown_def earned_def)
  then show ?thesis using p by (auto intro!: sim_block [where oc = Failure] simp: pays_only_def)
qed

lemma sim_pay:
  assumes "pay_challenge (over_store put get remove cond tick E) limits cfg invoice amount domain url' start a = (Ok (p, i, n), b)"
    and "on_cl (keep_unpersisted url (token_new m (pr_preimage p))) b = (r, c)"
  shows "simulated put get remove cond tick E (Demanded url m) a [Issued url (token_new m (pr_preimage p))]
    (Keeping url (token_new m (pr_preimage p))) c"
proof -
  obtain calls where v: "pays_only a b calls" "known_payment_of (sy_cl a) p \<or> PaySettled p \<in> set calls"
    using pay_challenge_view [OF assms(1)] by blast
  have c: "sy_cl c = (sy_cl b)\<lparr>cl_unpersisted := (cl_unpersisted (sy_cl b))(url \<mapsto> token_new m (pr_preimage p))\<rparr>"
    "sy_ext c = sy_ext b" "sy_log c = sy_log b"
    using assms(2) by (auto simp: on_cl_eq keep_unpersisted_def)
  have "calls_made (over_store put get remove cond tick E) [Issued url (token_new m (pr_preimage p))] a c"
    unfolding calls_made_def
    by (intro exI [of _ calls]) (use v c in \<open>auto simp: pays_only_def shown_def earned_def known_payment_of_def token_new_def\<close>)
  then show ?thesis using v(1) c
    by (auto intro!: sim_block [where oc = "Settled (pr_preimage p)"] simp: pays_only_def keep_unpersisted_def Let_def)
qed

section \<open>The request\<close>

definition task_ends :: "('a, client_error) rres \<Rightarrow> task \<Rightarrow> bool" where
  "task_ends r t \<longleftrightarrow> t = Finished \<or> r = Panic"

lemma sim_try_cached:
  assumes "try_cached (over_store put get remove cond tick E) meth url body (Some token) a = (r, b)"
  shows "\<exists>evs. simulated put get remove cond tick E (Trying url token) a evs (if r = Ok None then Asking url else Finished) b"
proof -
  let ?W = "over_store put get remove cond tick E"
  obtain r1 a1 where s: "send_with_auth ?W meth url body token a = (r1, a1)" by fastforce
  show ?thesis
  proof (cases "refused r1")
    case True
    then obtain response where r1: "r1 = Ok response" "rs_status response = PAYMENT_REQUIRED"
      by (auto simp: refused_def split: rres.splits)
    obtain r2 a2 where d: "on_cl (drop_unpersisted url) a1 = (r2, a2)" by fastforce
    have r2: "r2 = Ok ()" using d by (auto simp: on_cl_eq drop_unpersisted_def)
    obtain r3 a3 where m: "store_remove ?W url a2 = (r3, a3)" by fastforce
    have "b = a3 \<and> (r = Ok None \<longleftrightarrow> r3 = Ok ())"
      using assms s r1 d m r2 by (cases r3) (auto simp: try_cached_def bind_act_def)
    then show ?thesis
      using sim_trans [OF sim_trans [OF sim_send_auth(1) [OF s] , unfolded if_P [OF True], OF sim_drop(1) [OF d]]
          sim_remove(1) [OF m]] by auto
  next
    case False
    then have "b = a1 \<and> r \<noteq> Ok None"
      using assms s by (cases r1) (auto simp: try_cached_def bind_act_def refused_def)
    then show ?thesis using sim_send_auth(1) [OF s] False by auto
  qed
qed

lemma sim_update_receipt:
  assumes "on_cl (update_receipt i code latency) a = (r, b)"
  shows "simulated put get remove cond tick E t a [] t b" and "r \<noteq> Err e"
  using assms by (cases "i < length (cl_receipts (sy_cl a))";
    auto intro!: sim_still calls_plain [of _ _ "[]"] simp: on_cl_eq update_receipt_def Let_def shown_def)+

text \<open>The end of a request that retries with its credential.\<close>

definition finish_retry ::
  "'w env \<Rightarrow> string \<Rightarrow> nat \<Rightarrow> nat \<Rightarrow> bool \<Rightarrow> http_response \<Rightarrow> (l402_response, 'w) act" where
  "finish_retry E url start i newly_paid response =
     bind_act (\<lambda>s. on_cl (update_receipt i (rs_status response) (elapsed_ms E start (sy_ext s))) s) (\<lambda>rc.
      if rs_status response = PAYMENT_REQUIRED
      then bind_act (on_cl (drop_unpersisted url)) (\<lambda>_.
           bind_act (store_remove E url) (\<lambda>_.
           fail (RetryFailed ''server returned 402 again after payment; receipt retained'')))
      else ret \<lparr>lr_inner = response, lr_paid = newly_paid, lr_cached_token = \<not> newly_paid,
                lr_receipt = Some rc\<rparr>)"

lemma retry_paid_eq:
  "retry_paid E meth url body start m (payment, i, newly) =
     bind_act (persist_token E url (token_new m (pr_preimage payment))) (\<lambda>_.
     bind_act (send_with_auth E meth url body (token_new m (pr_preimage payment)))
       (finish_retry E url start i newly))"
  by (simp add: retry_paid_def finish_retry_def [abs_def] Let_def)

lemma sim_finish:
  assumes "finish_retry (over_store put get remove cond tick E) url start i newly response a = (r, b)"
  shows "\<exists>t'. simulated put get remove cond tick E
      (if rs_status response = PAYMENT_REQUIRED then Retried url else Finished) a [] t' b \<and> task_ends r t'"
proof -
  let ?W = "over_store put get remove cond tick E"
  obtain r1 a1 where u: "on_cl (update_receipt i (rs_status response) (elapsed_ms ?W start (sy_ext a))) a = (r1, a1)"
    by fastforce
  note su = sim_update_receipt [OF u]
  show ?thesis
  proof (cases r1)
    case (Ok rc)
    show ?thesis
    proof (cases "rs_status response = PAYMENT_REQUIRED")
      case True
      obtain r2 a2 where d: "on_cl (drop_unpersisted url) a1 = (r2, a2)" by fastforce
      have r2: "r2 = Ok ()" using d by (auto simp: on_cl_eq drop_unpersisted_def)
      obtain r3 a3 where m: "store_remove ?W url a2 = (r3, a3)" by fastforce
      have "b = a3"
        using assms u Ok True d r2 m by (cases r3) (auto simp: finish_retry_def bind_act_def)
      then show ?thesis
        using sim_trans [OF sim_trans [OF su(1) sim_drop(2) [OF d]] sim_remove(2) [OF m]] True
        by (auto simp: task_ends_def)
    next
      case False
      then have "b = a1" using assms u Ok by (auto simp: finish_retry_def bind_act_def)
      then show ?thesis using su(1) [of put get remove cond tick E Finished] False unfolding task_ends_def by auto
    qed
  next
    case Panic
    then have "b = a1" "r = Panic" using assms u by (auto simp: finish_retry_def bind_act_def)
    then show ?thesis using su(1) unfolding task_ends_def by blast
  qed (use su(2) in simp)
qed

lemma sim_retry:
  assumes "pay_challenge (over_store put get remove cond tick E) limits cfg invoice amount domain url' start a = (Ok (p, i, n), b)"
    and "retry_paid (over_store put get remove cond tick E) meth url body start' m (p, i, n) b = (r, c)"
  shows "\<exists>evs t'. simulated put get remove cond tick E (Demanded url m) a evs t' c \<and> task_ends r t'"
proof -
  let ?W = "over_store put get remove cond tick E" and ?t = "token_new m (pr_preimage p)"
  obtain r1 b1 where k: "on_cl (keep_unpersisted url ?t) b = (r1, b1)" by fastforce
  obtain r2 b2 where w: "store_put ?W url ?t b1 = (r2, b2)" by fastforce
  have r1: "r1 = Ok ()" using k by (auto simp: on_cl_eq keep_unpersisted_def)
  note s2 = sim_trans [OF sim_pay [OF assms(1) k] sim_put [OF w]]
  show ?thesis
  proof (cases "r2 = Ok ()")
    case True
    obtain r3 b3 where d: "on_cl (drop_if_saved url ?t) b2 = (r3, b3)" by fastforce
    have r3: "r3 = Ok ()" using d by (auto simp: on_cl_eq drop_if_saved_def drop_unpersisted_def split: option.splits)
    obtain r4 b4 where s: "send_with_auth ?W meth url body ?t b3 = (r4, b4)" by fastforce
    note s4 = sim_trans [OF sim_trans [OF s2 [unfolded if_P [OF True]] sim_saved [OF d]] sim_send_auth(2) [OF s]]
    have run: "bind_act (send_with_auth ?W meth url body ?t) (finish_retry ?W url start' i n) b3 = (r, c)"
      using assms(2) k r1 w True d r3 by (simp add: retry_paid_eq persist_token_def bind_act_def)
    show ?thesis
    proof (cases r4)
      case (Ok response)
      then have "finish_retry ?W url start' i n response b4 = (r, c)" using run s by simp
      from sim_finish [OF this] obtain t' where
        "simulated put get remove cond tick E (if refused r4 then Retried url else Finished) b4 [] t' c" "task_ends r t'"
        by (auto simp: Ok refused_def)
      then show ?thesis using sim_trans [OF s4] by blast
    next
      case (Err e)
      then have "c = b4" "\<not> refused r4" using run s by (auto simp: bind_act_def refused_def)
      then show ?thesis using s4 by (auto simp: task_ends_def)
    qed (use send_auth_view [OF s] in simp)
  next
    case False
    then have "c = b2" using assms(2) k r1 w by (cases r2) (auto simp: retry_paid_eq persist_token_def bind_act_def)
    then show ?thesis using s2 False by (auto simp: task_ends_def)
  qed
qed

lemma sim_answer:
  assumes "answer_challenge (over_store put get remove cond tick E) limits cfg meth url body start response a = (r, b)"
  shows "\<exists>evs m t'. simulated put get remove cond tick E (Demanded url m) a evs t' b \<and> task_ends r t'"
proof -
  let ?W = "over_store put get remove cond tick E"
  have still: "simulated put get remove cond tick E (Demanded url m) a [] Finished a" for m
    by (auto intro!: sim_block [where oc = Failure] calls_plain [of _ _ "[]"] simp: shown_def)
  show ?thesis
  proof (cases "rbind (extract_challenge ?W response) (\<lambda>ch. rbind (invoice_amount_sats (c_invoice ch)) (\<lambda>x. Ok (ch, x)))")
    case (Ok cx)
    then obtain ch x where ch: "extract_challenge ?W response = Ok ch" "invoice_amount_sats (c_invoice ch) = Ok x"
      by (auto simp: rbind_Ok_iff)
    obtain r1 a1 where p: "pay_challenge ?W limits cfg (c_invoice ch) x (request_domain ?W url) url start a = (r1, a1)"
      by fastforce
    show ?thesis
    proof (cases r1)
      case (Ok y)
      obtain q i n where y: "y = (q, i, n)" by (metis prod_cases3)
      have "retry_paid ?W meth url body start (c_macaroon ch) (q, i, n) a1 = (r, b)"
        using assms ch p by (simp add: answer_challenge_def Ok y)
      from sim_retry [OF p [unfolded Ok y] this] show ?thesis by blast
    next
      case (Err e)
      then have "b = a1" using assms ch p by (simp add: answer_challenge_def bind_act_def)
      then show ?thesis using sim_pay_fails [OF p] unfolding task_ends_def by blast
    next
      case Panic
      then have "b = a1" using assms ch p by (simp add: answer_challenge_def bind_act_def)
      then show ?thesis using sim_pay_fails [OF p] unfolding task_ends_def by blast
    qed
  next
    case (Err e)
    then have "b = a" using assms
      by (cases "extract_challenge ?W response") (auto simp: answer_challenge_def bind_act_def split: rres.splits)
    then show ?thesis using still unfolding task_ends_def by blast
  next
    case Panic
    then have "b = a" using assms
      by (cases "extract_challenge ?W response") (auto simp: answer_challenge_def bind_act_def split: rres.splits)
    then show ?thesis using still unfolding task_ends_def by blast
  qed
qed

text \<open>What a request does when it has no credential that the server accepts.\<close>

definition uncached ::
  "'w env \<Rightarrow> budget \<Rightarrow> client_config \<Rightarrow> string \<Rightarrow> string \<Rightarrow> string option \<Rightarrow> nat \<Rightarrow> (l402_response, 'w) act" where
  "uncached E limits cfg meth url body start =
     bind_act (send_request E meth url body) (\<lambda>response.
        if rs_status response \<noteq> PAYMENT_REQUIRED
        then ret \<lparr>lr_inner = response, lr_paid = False, lr_cached_token = False, lr_receipt = None\<rparr>
        else answer_challenge E limits cfg meth url body start response)"

lemma request_eq:
  "request E limits cfg meth url body s =
     bind_act (find_token E url) (\<lambda>token. bind_act (try_cached E meth url body token) (\<lambda>done1.
       case done1 of Some r \<Rightarrow> ret r
       | None \<Rightarrow> uncached E limits cfg meth url body (e_instant E (sy_ext s)))) s"
  unfolding request_def uncached_def Let_def by (rule refl)

lemma sim_uncached:
  assumes "uncached (over_store put get remove cond tick E) limits cfg meth url body start a = (r, b)"
  shows "\<exists>evs t'. simulated put get remove cond tick E (Asking url) a evs t' b \<and> task_ends r t'"
proof -
  obtain r1 a1 where s: "send_request (over_store put get remove cond tick E) meth url body a = (r1, a1)" by fastforce
  show ?thesis
  proof (cases "refused r1")
    case True
    then obtain response where r1: "r1 = Ok response" "rs_status response = PAYMENT_REQUIRED"
      by (auto simp: refused_def split: rres.splits)
    then have "answer_challenge (over_store put get remove cond tick E) limits cfg meth url body start response a1 = (r, b)"
      using assms s by (simp add: uncached_def)
    from sim_answer [OF this] show ?thesis
      using sim_trans [OF sim_send [OF s, unfolded if_P [OF True]]] by blast
  next
    case False
    then have "b = a1" using assms s by (cases r1) (auto simp: uncached_def bind_act_def refused_def)
    then show ?thesis using sim_send [OF s] False unfolding task_ends_def by auto
  qed
qed

lemma sim_request:
  assumes "request (over_store put get remove cond tick E) limits cfg meth url body a = (r, b)"
  shows "\<exists>evs t'. simulated put get remove cond tick E (first_lookup (sy_cl a) url) a evs t' b \<and> task_ends r t'"
proof -
  let ?W = "over_store put get remove cond tick E"
  obtain r1 a1 where f: "find_token ?W url a = (r1, a1)" by fastforce
  note sf = sim_find [OF f]
  show ?thesis
  proof (cases r1)
    case (Ok tok)
    show ?thesis
    proof (cases tok)
      case None
      have "uncached ?W limits cfg meth url body (e_instant ?W (sy_ext a)) a1 = (r, b)"
        using assms f Ok None by (simp add: request_eq try_cached_def)
      from sim_uncached [OF this] show ?thesis
        using sim_trans [OF sf [unfolded Ok None, simplified]] by blast
    next
      case (Some token)
      obtain r2 a2 where c: "try_cached ?W meth url body (Some token) a1 = (r2, a2)" by fastforce
      obtain evs where sc: "simulated put get remove cond tick E (Trying url token) a1 evs (if r2 = Ok None then Asking url else Finished) a2"
        using sim_try_cached [OF c] by blast
      note s2 = sim_trans [OF sf [unfolded Ok Some, simplified] sc]
      show ?thesis
      proof (cases "r2 = Ok None")
        case True
        have "uncached ?W limits cfg meth url body (e_instant ?W (sy_ext a)) a2 = (r, b)"
          using assms f Ok Some c True by (simp add: request_eq)
        from sim_uncached [OF this] show ?thesis
          using sim_trans [OF s2 [unfolded if_P [OF True]]] by blast
      next
        case False
        then have "b = a2" using assms f Ok Some c
          by (auto simp: request_eq bind_act_def split: rres.splits option.splits)
        then show ?thesis using s2 False unfolding task_ends_def by auto
      qed
    qed
  next
    case (Err e)
    then have "b = a1" using assms f by (auto simp: request_eq bind_act_def)
    then show ?thesis using sf Err unfolding task_ends_def by auto
  next
    case Panic
    then have "b = a1" using assms f by (auto simp: request_eq bind_act_def)
    then show ?thesis using sf Panic unfolding task_ends_def by auto
  qed
qed

lemma request_run_blocks:
  assumes "request (over_store put get remove cond tick E) limits cfg meth url body s = (r, s')"
    and "cl_unpersisted (tl_cl st) = cl_unpersisted (sy_cl s)" and "tl_store st = snd (sy_ext s)"
  shows "\<exists>ocs evs t cl. timed_run put get remove ((q, Begin url) # runs_of (length (tl_tasks st)) ocs) st
      = \<lparr>tl_cl = cl, tl_store = snd (sy_ext s'), tl_tasks = tl_tasks st @ [t], tl_trace = tl_trace st @ evs\<rparr>
    \<and> fst ` set ocs \<subseteq> range cond \<and> cl_unpersisted cl = cl_unpersisted (sy_cl s') \<and> task_ends r t
    \<and> calls_made (over_store put get remove cond tick E) evs s s'"
proof -
  obtain evs t where s: "simulated put get remove cond tick E (first_lookup (sy_cl s) url) s evs t s'" "task_ends r t"
    using sim_request [OF assms(1)] by blast
  obtain ocs cl where w: "walk put get remove ocs (first_lookup (sy_cl s) url) (tl_cl st) (snd (sy_ext s))
      = (t, cl, snd (sy_ext s'), evs)" "fst ` set ocs \<subseteq> range cond" "cl_unpersisted cl = cl_unpersisted (sy_cl s')"
    using s(1) assms(2) unfolding simulated_def by blast
  let ?st = "st\<lparr>tl_tasks := tl_tasks st @ [first_lookup (tl_cl st) url]\<rparr>"
  have l: "first_lookup (tl_cl st) url = first_lookup (sy_cl s) url" by (simp add: first_lookup_def assms(2))
  have "timed_run put get remove (runs_of (length (tl_tasks st)) ocs) ?st
    = \<lparr>tl_cl = cl, tl_store = snd (sy_ext s'), tl_tasks = tl_tasks st @ [t], tl_trace = tl_trace st @ evs\<rparr>"
    using walk_is_run [of "length (tl_tasks st)" ?st put get remove ocs] w(1) by (simp add: l assms(3))
  then show ?thesis using s w(2,3)
    by (intro exI [of _ ocs] exI [of _ evs] exI [of _ t] exI [of _ cl]) (simp add: simulated_def)
qed

text \<open>A client knows only payments that its backend has settled, from its construction on.\<close>

lemma life_known_settled:
  assumes "client_life (over_store put get remove cond tick E) limits cfg s" and "known_payment_of (sy_cl s) p"
  shows "PaySettled p \<in> set (sy_log s)"
  using assms
proof induction
  case (built w)
  then show ?case by (simp add: known_payment_of_def client_start_def)
next
  case (requested s meth url body r s')
  obtain evs t where "simulated put get remove cond tick E (first_lookup (sy_cl s) url) s evs t s'"
    using sim_request [OF requested.hyps(2)] by blast
  then show ?case using requested by (auto simp: simulated_def calls_made_def)
qed simp

section \<open>A payment is a run of steps\<close>

abbreviation steps :: "budget \<Rightarrow> client_config \<Rightarrow> conc \<Rightarrow> conc \<Rightarrow> bool" where
  "steps limits cfg \<equiv> (conc_step limits cfg)\<^sup>*\<^sup>*"

text \<open>The last task goes on alone; what the observer sees of submissions and settlements stays.\<close>

definition goes_on :: "budget \<Rightarrow> client_config \<Rightarrow> pc list \<Rightarrow> conc \<Rightarrow> client_state \<Rightarrow> pc \<Rightarrow> bool" where
  "goes_on limits cfg ts c cl t \<longleftrightarrow> (\<exists>c'. steps limits cfg c c' \<and> cc_cl c' = cl \<and> cc_tasks c' = ts @ [t]
     \<and> cc_now c' = cc_now c \<and> cc_sent c' = cc_sent c \<and> cc_settled c' = cc_settled c)"

lemma goes_on_refl: "cc_tasks c = ts @ [t] \<Longrightarrow> cc_cl c = cl \<Longrightarrow> goes_on limits cfg ts c cl t"
  unfolding goes_on_def by blast

lemma goes_on_step:
  assumes "conc_step limits cfg c c1" and "goes_on limits cfg ts c1 cl t"
    and "cc_now c1 = cc_now c" "cc_sent c1 = cc_sent c" "cc_settled c1 = cc_settled c"
  shows "goes_on limits cfg ts c cl t"
  using assms unfolding goes_on_def by (metis converse_rtranclp_into_rtranclp)

lemma payment_receipt_clock:
  "(\<exists>rc. payment_receipt (Some t) url p latency = Ok rc) \<and> payment_receipt None url p latency = Panic"
  by (simp add: payment_receipt_def receipt_new_def)

lemma booking_goes_on:
  assumes "after_payment E key amount url start rv p a = (r, b)"
    and "cc_tasks c = ts @ [Paid key amount domain url rv p]" and "cc_cl c = sy_cl a"
    and "cc_now c = now_secs E (sy_ext a)"
  shows "\<exists>t. goes_on limits cfg ts c (sy_cl b) t \<and> (t = Over \<or> r = Panic)"
proof (cases "e_clock E (sy_ext a)")
  case None
  then have "r = Panic" "b = a"
    using assms(1) payment_receipt_clock by (auto simp: after_payment_def Let_def bind_act_def lift_res_def)
  then show ?thesis using goes_on_refl [OF assms(2,3)] by blast
next
  case (Some now)
  let ?v = "payment_violation amount (rv_max_fee_sats rv) p"
  obtain rc where rc: "payment_receipt (Some now) url p (elapsed_ms E start (sy_ext a)) = Ok rc"
    using payment_receipt_clock by blast
  obtain i cl1 where i: "push_receipt rc (sy_cl a) = (Ok i, cl1)" by (simp add: push_receipt_def)
  obtain res cl2 where s: "settle_payment rv p (now_secs E (sy_ext a)) ?v cl1 = (res, cl2)" by fastforce
  let ?c1 = "c\<lparr>cc_cl := cl1, cc_tasks := ts @ [Receipted key amount domain rv p i]\<rparr>"
  let ?pc = "if ?v \<or> res \<noteq> Ok () then Over else Committing key p i"
  let ?c2 = "?c1\<lparr>cc_cl := cl2, cc_tasks := ts @ [?pc], cc_charged := cc_charged c @ [(cc_now c, charge p, domain)]\<rparr>"
  have 1: "conc_step limits cfg c ?c1"
    using conc_step.receipted [of c ts key amount domain url rv p "[]" now] assms(2,3) rc i by simp
  have 2: "conc_step limits cfg ?c1 ?c2"
    using conc_step.settled [of ?c1 ts key amount domain rv p i "[]" res cl2 ?pc] assms(4) s by simp
  have body: "after_payment E key amount url start rv p a =
      (case on_cl (settle_payment rv p (now_secs E (sy_ext a)) ?v) (a\<lparr>sy_cl := cl1\<rparr>) of
        (Panic, s2) \<Rightarrow> (Panic, s2)
      | (settlement, s2) \<Rightarrow>
          if ?v then (Err (Backend violation_text), s2)
          else bind_act (lift_res settlement) (\<lambda>_.
               bind_act (on_cl (commit_payment key (p, i))) (\<lambda>_. ret (p, i))) s2)"
  proof -
    have "on_cl (push_receipt rc) a = (Ok i, a\<lparr>sy_cl := cl1\<rparr>)" by (simp add: on_cl_def i)
    then show ?thesis using rc by (simp add: after_payment_def Let_def Some)
  qed
  show ?thesis
  proof (cases "?v \<or> res \<noteq> Ok ()")
    case True
    then have "sy_cl b = cl2"
      using assms(1) s unfolding body by (cases res) (auto simp: on_cl_eq bind_act_def lift_res_def split: if_splits)
    then have "goes_on limits cfg ts ?c2 (sy_cl b) Over" using True by (intro goes_on_refl) simp_all
    then show ?thesis using goes_on_step [OF 1 goes_on_step [OF 2]] by auto
  next
    case False
    let ?cl3 = "snd (commit_payment key (p, i) cl2)"
    have "sy_cl b = ?cl3"
      using assms(1) s False unfolding body by (auto simp: on_cl_eq bind_act_def lift_res_def commit_payment_def)
    let ?c3 = "?c2\<lparr>cc_cl := ?cl3, cc_tasks := ts @ [Over]\<rparr>"
    have 3: "conc_step limits cfg ?c2 ?c3"
      using conc_step.committed [of ?c2 ts key p i "[]"] False by simp
    have "goes_on limits cfg ts ?c3 (sy_cl b) Over" using \<open>sy_cl b = ?cl3\<close> by (intro goes_on_refl) simp_all
    then show ?thesis using goes_on_step [OF 1 goes_on_step [OF 2 goes_on_step [OF 3]]] by auto
  qed
qed

lemma rejection_goes_on:
  assumes "cc_tasks c = ts @ [Paying key amount domain url rv]" and "is_confirmed_rejection e"
    and "cl = snd (forget_claim key (snd (release_claim rv (cc_cl c))))"
  shows "\<exists>c1. conc_step limits cfg c c1 \<and> cc_now c1 = cc_now c \<and> cc_sent c1 = cc_sent c
    \<and> cc_settled c1 = cc_settled c \<and> goes_on limits cfg ts c1 cl Over"
proof -
  let ?c1 = "c\<lparr>cc_tasks := ts @ [Releasing key amount domain rv], cc_rejected := cc_rejected c @ [key]\<rparr>"
  let ?c2 = "?c1\<lparr>cc_cl := snd (release_claim rv (cc_cl c)), cc_tasks := ts @ [Forgetting key]\<rparr>"
  let ?c3 = "?c2\<lparr>cc_cl := cl, cc_tasks := ts @ [Over]\<rparr>"
  have 1: "conc_step limits cfg c ?c1"
    using conc_step.rejected [of c ts key amount domain url rv "[]"] assms(1,2) by simp
  have 2: "conc_step limits cfg ?c1 ?c2" using conc_step.released [of ?c1 ts key amount domain rv "[]"] by simp
  have 3: "conc_step limits cfg ?c2 ?c3"
    using conc_step.forgotten [of ?c2 ts key "[]"] by (simp add: assms(3))
  have "goes_on limits cfg ts ?c3 cl Over" by (intro goes_on_refl) simp_all
  then have "goes_on limits cfg ts ?c1 cl Over" using goes_on_step [OF 2 goes_on_step [OF 3]] by auto
  then show ?thesis using 1 by (intro exI [of _ ?c1]) simp
qed

text \<open>The call of the backend: the answer, then what the code does with it.\<close>

lemma paying_goes_on:
  assumes "pay_new E invoice key amount url start rv a = (r, b)"
    and "cc_tasks c = ts @ [Paying key amount domain url rv]" and "cc_cl c = sy_cl a"
    and "cc_now c = now_secs E (sy_ext b)"
  shows "\<exists>c1 p t. (c1 = c \<or> conc_step limits cfg c c1)
    \<and> cc_now c1 = cc_now c \<and> cc_sent c1 = cc_sent c \<and> cc_settled c1 = cc_settled c @ p
    \<and> goes_on limits cfg ts c1 (sy_cl b) t \<and> (t = Over \<or> r = Panic)
    \<and> sy_log b = sy_log a @ PaySent invoice (rv_max_fee_sats rv) # map (\<lambda>(_, _, _, q). PaySettled q) p"
proof -
  obtain pr s1 where call: "call_pay E invoice (rv_max_fee_sats rv) a = (pr, s1)" by fastforce
  have s1: "sy_cl s1 = sy_cl a" "sy_log s1 = sy_log a @ PaySent invoice (rv_max_fee_sats rv) #
      (case pr of Ok p \<Rightarrow> [PaySettled p] | _ \<Rightarrow> [])"
    using call by (auto simp: call_pay_def log_call_def Let_def split: prod.splits rres.splits)
  have over: ?thesis if "sy_cl b = sy_cl a" "sy_log b = sy_log s1" "\<And>p. pr \<noteq> Ok p"
  proof -
    let ?c1 = "c\<lparr>cc_tasks := ts @ [Over]\<rparr>"
    have "conc_step limits cfg c ?c1"
      using conc_step.uncertain [of c ts key amount domain url rv "[]"] assms(2) by simp
    moreover have "goes_on limits cfg ts ?c1 (sy_cl b) Over" using that(1) assms(3) by (intro goes_on_refl) simp_all
    ultimately show ?thesis using that(2,3) s1(2)
      by (intro exI [of _ ?c1] exI [of _ "[]"] exI [of _ Over]) (auto split: rres.splits)
  qed
  show ?thesis
  proof (cases pr)
    case (Ok p)
    then have run: "after_payment E key amount url start rv p s1 = (r, b)"
      using assms(1) call by (simp add: pay_new_def)
    let ?c1 = "c\<lparr>cc_tasks := ts @ [Paid key amount domain url rv p],
      cc_settled := cc_settled c @ [(url, amount, rv_max_fee_sats rv, p)]\<rparr>"
    note v = after_payment_view [OF run]
    have "conc_step limits cfg c ?c1"
      using conc_step.answered [of c ts key amount domain url rv "[]"] assms(2) by simp
    moreover obtain t where "goes_on limits cfg ts ?c1 (sy_cl b) t" "t = Over \<or> r = Panic"
      using booking_goes_on [OF run, of ?c1 ts domain limits cfg] assms(3,4) v s1(1) by auto
    ultimately show ?thesis using v s1(2)
      by (intro exI [of _ ?c1] exI [of _ "[(url, amount, rv_max_fee_sats rv, p)]"] exI [of _ t]) (auto simp: Ok)
  next
    case (Err e)
    show ?thesis
    proof (cases "is_confirmed_rejection e")
      case True
      have b: "sy_cl b = snd (forget_claim key (snd (release_claim rv (cc_cl c))))" "sy_log b = sy_log s1"
        using assms(1,3) call s1(1) Err True
        by (auto simp: pay_new_def on_cl_eq bind_act_def release_claim_def forget_claim_def)
      obtain c1 where "conc_step limits cfg c c1" "cc_now c1 = cc_now c" "cc_sent c1 = cc_sent c"
        "cc_settled c1 = cc_settled c" "goes_on limits cfg ts c1 (sy_cl b) Over"
        using rejection_goes_on [OF assms(2) True b(1)] by blast
      then show ?thesis using b(2) s1(2)
        by (intro exI [of _ c1] exI [of _ "[]"] exI [of _ Over]) (auto simp: Err)
    next
      case False
      then show ?thesis using assms(1) call Err s1(1) by (intro over) (auto simp: pay_new_def)
    qed
  next
    case Panic
    then show ?thesis using assms(1) call s1(1) by (intro over) (auto simp: pay_new_def)
  qed
qed

lemma settled_calls:
  "pays (map (\<lambda>(_, _, _, q). PaySettled q) p) = []"
  "settled_payments (map (\<lambda>(_, _, _, q). PaySettled q) p) = map (\<lambda>(_, _, _, q). q) p"
  by (induction p) auto

lemma payment_run:
  assumes "pay_challenge E limits cfg invoice amount domain url start s = (r, s')"
    and "cc_cl c = sy_cl s" and "cc_now c = now_secs E (sy_ext s)"
    and "now_secs E (sy_ext s) \<le> now_secs E (sy_ext s')"
  shows "\<exists>c' t calls p. steps limits cfg c c' \<and> cc_cl c' = sy_cl s' \<and> cc_now c' = now_secs E (sy_ext s')
    \<and> cc_tasks c' = cc_tasks c @ [t] \<and> (t = Over \<or> r = Panic) \<and> sy_log s' = sy_log s @ calls
    \<and> cc_sent c' = cc_sent c @ map (to_ascii_lowercase \<circ> fst) (pays calls)
    \<and> cc_settled c' = cc_settled c @ p \<and> map (\<lambda>(_, _, _, q). q) p = settled_payments calls"
proof -
  let ?key = "to_ascii_lowercase invoice" and ?sup = "e_supports_fee_limit E (sy_ext s)"
  obtain res cl where claim: "claim limits cfg ?sup ?key amount domain (cc_now c) (cc_cl c) = (res, cl)" by fastforce
  note defs = pay_challenge_def Let_def on_cl_eq assms(2,3) [symmetric]
  show ?thesis
  proof (cases "\<exists>rv. res = Ok (Inr rv)")
    case True
    then obtain rv where rv: "res = Ok (Inr rv)" by blast
    obtain r2 where n: "pay_new E invoice ?key amount url start rv (s\<lparr>sy_cl := cl\<rparr>) = (r2, s')" "r2 = Panic \<longrightarrow> r = Panic"
      using assms(1) claim rv by (auto simp: defs bind_act_def split: prod.splits rres.splits)
    let ?c1 = "c\<lparr>cc_cl := cl, cc_tasks := cc_tasks c @ [Paying ?key amount domain url rv], cc_sent := cc_sent c @ [?key]\<rparr>"
    let ?c2 = "?c1\<lparr>cc_now := now_secs E (sy_ext s')\<rparr>"
    have 1: "conc_step limits cfg c ?c1" using conc_step.claimed [OF claim [unfolded rv]] .
    have 2: "conc_step limits cfg ?c1 ?c2" using conc_step.tick [of ?c1 "now_secs E (sy_ext s')"] assms(3,4) by simp
    obtain c3 p t where 3: "c3 = ?c2 \<or> conc_step limits cfg ?c2 c3" "cc_now c3 = now_secs E (sy_ext s')"
      "cc_sent c3 = cc_sent c @ [?key]" "cc_settled c3 = cc_settled c @ p"
      and g: "goes_on limits cfg (cc_tasks c) c3 (sy_cl s') t" "t = Over \<or> r2 = Panic"
      and l: "sy_log s' = sy_log s @ PaySent invoice (rv_max_fee_sats rv) # map (\<lambda>(_, _, _, q). PaySettled q) p"
      using paying_goes_on [OF n(1), of ?c2 "cc_tasks c" domain limits cfg] by auto
    obtain c' where c': "steps limits cfg c3 c'" "cc_cl c' = sy_cl s'" "cc_tasks c' = cc_tasks c @ [t]"
      "cc_now c' = cc_now c3" "cc_sent c' = cc_sent c3" "cc_settled c' = cc_settled c3"
      using g(1) unfolding goes_on_def by blast
    have "steps limits cfg c c'"
      using 1 2 3(1) c'(1) by (meson converse_rtranclp_into_rtranclp)
    then show ?thesis using c'(2-) 3(2-) g(2) n(2) l
      by (intro exI [of _ c'] exI [of _ t] exI [of _ "PaySent invoice (rv_max_fee_sats rv) # map (\<lambda>(_, _, _, q). PaySettled q) p"]
          exI [of _ p]) (auto simp: settled_calls)
  next
    case False
    then have s': "s' = s\<lparr>sy_cl := cl\<rparr>"
      using assms(1) claim by (auto simp: defs bind_act_def split: rres.splits sum.splits)
    let ?c1 = "c\<lparr>cc_cl := cl, cc_tasks := cc_tasks c @ [Over]\<rparr>"
    have "conc_step limits cfg c ?c1" using conc_step.refused [OF claim] False by blast
    then show ?thesis using s' assms(3)
      by (intro exI [of _ ?c1] exI [of _ Over] exI [of _ "[]"] exI [of _ "[]"]) auto
  qed
qed

section \<open>Properties\<close>

text \<open>C14. The token layer is a model of the code: over any token store, whose calls the world may fail or
  delay as it likes, a request of the client does to the store and to the unpersisted tokens exactly
  what a run of the blocks of one task does, from any state of the other tasks and under conditions
  that the world set, and unless it panics that task is finished. Every credential in a header the
  request sent is one that the run presents to that URL. If the client has only made requests that did not panic since it was built,
  every credential the run issues carries the preimage of a payment that the backend has reported as
  settled to this client.\<close>

theorem request_is_task_run:
  assumes "request (over_store put get remove cond tick E) limits cfg meth url body s = (r, s')"
    and "cl_unpersisted (tl_cl st) = cl_unpersisted (sy_cl s)" and "tl_store st = snd (sy_ext s)"
  shows "\<exists>ocs evs calls t cl. timed_run put get remove ((q, Begin url) # runs_of (length (tl_tasks st)) ocs) st
      = \<lparr>tl_cl = cl, tl_store = snd (sy_ext s'), tl_tasks = tl_tasks st @ [t], tl_trace = tl_trace st @ evs\<rparr>
    \<and> fst ` set ocs \<subseteq> range cond \<and> cl_unpersisted cl = cl_unpersisted (sy_cl s') \<and> (t = Finished \<or> r = Panic)
    \<and> sy_log s' = sy_log s @ calls \<and> shown (over_store put get remove cond tick E) calls evs
    \<and> (client_life (over_store put get remove cond tick E) limits cfg s \<longrightarrow>
        (\<forall>url' token. Issued url' token \<in> set evs \<longrightarrow>
          (\<exists>p. pr_preimage p = tk_preimage token \<and> PaySettled p \<in> set (sy_log s'))))"
proof -
  let ?W = "over_store put get remove cond tick E"
  obtain ocs evs t cl where b: "timed_run put get remove ((q, Begin url) # runs_of (length (tl_tasks st)) ocs) st
      = \<lparr>tl_cl = cl, tl_store = snd (sy_ext s'), tl_tasks = tl_tasks st @ [t], tl_trace = tl_trace st @ evs\<rparr>"
    "fst ` set ocs \<subseteq> range cond" "cl_unpersisted cl = cl_unpersisted (sy_cl s')" "task_ends r t" "calls_made ?W evs s s'"
    using request_run_blocks [OF assms] by blast
  obtain calls where c: "sy_log s' = sy_log s @ calls" "shown ?W calls evs" "earned (sy_cl s) calls evs"
    using b(5) unfolding calls_made_def by blast
  have "\<exists>p. pr_preimage p = tk_preimage token \<and> PaySettled p \<in> set (sy_log s')"
    if life: "client_life ?W limits cfg s" and issued: "Issued url' token \<in> set evs" for url' token
  proof -
    obtain p where "pr_preimage p = tk_preimage token" "known_payment_of (sy_cl s) p \<or> PaySettled p \<in> set calls"
      using c(3) issued unfolding earned_def by blast
    then show ?thesis using life_known_settled [OF life, of p] c(1) by auto
  qed
  then show ?thesis using b(1-4) c(1,2)
    by (intro exI [of _ ocs] exI [of _ evs] exI [of _ calls] exI [of _ t] exI [of _ cl]) (simp add: task_ends_def)
qed

theorem request_is_task_run_witness:
  "\<exists>x s' ocs. request sample_db_env unlimited sample_config ''GET'' ''u'' None
        (sample_db_sys [] fresh_sqlite client_start) = (Ok x, s') \<and> lr_paid x
    \<and> tl_tasks (timed_run sq_put sq_get sq_remove ((sound_call 100, Begin ''u'') # runs_of 0 ocs) (token_start fresh_sqlite)) = [Finished]"
proof -
  obtain x s' where r: "request sample_db_env unlimited sample_config ''GET'' ''u'' None
      (sample_db_sys [] fresh_sqlite client_start) = (Ok x, s')" "lr_paid x"
    using sample_db_request by blast
  let ?run = "timed_run sq_put sq_get sq_remove"
  have st: "cl_unpersisted (tl_cl (token_start fresh_sqlite)) = cl_unpersisted (sy_cl (sample_db_sys [] fresh_sqlite client_start))"
    "tl_store (token_start fresh_sqlite) = snd (sy_ext (sample_db_sys [] fresh_sqlite client_start))"
    "tl_tasks (token_start fresh_sqlite) = []"
    by (simp_all add: token_start_def sample_db_sys_def)
  obtain ocs evs t cl where "?run ((sound_call 100, Begin ''u'') # runs_of (length (tl_tasks (token_start fresh_sqlite))) ocs) (token_start fresh_sqlite)
      = \<lparr>tl_cl = cl, tl_store = snd (sy_ext s'), tl_tasks = tl_tasks (token_start fresh_sqlite) @ [t],
         tl_trace = tl_trace (token_start fresh_sqlite) @ evs\<rparr>" "t = Finished \<or> Ok x = Panic"
    using request_is_task_run [OF r(1) [unfolded sample_db_env_def] st(1,2), of "sound_call 100"] by blast
  then have "tl_tasks (?run ((sound_call 100, Begin ''u'') # runs_of 0 ocs) (token_start fresh_sqlite)) = [Finished]"
    by (simp add: st(3))
  then show ?thesis using r by blast
qed

text \<open>C13. The payment layer is a model of the code: a call of \<open>pay_challenge\<close> whose clock does not run
  backwards does to the client exactly what a run of steps of one task does, from any state of the
  other tasks; unless it panics that task is over, and the observer of the model sees the invoices
  it submits and the payments it settles. What holds of every interleaving holds of the code.\<close>

theorem payment_is_task_run:
  assumes "pay_challenge E limits cfg invoice amount domain url start s = (r, s')"
    and "cc_cl c = sy_cl s" and "cc_now c = now_secs E (sy_ext s)"
    and "now_secs E (sy_ext s) \<le> now_secs E (sy_ext s')"
  shows "\<exists>c' t calls p. (conc_step limits cfg)\<^sup>*\<^sup>* c c' \<and> cc_cl c' = sy_cl s' \<and> cc_now c' = now_secs E (sy_ext s')
    \<and> cc_tasks c' = cc_tasks c @ [t] \<and> (t = Over \<or> r = Panic) \<and> sy_log s' = sy_log s @ calls
    \<and> cc_sent c' = cc_sent c @ map (to_ascii_lowercase \<circ> fst) (pays calls)
    \<and> cc_settled c' = cc_settled c @ p \<and> map (\<lambda>(_, _, _, q). q) p = settled_payments calls"
  by (rule payment_run [OF assms])

text \<open>An instance: the sample payment, made by a new client.\<close>

theorem payment_is_task_run_witness:
  "\<exists>s' c'. pay_challenge sample_env unlimited sample_config ''lnbc10u1x'' 1000 (Some ''h'') ''u'' 0
        sample_sys = (Ok (sample_payment, 0, True), s')
    \<and> (conc_step unlimited sample_config)\<^sup>*\<^sup>* (conc_start 7200) c' \<and> cc_tasks c' = [Over] \<and> cc_cl c' = sy_cl s'"
proof -
  have now: "now_secs sample_env w = 7200" for w by (simp add: now_secs_def sample_env_def)
  obtain s' where run: "pay_challenge sample_env unlimited sample_config ''lnbc10u1x'' 1000 (Some ''h'') ''u'' 0
        sample_sys = (Ok (sample_payment, 0, True), s')"
    using sample_pay_challenge [of "[]"] by (auto simp: sample_sys_def)
  obtain c' t where "(conc_step unlimited sample_config)\<^sup>*\<^sup>* (conc_start 7200) c'" "cc_cl c' = sy_cl s'"
    "cc_tasks c' = cc_tasks (conc_start 7200) @ [t]" "t = Over \<or> Ok (sample_payment, 0::nat, True) = (Panic :: (_, client_error) rres)"
    using payment_is_task_run [OF run, of "conc_start 7200"] by (auto simp: now conc_start_def sample_sys_def)
  then show ?thesis using run by (auto simp: conc_start_def)
qed

end
