(* ===== verification/Mock.thy ===== *)
theory Mock
  imports Client_Props Token_Cache
begin

text \<open>
  \<open>crates/l402-mock\<close>: the server that issues challenges and checks credentials, and the backend
  that "pays" by looking the preimage up. Hex, SHA-256 and base64 come from other crates: they are
  the fields of \<open>crypto\<close>; \<open>crypto_ok\<close> states what is relied on. The random bytes of a challenge are
  an argument. The registry of challenges is an association list, because the server iterates
  over its values.
\<close>

unbundle bit_operations_syntax

record crypto =
  hex_encode :: "string \<Rightarrow> string"
  hex_decode :: "string \<Rightarrow> string option"
  sha256 :: "string \<Rightarrow> string"
  b64_encode :: "string \<Rightarrow> string"

section \<open>Challenges\<close>

record pending_challenge =
  pc_preimage :: string
  pc_payment_hash :: string
  pc_macaroon :: string
  pc_invoice :: string
  pc_amount_sats :: u64

text \<open>The buffer after reading \<open>/dev/urandom\<close>, or the fallback from the clock.\<close>

definition rand_bytes :: "string option \<Rightarrow> nat \<Rightarrow> string" where
  "rand_bytes urandom seed =
     (case urandom of
        Some buf \<Rightarrow> buf
      | None \<Rightarrow> map (\<lambda>i. char_of ((drop_bit (i mod 16) seed XOR drop_bit ((i + 7) mod 16) seed) mod 256))
                  [0..<32])"

definition safe_hash :: "string \<Rightarrow> string" where
  "safe_hash payment_hash = take 20 (map (\<lambda>c. if c = CHR ''1'' then CHR ''x'' else c) payment_hash)"

definition mock_invoice :: "string \<Rightarrow> u64 \<Rightarrow> (string, 'e) rres" where
  "mock_invoice payment_hash amount_sats =
     (if 100 \<le> amount_sats \<and> amount_sats mod 100 = 0
      then Ok (''lnbc'' @ show_u64 (amount_sats div 100) @ ''u1mock'' @ safe_hash payment_hash)
      else rbind (mul_u64 amount_sats 10) (\<lambda>n.
        Ok (''lnbc'' @ show_u64 n @ ''n1mock'' @ safe_hash payment_hash)))"

definition generate :: "crypto \<Rightarrow> string \<Rightarrow> u64 \<Rightarrow> (pending_challenge, 'e) rres" where
  "generate C preimage_bytes amount_sats =
     (let payment_hash = hex_encode C (sha256 C preimage_bytes);
          macaroon_data = ''{'' @ [CHR 0x22] @ ''payment_hash'' @ [CHR 0x22] @ '':'' @ [CHR 0x22]
             @ payment_hash @ [CHR 0x22] @ ''}'' in
      rbind (mock_invoice payment_hash amount_sats) (\<lambda>invoice.
        Ok \<lparr>pc_preimage = hex_encode C preimage_bytes, pc_payment_hash = payment_hash,
            pc_macaroon = b64_encode C macaroon_data, pc_invoice = invoice,
            pc_amount_sats = amount_sats\<rparr>))"

definition to_www_authenticate :: "pending_challenge \<Rightarrow> string" where
  "to_www_authenticate c =
     ''L402 macaroon='' @ [CHR 0x22] @ pc_macaroon c @ [CHR 0x22]
       @ '', invoice='' @ [CHR 0x22] @ pc_invoice c @ [CHR 0x22]"

definition validate_preimage :: "crypto \<Rightarrow> pending_challenge \<Rightarrow> string \<Rightarrow> bool" where
  "validate_preimage C c preimage_hex =
     (case hex_decode C preimage_hex of
        None \<Rightarrow> False
      | Some preimage_bytes \<Rightarrow> hex_encode C (sha256 C preimage_bytes) = pc_payment_hash c)"

definition validate_auth :: "crypto \<Rightarrow> pending_challenge \<Rightarrow> string \<Rightarrow> string \<Rightarrow> bool" where
  "validate_auth C c macaroon preimage_hex \<longleftrightarrow>
     macaroon = pc_macaroon c \<and> validate_preimage C c preimage_hex"

section \<open>The server\<close>

record endpoint_config =
  ec_price_sats :: u64
  ec_response_body :: string

definition endpoint_new :: "u64 \<Rightarrow> endpoint_config" where
  "endpoint_new price_sats = \<lparr>ec_price_sats = price_sats,
     ec_response_body = ''{'' @ [CHR 0x22] @ ''ok'' @ [CHR 0x22] @ '':true,'' @ [CHR 0x22] @ ''price''
       @ [CHR 0x22] @ '':'' @ show_u64 price_sats @ ''}''\<rparr>"

definition with_body :: "endpoint_config \<Rightarrow> string \<Rightarrow> endpoint_config" where
  "with_body ec body = ec\<lparr>ec_response_body := body\<rparr>"

type_synonym challenge_registry = "(string \<times> pending_challenge) list"

record shared_state =
  ss_endpoints :: "string \<Rightarrow> endpoint_config option"
  ss_challenges :: challenge_registry

definition server_start :: "(string \<Rightarrow> endpoint_config option) \<Rightarrow> shared_state" where
  "server_start endpoints = \<lparr>ss_endpoints = endpoints, ss_challenges = []\<rparr>"

definition server_endpoint ::
  "(string \<Rightarrow> endpoint_config option) \<Rightarrow> string \<Rightarrow> endpoint_config \<Rightarrow> string \<Rightarrow> endpoint_config option" where
  "server_endpoint endpoints path ec = endpoints(path \<mapsto> ec)"

definition server_url :: "string \<Rightarrow> string" where
  "server_url addr = ''http://'' @ addr"

definition validate_l402_auth :: "crypto \<Rightarrow> string \<Rightarrow> shared_state \<Rightarrow> bool option" where
  "validate_l402_auth C auth st =
     (case (case strip_prefix ''L402 '' auth of Some r \<Rightarrow> Some r | None \<Rightarrow> strip_prefix ''LSAT '' auth) of
        None \<Rightarrow> None
      | Some stripped \<Rightarrow>
         (case split_once (CHR '':'') stripped of
            None \<Rightarrow> None
          | Some (macaroon, preimage) \<Rightarrow>
              Some (list_ex (\<lambda>(_, c). validate_auth C c macaroon preimage) (ss_challenges st))))"

text \<open>A response: status, \<open>www-authenticate\<close>, body. A header value that does not parse panics.\<close>

type_synonym mock_response = "u16 \<times> string option \<times> string"

definition issue_challenge ::
  "crypto \<Rightarrow> (string \<Rightarrow> string + string) \<Rightarrow> string \<Rightarrow> endpoint_config \<Rightarrow> shared_state
   \<Rightarrow> (mock_response, 'e) rres \<times> shared_state" where
  "issue_challenge C header_value preimage_bytes config st =
     (case generate C preimage_bytes (ec_price_sats config) of
        Ok challenge \<Rightarrow>
         (let www_auth = to_www_authenticate challenge;
              st1 = st\<lparr>ss_challenges := AList.update (pc_invoice challenge) challenge (ss_challenges st)\<rparr> in
          case header_value www_auth of
            Inl e \<Rightarrow> (Panic, st1)
          | Inr v \<Rightarrow> (Ok (402, Some v, ''payment required''), st1))
      | Err e \<Rightarrow> (Err e, st)
      | Panic \<Rightarrow> (Panic, st))"

definition handle_request ::
  "crypto \<Rightarrow> (string \<Rightarrow> string + string) \<Rightarrow> (string \<Rightarrow> string option) \<Rightarrow> string \<Rightarrow> string option \<Rightarrow> string
   \<Rightarrow> shared_state \<Rightarrow> (mock_response, 'e) rres \<times> shared_state" where
  "handle_request C header_value to_str preimage_bytes authorization path st =
     (case ss_endpoints st path of
        None \<Rightarrow> (Ok (404, None, ''not found''), st)
      | Some config \<Rightarrow>
         (case Option.bind authorization (\<lambda>auth. Option.bind (to_str auth) (\<lambda>auth_str.
                 validate_l402_auth C auth_str st)) of
            Some True \<Rightarrow> (Ok (200, None, ec_response_body config), st)
          | Some False \<Rightarrow> (Ok (401, None, ''invalid L402 token''), st)
          | None \<Rightarrow> issue_challenge C header_value preimage_bytes config st))"

section \<open>The backend\<close>

record mock_ln_backend =
  mb_challenges :: challenge_registry
  mb_balance :: u64

definition mock_backend :: "challenge_registry \<Rightarrow> mock_ln_backend" where
  "mock_backend challenges = \<lparr>mb_challenges = challenges, mb_balance = 1000000\<rparr>"

definition set_balance :: "u64 \<Rightarrow> mock_ln_backend \<Rightarrow> mock_ln_backend" where
  "set_balance sats b = b\<lparr>mb_balance := sats\<rparr>"

definition mock_supports_fee_limit :: bool where
  "mock_supports_fee_limit = True"

definition mock_pay_invoice ::
  "mock_ln_backend \<Rightarrow> string \<Rightarrow> u64 \<Rightarrow> (payment_result, client_error) rres \<times> mock_ln_backend" where
  "mock_pay_invoice b bolt11 max_fee_sats =
     (case map_of (mb_challenges b) bolt11 of
        None \<Rightarrow> (Err (PaymentRejected (''unknown invoice: '' @ bolt11)), b)
      | Some challenge \<Rightarrow>
          if mb_balance b < pc_amount_sats challenge
          then (Err (PaymentRejected (''insufficient balance: have '' @ show_u64 (mb_balance b)
                 @ '' sats, need '' @ show_u64 (pc_amount_sats challenge))), b)
          else (Ok \<lparr>pr_preimage = pc_preimage challenge, pr_payment_hash = pc_payment_hash challenge,
                    pr_amount_sats = pc_amount_sats challenge, pr_fee_sats = 0\<rparr>,
                b\<lparr>mb_balance := mb_balance b - pc_amount_sats challenge\<rparr>))"

definition mock_get_balance :: "mock_ln_backend \<Rightarrow> (u64, client_error) rres" where
  "mock_get_balance b = Ok (mb_balance b)"

definition mock_get_info :: "(node_info, client_error) rres" where
  "mock_get_info = Ok \<lparr>
     ni_pubkey = ''mock_pubkey_000000000000000000000000000000000000000000000000000000000000'',
     ni_alias = ''l402-mock'', ni_num_active_channels = 1\<rparr>"

section \<open>Challenges are well formed\<close>

definition is_lower_hex :: "char \<Rightarrow> bool" where
  "is_lower_hex c \<longleftrightarrow> is_ascii_digit c \<or> (97 \<le> byte c \<and> byte c \<le> 102)"

text \<open>What is relied on of the other crates: hex is lower case and decodes again, base64 output has
  no quote or colon and is accepted by the decoder.\<close>

definition crypto_ok :: "crypto \<Rightarrow> b64_decode \<Rightarrow> bool" where
  "crypto_ok C std \<longleftrightarrow>
     (\<forall>b. hex_decode C (hex_encode C b) = Some b \<and> list_all is_lower_hex (hex_encode C b))
   \<and> (\<forall>b. \<not> isl (std (b64_encode C b)) \<and> CHR 0x22 \<notin> set (b64_encode C b)
          \<and> CHR '':'' \<notin> set (b64_encode C b))"

lemma lower_hex_lower: "is_lower_hex c \<Longrightarrow> to_lower_char c = c"
  by (auto simp: is_lower_hex_def to_lower_char_def is_ascii_digit_def)

lemma safe_hash_no_1: "CHR ''1'' \<notin> set (safe_hash h)"
  by (auto simp: safe_hash_def dest!: in_set_takeD split: if_splits)

lemma safe_hash_lower:
  assumes "list_all is_lower_hex h"
  shows "to_ascii_lowercase (safe_hash h) = safe_hash h"
proof (rule to_ascii_lowercase_id)
  fix c assume "c \<in> set (safe_hash h)"
  then have "c = CHR ''x'' \<or> is_lower_hex c"
    using assms by (auto simp: safe_hash_def list_all_iff dest!: in_set_takeD split: if_splits)
  moreover have "to_lower_char (CHR ''x'') = CHR ''x''" by (simp add: to_lower_char_def byte_def)
  ultimately show "to_lower_char c = c" using lower_hex_lower by blast
qed

lemma show_nat_lower: "to_ascii_lowercase (show_nat n) = show_nat n"
  using show_nat_digits [of n] by (intro to_ascii_lowercase_digits)

lemma quote_not_hex: "\<not> is_lower_hex (CHR 0x22)"
  by (simp add: is_lower_hex_def is_ascii_digit_def byte_def)

text \<open>The amount of an invoice of the two forms.\<close>

lemma decode_mock_form:
  assumes "list_all is_lower_hex h" and "mult = ''u'' \<or> mult = ''n''"
  shows "decode_bolt11_amount (''lnbc'' @ show_nat n @ mult @ ''1mock'' @ safe_hash h)
    = decode_amount_str (show_nat n @ mult)"
proof (rule decode_rendered [of "''lnbc''" _ "''mock'' @ safe_hash h"])
  have "is_ascii_digit (hd (show_nat n @ mult))"
    using show_nat_digits [of n] by (simp add: list_all_iff)
  then show "show_nat n @ mult = [] \<or> is_ascii_digit (hd (show_nat n @ mult))" by simp
  show "CHR ''1'' \<notin> set (''mock'' @ safe_hash h)" using safe_hash_no_1 by simp
  show "to_ascii_lowercase (''lnbc'' @ show_nat n @ mult @ ''1mock'' @ safe_hash h) =
      ''lnbc'' @ (show_nat n @ mult) @ CHR ''1'' # ''mock'' @ safe_hash h"
    using assms(2) unfolding to_ascii_lowercase_append show_nat_lower safe_hash_lower [OF assms(1)]
    by (elim disjE) (simp_all add: to_ascii_lowercase_def to_lower_char_def byte_def)
qed simp

lemma decode_amount_field:
  assumes "mult = ''u'' \<or> mult = ''n''" and "n < 2 ^ 64" and "msat_value n mult = Some (unat m)" and "0 < unat m"
  shows "decode_amount_str (show_nat n @ mult) = Ok (Some (InvoiceAmount m))"
  using amount_field_digits [OF show_nat_ne show_nat_digits, of mult n m] assms
  by (auto simp: decode_amount_str_Ok_Some)

lemma mock_invoice_amount:
  assumes "list_all is_lower_hex h" and "0 < amount" and "unat amount * 1000 < 2 ^ 64"
  shows "\<exists>i. mock_invoice h amount = (Ok i :: (string, 'e) rres)
    \<and> decode_bolt11_amount i = Ok (Some (InvoiceAmount (amount * 1000))) \<and> starts_with ''lnbc'' i
    \<and> CHR 0x22 \<notin> set i \<and> to_ascii_lowercase i = i"
proof -
  have m: "unat (amount * 1000) = unat amount * 1000"
    using assms(3) by (subst unat_mul_u64_no_overflow) simp_all
  have pos: "0 < unat amount" using assms(2) by (simp add: word_less_nat_alt)
  have dq: "CHR 0x22 \<notin> set (show_nat n)" for n
    using show_nat_digits [of n] by (auto simp: list_all_iff is_ascii_digit_def byte_def)
  have sq: "CHR 0x22 \<notin> set (safe_hash h)"
    using assms(1) quote_not_hex by (auto simp: safe_hash_def list_all_iff dest!: in_set_takeD
        split: if_splits)
  have lower: "to_ascii_lowercase (''lnbc'' @ show_nat n @ mult @ ''1mock'' @ safe_hash h)
      = ''lnbc'' @ show_nat n @ mult @ ''1mock'' @ safe_hash h" if "mult = ''u'' \<or> mult = ''n''" for n mult
    using that unfolding to_ascii_lowercase_append show_nat_lower safe_hash_lower [OF assms(1)]
    by (elim disjE) (simp_all add: to_ascii_lowercase_def to_lower_char_def byte_def)
  show ?thesis
  proof (cases "100 \<le> amount \<and> amount mod 100 = 0")
    case True
    then have d: "unat amount mod 100 = 0" using unat_mod [of amount 100] by (simp add: word_unat_eq_iff)
    have v: "msat_value (unat amount div 100) ''u'' = Some (unat (amount * 1000))"
      using d m by (simp add: msat_value_def) (metis div_mult_mod_eq add.right_neutral mult.assoc
        num_double numeral_times_numeral mult_numeral_1 mult.commute numeral_One)
    show ?thesis
      using True decode_mock_form [OF assms(1), of "''u''" "unat amount div 100"]
        decode_amount_field [OF _ _ v] m pos dq sq lower [of "''u''" "unat amount div 100"]
        div_le_dividend [of "unat amount" 100] unat_u64_less [of amount]
      by (simp add: mock_invoice_def show_u64_def unat_div starts_with_def del: unat_u64_less)
  next
    case False
    have l: "unat amount * 10 < 2 ^ 64" using assms(3) by simp
    then have t: "mul_u64 amount 10 = (Ok (amount * 10) :: (u64, 'e) rres)"
      "unat (amount * 10) = unat amount * 10"
      by (simp_all add: mul_u64_def unat_mul_u64_no_overflow)
    have v: "msat_value (unat amount * 10) ''n'' = Some (unat (amount * 1000))"
      using m by (simp add: msat_value_def)
    show ?thesis
      using False decode_mock_form [OF assms(1), of "''n''" "unat amount * 10"]
        decode_amount_field [OF _ _ v] m pos dq sq lower [of "''n''" "unat amount * 10"] l t
      by (auto simp: mock_invoice_def show_u64_def starts_with_def)
  qed
qed

lemma to_www_authenticate_render:
  "to_www_authenticate c = ''L402 '' @ render_params [(''macaroon'', pc_macaroon c), (''invoice'', pc_invoice c)]"
  by (simp add: to_www_authenticate_def quoted_def)

lemma generate_Ok:
  assumes "crypto_ok C std" and "0 < amount" and "unat amount * 1000 < 2 ^ 64"
  shows "\<exists>c. generate C bytes amount = (Ok c :: (pending_challenge, 'e) rres)
    \<and> pc_amount_sats c = amount \<and> pc_preimage c = hex_encode C bytes
    \<and> pc_payment_hash c = hex_encode C (sha256 C bytes)
    \<and> invoice_amount_sats (pc_invoice c) = Ok amount
    \<and> to_ascii_lowercase (pc_invoice c) = pc_invoice c
    \<and> (\<exists>b. pc_macaroon c = b64_encode C b)
    \<and> challenge_from_header std url (to_www_authenticate c)
        = Ok \<lparr>c_macaroon = pc_macaroon c, c_invoice = pc_invoice c, c_address = None\<rparr>"
proof -
  have hex: "list_all is_lower_hex (hex_encode C (sha256 C bytes))" using assms(1) by (simp add: crypto_ok_def)
  obtain i where i: "mock_invoice (hex_encode C (sha256 C bytes)) amount = (Ok i :: (string, 'e) rres)"
    "decode_bolt11_amount i = Ok (Some (InvoiceAmount (amount * 1000)))" "starts_with ''lnbc'' i"
    "CHR 0x22 \<notin> set i" "to_ascii_lowercase i = i"
    using mock_invoice_amount [OF hex assms(2,3)] by blast
  obtain c where c: "generate C bytes amount = (Ok c :: (pending_challenge, 'e) rres)"
    "pc_amount_sats c = amount" "pc_preimage c = hex_encode C bytes" "pc_invoice c = i"
    "pc_payment_hash c = hex_encode C (sha256 C bytes)" "\<exists>b. pc_macaroon c = b64_encode C b"
    using i(1) by (auto simp: generate_def Let_def)
  have m: "unat (amount * 1000) = unat amount * 1000"
    using assms(3) by (subst unat_mul_u64_no_overflow) simp_all
  have "satoshis (InvoiceAmount (amount * 1000)) = amount"
    by (simp add: satoshis_def word_unat_eq_iff unat_div_ceil_1000 m)
  then have sats: "invoice_amount_sats i = Ok amount" by (simp add: invoice_amount_sats_def i(2))
  let ?kvs = "[(''macaroon'', pc_macaroon c), (''invoice'', i)]"
  have mac: "CHR 0x22 \<notin> set (pc_macaroon c)" "\<not> isl (std (pc_macaroon c))"
    using c(6) assms(1) by (auto simp: crypto_ok_def)
  have "params_ok ?kvs"
    using mac(1) i(4) by (simp add: params_ok_def key_ok_def value_ok_def solid_char_def str_eval)
  moreover have "binding ?kvs ''macaroon'' = Some (pc_macaroon c)" "binding ?kvs ''invoice'' = Some i"
    "binding ?kvs ''address'' = None"
    by (simp_all add: binding_def str_eval)
  ultimately have "challenge_from_header std url (''L402 '' @ render_params ?kvs)
      = Ok \<lparr>c_macaroon = pc_macaroon c, c_invoice = i, c_address = None\<rparr>"
    using challenge_from_rendered [of ?kvs "''L402 ''" std url] mac(2) i(3)
    by (simp add: finish_challenge_Ok_iff)
  then show ?thesis using c sats i(5) by (simp add: to_www_authenticate_render)
qed

section \<open>The server accepts what the backend sold\<close>

lemma validate_paid:
  assumes "crypto_ok C std" and "(i, c) \<in> set (ss_challenges st)"
    and "pc_preimage c = hex_encode C bytes" and "pc_payment_hash c = hex_encode C (sha256 C bytes)"
    and "pc_macaroon c = b64_encode C b"
  shows "validate_l402_auth C (to_header_value (token_new (pc_macaroon c) (pc_preimage c))) st = Some True"
proof -
  have "CHR '':'' \<notin> set (pc_macaroon c)" using assms(1,5) by (simp add: crypto_ok_def)
  then have s: "split_once (CHR '':'') (pc_macaroon c @ CHR '':'' # pc_preimage c) = Some (pc_macaroon c, pc_preimage c)"
    by (rule split_once_append)
  have v: "validate_auth C c (pc_macaroon c) (pc_preimage c)"
    using assms(1,3,4) by (simp add: validate_auth_def validate_preimage_def crypto_ok_def)
  have "strip_prefix ''L402 '' (to_header_value (token_new (pc_macaroon c) (pc_preimage c)))
      = Some (pc_macaroon c @ CHR '':'' # pc_preimage c)"
    by (simp add: to_header_value_def token_new_def strip_prefix_def starts_with_def)
  then show ?thesis using assms(2) v by (auto simp: validate_l402_auth_def s list_ex_iff)
qed

section \<open>The client against the server\<close>

text \<open>
  A world with the mock server, the mock backend that shares its registry, and the in-memory token
  store. A response comes from the URL that was asked for. The URL functions are parameters.
\<close>

record mock_world =
  mw_server :: shared_state
  mw_balance :: u64
  mw_cache :: cache_inner
  mw_random :: "nat \<Rightarrow> string"
  mw_served :: nat

definition mock_send ::
  "crypto \<Rightarrow> (string \<Rightarrow> string + parsed_url) \<Rightarrow> (string \<Rightarrow> string) \<Rightarrow> mock_world \<Rightarrow> http_request
   \<Rightarrow> (string + http_response) \<times> mock_world" where
  "mock_send C urlp path w rq =
     (case handle_request C Inr Some (mw_random w (mw_served w)) (rq_authorization rq)
             (path (rq_url rq)) (mw_server w) :: (mock_response, client_error) rres \<times> shared_state of
        (Ok (st, www, body), srv) \<Rightarrow>
          (Inr \<lparr>rs_status = st,
             rs_origin = (case urlp (rq_url rq) of Inl _ \<Rightarrow> [] | Inr u \<Rightarrow> u_origin u),
             rs_www_authenticate = www, rs_body = body\<rparr>,
           w\<lparr>mw_server := srv, mw_served := Suc (mw_served w)\<rparr>)
      | (_, srv) \<Rightarrow> (Inl ''connection closed'', w\<lparr>mw_server := srv, mw_served := Suc (mw_served w)\<rparr>))"

definition mock_pay :: "mock_world \<Rightarrow> string \<Rightarrow> u64 \<Rightarrow> (payment_result, client_error) rres \<times> mock_world" where
  "mock_pay w bolt11 max_fee =
     (case mock_pay_invoice \<lparr>mb_challenges = ss_challenges (mw_server w), mb_balance = mw_balance w\<rparr>
             bolt11 max_fee of
        (r, b) \<Rightarrow> (r, w\<lparr>mw_balance := mb_balance b\<rparr>))"

definition mock_env ::
  "crypto \<Rightarrow> b64_decode \<Rightarrow> b64_decode \<Rightarrow> (string \<Rightarrow> string + parsed_url) \<Rightarrow> (string \<Rightarrow> string) \<Rightarrow> u64
   \<Rightarrow> mock_world env" where
  "mock_env C std url urlp path t = \<lparr>
     e_send = mock_send C urlp path,
     e_supports_fee_limit = (\<lambda>_. mock_supports_fee_limit),
     e_pay_invoice = mock_pay,
     e_put = (\<lambda>w e m p. case cache_put (mw_cache w) e m p of (r, c) \<Rightarrow> (r, w\<lparr>mw_cache := c\<rparr>)),
     e_get = (\<lambda>w e. (cache_get (mw_cache w) e, w)),
     e_remove = (\<lambda>w e. case cache_remove (mw_cache w) e of (r, c) \<Rightarrow> (r, w\<lparr>mw_cache := c\<rparr>)),
     e_clock = (\<lambda>_. Some t), e_instant = (\<lambda>_. 0),
     e_url_parse = urlp, e_header_value = Inr, e_header_to_str = Some, e_b64_std = std, e_b64_url = url\<rparr>"

text \<open>The five stages of a paying request, each on an arbitrary log.\<close>

lemma stage_plain:
  assumes "ss_endpoints (mw_server w) (path u) = Some ec" and "urlp u = Inr pu"
    and "generate C (mw_random w (mw_served w)) (ec_price_sats ec) = (Ok c :: (pending_challenge, client_error) rres)"
  shows "\<exists>l'. send_request (mock_env C std url urlp path t) meth u body \<lparr>sy_ext = w, sy_cl = cl, sy_log = l\<rparr>
    = (Ok \<lparr>rs_status = 402, rs_origin = u_origin pu, rs_www_authenticate = Some (to_www_authenticate c),
           rs_body = ''payment required''\<rparr>,
       \<lparr>sy_ext = w\<lparr>mw_server := (mw_server w)\<lparr>ss_challenges :=
             AList.update (pc_invoice c) c (ss_challenges (mw_server w))\<rparr>,
           mw_served := Suc (mw_served w)\<rparr>, sy_cl = cl, sy_log = l'\<rparr>)"
  using assms
  by (simp add: send_request_def send_checked_def mock_env_def mock_send_def handle_request_def
      issue_challenge_def Let_def log_call_def)

lemma stage_pay:
  assumes "map_of (ss_challenges (mw_server w)) (pc_invoice c) = Some c"
    and "\<not> mw_balance w < pc_amount_sats c" and "pc_amount_sats c = price"
    and "to_ascii_lowercase (pc_invoice c) = pc_invoice c"
    and "reserve_at limits price (cfg_max_fee_sats cfg) domain t tracker_new = (Ok rv, b)"
    and "map_of (bs_pending b) (rv_id rv) = Some (reserved, domain)" and "price \<le> reserved"
    and "p = \<lparr>pr_preimage = pc_preimage c, pr_payment_hash = pc_payment_hash c, pr_amount_sats = price, pr_fee_sats = 0\<rparr>"
  shows "\<exists>l'. pay_challenge (mock_env C std url urlp path t) limits cfg (pc_invoice c) price domain u 0
      \<lparr>sy_ext = w, sy_cl = client_start, sy_log = l\<rparr>
    = (Ok (p, 0, True), \<lparr>sy_ext = w\<lparr>mw_balance := mw_balance w - price\<rparr>,
        sy_cl = client_start\<lparr>cl_budget := snd (settle_at rv price t False b),
          cl_receipts := [\<lparr>rc_timestamp = t, rc_endpoint = u, rc_amount_sats = price, rc_fee_sats = 0,
             rc_payment_hash = pc_payment_hash c, rc_preimage = pc_preimage c,
             rc_response_status = 0, rc_latency_ms = 0\<rparr>],
          cl_payments := [pc_invoice c \<mapsto> Some (p, 0)]\<rparr>,
        sy_log = l'\<rparr>)"
proof -
  let ?E = "mock_env C std url urlp path t"
  have pay: "e_pay_invoice ?E w (pc_invoice c) fee = (Ok p, w\<lparr>mw_balance := mw_balance w - price\<rparr>)" for fee
    using assms(1-3,8) by (simp add: mock_env_def mock_pay_def mock_pay_invoice_def)
  have tot: "payment_total p = Some price" using assms(8) by (simp add: payment_total_def checked_add_def)
  have viol: "\<not> payment_violation price (rv_max_fee_sats rv) p"
    using assms(8) tot by (simp add: payment_violation_def)
  obtain b' where st: "settle_at rv price t False b = (Ok (), b')"
    using assms(7) leD [OF assms(7)] by (auto simp: settle_at_eq [OF assms(6)])
  have sel: "pr_preimage p = pc_preimage c" "pr_payment_hash p = pc_payment_hash c"
    "pr_amount_sats p = price" "pr_fee_sats p = 0" by (simp_all add: assms(8))
  have E: "e_supports_fee_limit ?E w" "now_secs ?E x = t" "e_clock ?E x = Some t" "elapsed_ms ?E 0 x = 0" for x
    by (simp_all add: mock_env_def mock_supports_fee_limit_def now_secs_def elapsed_ms_def)
  show ?thesis
    using assms(5)
    by (simp add: pay_challenge_def Let_def assms(4) on_cl_eq claim_def client_start_def E
      bind_act_def pay_new_def call_pay_def pay log_call_def after_payment_def payment_receipt_def
      receipt_new_def viol sel st push_receipt_def settle_payment_def tot commit_payment_def)
qed

lemma stage_keep:
  assumes "cl_unpersisted cl u = None"
  shows "\<exists>l'. persist_token (mock_env C std url urlp path t) u token \<lparr>sy_ext = w, sy_cl = cl, sy_log = l\<rparr>
    = (Ok (), \<lparr>sy_ext = w\<lparr>mw_cache := snd (cache_put (mw_cache w) u (tk_macaroon token) (tk_preimage token))\<rparr>,
        sy_cl = cl, sy_log = l'\<rparr>)"
proof -
  obtain c' where "cache_put (mw_cache w) u (tk_macaroon token) (tk_preimage token) = (Ok (), c')"
    by (simp add: cache_put_def Let_def)
  moreover have "(cl_unpersisted cl)(u := None) = cl_unpersisted cl"
    using assms by (simp add: fun_upd_idem_iff)
  ultimately show ?thesis
    by (simp add: persist_token_def on_cl_eq keep_unpersisted_def store_put_def mock_env_def log_call_def
        bind_act_def drop_if_saved_def drop_unpersisted_def)
qed

lemma stage_retry:
  assumes "ss_endpoints (mw_server w) (path u) = Some ec" and "urlp u = Inr pu"
    and "validate_l402_auth C (to_header_value token) (mw_server w) = Some True"
  shows "\<exists>l'. send_with_auth (mock_env C std url urlp path t) meth u body token \<lparr>sy_ext = w, sy_cl = cl, sy_log = l\<rparr>
    = (Ok \<lparr>rs_status = 200, rs_origin = u_origin pu, rs_www_authenticate = None,
           rs_body = ec_response_body ec\<rparr>,
       \<lparr>sy_ext = w\<lparr>mw_served := Suc (mw_served w)\<rparr>, sy_cl = cl, sy_log = l'\<rparr>)"
  using assms
  by (simp add: send_with_auth_def send_checked_def mock_env_def mock_send_def handle_request_def
      log_call_def)

lemma reserved_covers:
  assumes "reserve_at limits price cap domain t tracker_new = (Ok rv, b)"
  shows "\<exists>reserved. map_of (bs_pending b) (rv_id rv) = Some (reserved, domain) \<and> price \<le> reserved"
proof -
  let ?w = "\<lparr>w_st = tracker_new, w_now = t, w_paid = []\<rparr>"
  have "tracker_sane limits tracker_new domain t"
    using inv_sane [OF inv_start [of limits t], where domain = domain] by (simp add: tracker_new_def)
  from reserve_at_cases(3) [OF this, of price cap rv] assms
  have r: "rv_id rv = 0" "unat price + unat (rv_max_fee_sats rv) < 2 ^ 64"
    "b = tracker_new\<lparr>bs_next_id := 1, bs_pending := [(0, price + rv_max_fee_sats rv, domain)]\<rparr>"
    by (auto simp: tracker_new_def)
  then show ?thesis using unat_add_u64_no_overflow [OF r(2)] by (simp add: word_le_nat_alt)
qed

text \<open>From the first answer to the payment.\<close>

lemma stage_buy:
  assumes "crypto_ok C std"
    and "ss_endpoints (mw_server w) (path u) = Some ec" and "urlp u = Inr pu"
    and "0 < ec_price_sats ec" and "unat (ec_price_sats ec) * 1000 < 2 ^ 64"
    and "ec_price_sats ec \<le> mw_balance w"
    and "reserve_at limits (ec_price_sats ec) (cfg_max_fee_sats cfg)
           (request_domain (mock_env C std url urlp path t) u) t tracker_new = (Ok rv, b)"
  shows "\<exists>demand s1 ch p w2 cl2 l2 rc. send_request (mock_env C std url urlp path t) meth u body
        \<lparr>sy_ext = w, sy_cl = client_start, sy_log = []\<rparr> = (Ok demand, s1)
    \<and> rs_status demand = PAYMENT_REQUIRED
    \<and> extract_challenge (mock_env C std url urlp path t) demand = Ok ch
    \<and> invoice_amount_sats (c_invoice ch) = Ok (ec_price_sats ec)
    \<and> pay_challenge (mock_env C std url urlp path t) limits cfg (c_invoice ch) (ec_price_sats ec)
        (request_domain (mock_env C std url urlp path t) u) u 0 s1
        = (Ok (p, 0, True), \<lparr>sy_ext = w2, sy_cl = cl2, sy_log = l2\<rparr>)
    \<and> cl_unpersisted cl2 u = None \<and> cl_receipts cl2 = [rc]
    \<and> rc_amount_sats rc = ec_price_sats ec \<and> rc_fee_sats rc = 0
    \<and> mw_balance w2 = mw_balance w - ec_price_sats ec \<and> ss_endpoints (mw_server w2) (path u) = Some ec
    \<and> validate_l402_auth C (to_header_value (token_new (c_macaroon ch) (pr_preimage p))) (mw_server w2) = Some True"
proof -
  let ?E = "mock_env C std url urlp path t" and ?price = "ec_price_sats ec"
  obtain c where c: "generate C (mw_random w (mw_served w)) ?price = (Ok c :: (pending_challenge, client_error) rres)"
    "pc_amount_sats c = ?price" "pc_preimage c = hex_encode C (mw_random w (mw_served w))"
    "pc_payment_hash c = hex_encode C (sha256 C (mw_random w (mw_served w)))"
    "invoice_amount_sats (pc_invoice c) = Ok ?price" "to_ascii_lowercase (pc_invoice c) = pc_invoice c"
    "\<exists>b. pc_macaroon c = b64_encode C b"
    "challenge_from_header std url (to_www_authenticate c)
        = Ok \<lparr>c_macaroon = pc_macaroon c, c_invoice = pc_invoice c, c_address = None\<rparr>"
    using generate_Ok [OF assms(1,4,5), of "mw_random w (mw_served w)" url] by metis
  let ?ch = "\<lparr>c_macaroon = pc_macaroon c, c_invoice = pc_invoice c, c_address = None\<rparr>"
  define w1 where "w1 = w\<lparr>mw_server := (mw_server w)\<lparr>ss_challenges :=
      AList.update (pc_invoice c) c (ss_challenges (mw_server w))\<rparr>, mw_served := Suc (mw_served w)\<rparr>"
  define p where "p = \<lparr>pr_preimage = pc_preimage c, pr_payment_hash = pc_payment_hash c,
      pr_amount_sats = ?price, pr_fee_sats = 0\<rparr>"
  obtain demand l1 where plain: "send_request ?E meth u body \<lparr>sy_ext = w, sy_cl = client_start, sy_log = []\<rparr>
      = (Ok demand, \<lparr>sy_ext = w1, sy_cl = client_start, sy_log = l1\<rparr>)"
    and demand: "rs_status demand = PAYMENT_REQUIRED" "rs_www_authenticate demand = Some (to_www_authenticate c)"
    using stage_plain [where w = w and path = path and u = u and urlp = urlp, OF assms(2,3) c(1)]
    unfolding w1_def PAYMENT_REQUIRED_def by fastforce
  have ch: "extract_challenge ?E demand = Ok ?ch"
    using c(8) by (simp add: extract_challenge_def demand(2) mock_env_def)
  have reg: "map_of (ss_challenges (mw_server w1)) (pc_invoice c) = Some c"
    by (simp add: w1_def update_conv')
  have bal: "\<not> mw_balance w1 < pc_amount_sats c" using assms(6) c(2) by (simp add: w1_def)
  obtain reserved where res: "map_of (bs_pending b) (rv_id rv) = Some (reserved, request_domain ?E u)" "?price \<le> reserved"
    using reserved_covers [OF assms(7)] by blast
  define rc where "rc = \<lparr>rc_timestamp = t, rc_endpoint = u, rc_amount_sats = ?price, rc_fee_sats = 0,
      rc_payment_hash = pc_payment_hash c, rc_preimage = pc_preimage c, rc_response_status = 0, rc_latency_ms = 0\<rparr>"
  define cl2 where "cl2 = client_start\<lparr>cl_budget := snd (settle_at rv ?price t False b),
      cl_receipts := [rc], cl_payments := [pc_invoice c \<mapsto> Some (p, 0)]\<rparr>"
  obtain l2 where pay: "pay_challenge ?E limits cfg (pc_invoice c) ?price (request_domain ?E u) u 0
      \<lparr>sy_ext = w1, sy_cl = client_start, sy_log = l1\<rparr>
      = (Ok (p, 0, True), \<lparr>sy_ext = w1\<lparr>mw_balance := mw_balance w1 - ?price\<rparr>, sy_cl = cl2, sy_log = l2\<rparr>)"
    using stage_pay [OF reg bal c(2) c(6) assms(7) res p_def] unfolding cl2_def rc_def by blast
  have facts: "cl_unpersisted cl2 u = None" "cl_receipts cl2 = [rc]" "rc_amount_sats rc = ?price" "rc_fee_sats rc = 0"
    "mw_balance w1 = mw_balance w" "ss_endpoints (mw_server w1) (path u) = Some ec"
    using assms(2) by (simp_all add: cl2_def rc_def client_start_def w1_def)
  have "validate_l402_auth C (to_header_value (token_new (pc_macaroon c) (pr_preimage p)))
      (mw_server (w1\<lparr>mw_balance := mw_balance w1 - ?price\<rparr>)) = Some True"
    using validate_paid [OF assms(1) _ c(3,4)] map_of_SomeD [OF reg] c(7) by (auto simp: p_def)
  then show ?thesis using plain demand(1) ch c(5) pay facts
    by (intro exI [of _ demand] exI [of _ "\<lparr>sy_ext = w1, sy_cl = client_start, sy_log = l1\<rparr>"] exI [of _ ?ch]
        exI [of _ p] exI [of _ "w1\<lparr>mw_balance := mw_balance w1 - ?price\<rparr>"] exI [of _ cl2] exI [of _ l2]
        exI [of _ rc]) simp
qed

section \<open>Properties\<close>

text \<open>C8. A request of a new client for a protected resource of the mock server succeeds: if the
  price is positive, fits the budget and the balance, and the cache has no token, the client reads
  the challenge, pays exactly the price, and gets the resource; the receipt has the price and the
  final status, the balance is reduced by the price, and the token is in the cache.\<close>

theorem client_pays_mock_server:
  assumes "crypto_ok C std"
    and "ss_endpoints (mw_server w) (path u) = Some ec" and "urlp u = Inr pu"
    and "0 < ec_price_sats ec" and "unat (ec_price_sats ec) * 1000 < 2 ^ 64"
    and "ec_price_sats ec \<le> mw_balance w"
    and "cache_get (mw_cache w) u = Ok None"
    and "reserve_at limits (ec_price_sats ec) (cfg_max_fee_sats cfg)
           (request_domain (mock_env C std url urlp path t) u) t tracker_new = (Ok rv, b)"
  shows "\<exists>x s' rc. request (mock_env C std url urlp path t) limits cfg meth u body
        \<lparr>sy_ext = w, sy_cl = client_start, sy_log = []\<rparr> = (Ok x, s')
    \<and> status x = 200 \<and> rs_body (lr_inner x) = ec_response_body ec \<and> lr_paid x \<and> \<not> lr_cached_token x
    \<and> lr_receipt x = Some rc \<and> rc_amount_sats rc = ec_price_sats ec \<and> rc_fee_sats rc = 0
    \<and> rc_response_status rc = 200 \<and> cl_receipts (sy_cl s') = [rc]
    \<and> mw_balance (sy_ext s') = mw_balance w - ec_price_sats ec
    \<and> (\<exists>m p. cache_get (mw_cache (sy_ext s')) u = Ok (Some (m, p)))"
proof -
  let ?E = "mock_env C std url urlp path t" and ?s = "\<lparr>sy_ext = w, sy_cl = client_start, sy_log = []\<rparr>"
  obtain demand s1 ch p w2 cl2 l2 rc where buy: "send_request ?E meth u body ?s = (Ok demand, s1)"
    "rs_status demand = PAYMENT_REQUIRED" "extract_challenge ?E demand = Ok ch"
    "invoice_amount_sats (c_invoice ch) = Ok (ec_price_sats ec)"
    and pay: "pay_challenge ?E limits cfg (c_invoice ch) (ec_price_sats ec) (request_domain ?E u) u 0 s1
        = (Ok (p, 0, True), \<lparr>sy_ext = w2, sy_cl = cl2, sy_log = l2\<rparr>)"
    and st: "cl_unpersisted cl2 u = None" "cl_receipts cl2 = [rc]"
    "rc_amount_sats rc = ec_price_sats ec" "rc_fee_sats rc = 0"
    "mw_balance w2 = mw_balance w - ec_price_sats ec" "ss_endpoints (mw_server w2) (path u) = Some ec"
    "validate_l402_auth C (to_header_value (token_new (c_macaroon ch) (pr_preimage p))) (mw_server w2) = Some True"
    using stage_buy [where w = w and path = path and u = u and urlp = urlp and url = url and t = t and meth = meth
        and body = body, OF assms(1-6,8)] by blast
  let ?t = "token_new (c_macaroon ch) (pr_preimage p)"
  define w3 where "w3 = w2\<lparr>mw_cache := snd (cache_put (mw_cache w2) u (tk_macaroon ?t) (tk_preimage ?t))\<rparr>"
  let ?ok = "\<lparr>rs_status = 200, rs_origin = u_origin pu, rs_www_authenticate = None, rs_body = ec_response_body ec\<rparr>"
  obtain l3 where keep: "persist_token ?E u ?t \<lparr>sy_ext = w2, sy_cl = cl2, sy_log = l2\<rparr>
      = (Ok (), \<lparr>sy_ext = w3, sy_cl = cl2, sy_log = l3\<rparr>)" using stage_keep [OF st(1)] unfolding w3_def by blast
  have w3: "ss_endpoints (mw_server w3) (path u) = Some ec"
    "validate_l402_auth C (to_header_value ?t) (mw_server w3) = Some True" using st(6,7) by (simp_all add: w3_def)
  obtain l4 where retry: "send_with_auth ?E meth u body ?t \<lparr>sy_ext = w3, sy_cl = cl2, sy_log = l3\<rparr>
      = (Ok ?ok, \<lparr>sy_ext = w3\<lparr>mw_served := Suc (mw_served w3)\<rparr>, sy_cl = cl2, sy_log = l4\<rparr>)"
    using stage_retry [where w = w3 and path = path and u = u and urlp = urlp, OF w3(1) assms(3) w3(2)] by blast
  have find: "find_token ?E u ?s = (Ok None, ?s)"
    using assms(7) by (simp add: find_token_def client_start_def store_get_def mock_env_def bind_act_def)
  have start: "e_instant ?E (sy_ext ?s) = 0" by (simp add: mock_env_def)
  let ?rc = "rc\<lparr>rc_response_status := 200, rc_latency_ms := elapsed_ms ?E 0 (w3\<lparr>mw_served := Suc (mw_served w3)\<rparr>)\<rparr>"
  have up: "update_receipt 0 (rs_status ?ok) (elapsed_ms ?E 0 (w3\<lparr>mw_served := Suc (mw_served w3)\<rparr>)) cl2
      = (Ok ?rc, cl2\<lparr>cl_receipts := [?rc]\<rparr>)" using st(2) by (simp add: update_receipt_def Let_def)
  have run: "request ?E limits cfg meth u body ?s =
     (Ok \<lparr>lr_inner = ?ok, lr_paid = True, lr_cached_token = \<not> True, lr_receipt = Some ?rc\<rparr>,
      \<lparr>sy_ext = w3\<lparr>mw_served := Suc (mw_served w3)\<rparr>, sy_cl = cl2, sy_log = l4\<rparr>\<lparr>sy_cl := cl2\<lparr>cl_receipts := [?rc]\<rparr>\<rparr>)"
    by (rule request_paid [OF find buy(1-4) _ keep retry, unfolded start, OF pay])
      (use up in \<open>simp_all add: PAYMENT_REQUIRED_def\<close>)
  have "cache_get (mw_cache w3) u = Ok (Some (tk_macaroon ?t, tk_preimage ?t))"
    by (simp add: w3_def cache_get_put_same)
  then show ?thesis using st(3-5) by (simp add: run status_def w3_def)
qed

text \<open>An instance of the other crates' functions for which all that is relied on holds: bytes in two
  hexadecimal digits, also in place of base64.\<close>

definition hex_digit :: "nat \<Rightarrow> char" where
  "hex_digit n = char_of (if n < 10 then 48 + n else 87 + n)"

definition hex_value :: "char \<Rightarrow> nat" where
  "hex_value c = (if byte c < 58 then byte c - 48 else byte c - 87)"

fun hex_of :: "string \<Rightarrow> string" where
  "hex_of [] = []"
| "hex_of (c # s) = hex_digit (byte c div 16) # hex_digit (byte c mod 16) # hex_of s"

fun of_hex :: "string \<Rightarrow> string option" where
  "of_hex [] = Some []"
| "of_hex [a] = None"
| "of_hex (a # b # s) = map_option ((#) (char_of (16 * hex_value a + hex_value b))) (of_hex s)"

definition sample_crypto :: crypto where
  "sample_crypto = \<lparr>hex_encode = hex_of, hex_decode = of_hex, sha256 = id, b64_encode = hex_of\<rparr>"

lemma byte_hex_digit: "n < 16 \<Longrightarrow> byte (hex_digit n) = (if n < 10 then 48 + n else 87 + n)"
  by (simp add: hex_digit_def)

lemma hex_digit_facts: "n < 16 \<Longrightarrow> is_lower_hex (hex_digit n) \<and> hex_value (hex_digit n) = n"
  by (simp add: is_lower_hex_def is_ascii_digit_def hex_value_def byte_hex_digit)

lemma hex_of_facts: "of_hex (hex_of s) = Some s \<and> list_all is_lower_hex (hex_of s)"
proof (induction s)
  case (Cons c s)
  have d: "byte c div 16 < 16" "byte c mod 16 < 16" using byte_less [of c] by linarith+
  have "char_of (16 * (byte c div 16) + byte c mod 16) = c" by (simp add: byte_def)
  then show ?case using Cons hex_digit_facts [OF d(1)] hex_digit_facts [OF d(2)] by simp
qed simp

lemma sample_crypto_ok: "crypto_ok sample_crypto Inr"
proof -
  have "\<not> is_lower_hex (CHR '':'')" by (simp add: is_lower_hex_def is_ascii_digit_def byte_def)
  then have "CHR 0x22 \<notin> set (hex_of s) \<and> CHR '':'' \<notin> set (hex_of s)" for s
    using hex_of_facts [of s] quote_not_hex by (auto simp: list_all_iff)
  then show ?thesis using hex_of_facts by (simp add: crypto_ok_def sample_crypto_def)
qed

definition sample_mock :: mock_world where
  "sample_mock = \<lparr>mw_server = server_start [''/a'' \<mapsto> endpoint_new 1000], mw_balance = 5000,
     mw_cache = cache_default, mw_random = (\<lambda>_. ''r''), mw_served = 0\<rparr>"

theorem client_pays_mock_server_witness:
  "\<exists>x s'. request (mock_env sample_crypto Inr Inr (\<lambda>u. Inr \<lparr>u_origin = ''o'', u_host = Some ''h''\<rparr>) id 7200)
     unlimited sample_config ''GET'' ''/a'' None \<lparr>sy_ext = sample_mock, sy_cl = client_start, sy_log = []\<rparr> = (Ok x, s')
     \<and> status x = 200 \<and> lr_paid x \<and> mw_balance (sy_ext s') = 4000"
proof -
  let ?urlp = "\<lambda>u. Inr \<lparr>u_origin = ''o'', u_host = Some ''h''\<rparr> :: string + parsed_url"
  have e: "ss_endpoints (mw_server sample_mock) (id ''/a'') = Some (endpoint_new 1000)"
    by (simp add: sample_mock_def server_start_def)
  have b: "mw_balance sample_mock = 5000" by (simp add: sample_mock_def)
  have p: "ec_price_sats (endpoint_new 1000) = 1000" by (simp add: endpoint_new_def)
  have g: "cache_get (mw_cache sample_mock) ''/a'' = Ok None"
    by (simp add: sample_mock_def cache_default_def cache_new_def cache_get_def)
  have d: "request_domain (mock_env sample_crypto Inr Inr ?urlp id 7200) ''/a'' = Some ''h''"
    by (simp add: request_domain_def mock_env_def trim_end_matches_def)
  have r: "reserve_at unlimited (ec_price_sats (endpoint_new 1000)) (cfg_max_fee_sats sample_config)
      (request_domain (mock_env sample_crypto Inr Inr ?urlp id 7200) ''/a'') 7200 tracker_new
    = (Ok \<lparr>rv_id = 0, rv_max_fee_sats = 100\<rparr>,
        tracker_new\<lparr>bs_next_id := 1, bs_pending := [(0, 1100, Some ''h'')]\<rparr>)"
    using sample_reserved by (simp add: p d config_default_def)
  show ?thesis
    using client_pays_mock_server [where w = sample_mock and path = id and u = "''/a''" and urlp = ?urlp
        and std = Inr and url = Inr and C = sample_crypto, OF sample_crypto_ok e refl _ _ _ g r,
        of "''GET''" None]
    by (simp add: p b) blast
qed

text \<open>The mock's invoices are honest: for every positive price that fits, the invoice of a
  generated challenge decodes to exactly the price, in the decoder's own terms, and the header
  that carries it is read back by the client's parser.\<close>

lemma mock_challenge_honest:
  assumes "crypto_ok C std" and "0 < amount" and "unat amount * 1000 < 2 ^ 64"
  shows "\<exists>c. generate C bytes amount = (Ok c :: (pending_challenge, unit) rres)
    \<and> invoice_amount_sats (pc_invoice c) = Ok amount
    \<and> challenge_from_header std url (to_www_authenticate c)
        = Ok \<lparr>c_macaroon = pc_macaroon c, c_invoice = pc_invoice c, c_address = None\<rparr>
    \<and> validate_auth C c (pc_macaroon c) (pc_preimage c)"
proof -
  obtain c where c: "generate C bytes amount = (Ok c :: (pending_challenge, unit) rres)"
    "pc_preimage c = hex_encode C bytes" "pc_payment_hash c = hex_encode C (sha256 C bytes)"
    "invoice_amount_sats (pc_invoice c) = Ok amount"
    "challenge_from_header std url (to_www_authenticate c)
        = Ok \<lparr>c_macaroon = pc_macaroon c, c_invoice = pc_invoice c, c_address = None\<rparr>"
    using generate_Ok [OF assms, of bytes url] by metis
  then show ?thesis using assms(1)
    by (simp add: validate_auth_def validate_preimage_def crypto_ok_def)
qed

end
