(* ===== verification/Ffi.thy ===== *)
theory Ffi
  imports Mock
begin

text \<open>
  \<open>crates/l402-ffi/src/lib.rs\<close>: the C interface. Objects handed out are boxes on a heap; a pointer is
  a handle, or \<open>None\<close> for null. Using a handle that is not live is undefined behaviour, which is a
  result of its own, like the abort of a panic that reaches the C boundary. The last error is the
  thread-local of the calling thread. C strings are strings without NUL; \<open>utf8\<close> tells the decoding
  error of one that is no UTF-8.
\<close>

datatype 'a c_result = Returned 'a | Undefined | Aborted

section \<open>State\<close>

record ffi_response =
  fr_status :: u16
  fr_paid :: bool
  fr_body :: string
  fr_receipt_amount_sats :: u64
  fr_receipt_fee_sats :: u64
  fr_receipt_payment_hash :: string
  fr_receipt_preimage :: string
  fr_has_receipt :: bool

record ffi_mock_server =
  fm_server :: shared_state
  fm_url :: string

type_synonym 'h ffi_client = "(mock_ln_backend, cache_inner, 'h) built_client"

record ('w, 'h) ffi =
  ff_last_error :: "string option"
  ff_servers :: "nat \<Rightarrow> ffi_mock_server option"
  ff_clients :: "nat \<Rightarrow> 'h ffi_client option"
  ff_responses :: "nat \<Rightarrow> ffi_response option"
  ff_strings :: "nat \<Rightarrow> string option"
  ff_next :: nat
  ff_world :: 'w

type_synonym ptr = "nat option"
type_synonym ('r, 'w, 'h) c_call = "('w, 'h) ffi \<Rightarrow> ('r \<times> ('w, 'h) ffi) c_result"

section \<open>The last error\<close>

text \<open>\<open>CString::new(s).unwrap_or_default()\<close>.\<close>

definition c_string :: "string \<Rightarrow> string" where
  "c_string s = (if CHR 0x00 \<in> set s then [] else s)"

definition set_error :: "string \<Rightarrow> ('w, 'h) ffi \<Rightarrow> ('w, 'h) ffi" where
  "set_error msg st = st\<lparr>ff_last_error := Some (c_string msg)\<rparr>"

definition clear_error :: "('w, 'h) ffi \<Rightarrow> ('w, 'h) ffi" where
  "clear_error st = st\<lparr>ff_last_error := None\<rparr>"

definition last_error_message :: "('w, 'h) ffi \<Rightarrow> string option" where
  "last_error_message st = ff_last_error st"

definition fail_null :: "string \<Rightarrow> (ptr, 'w, 'h) c_call" where
  "fail_null msg st = Returned (None, set_error msg st)"

section \<open>Boxes\<close>

definition new_server :: "ffi_mock_server \<Rightarrow> (ptr, 'w, 'h) c_call" where
  "new_server x st = Returned (Some (ff_next st),
     st\<lparr>ff_servers := (ff_servers st)(ff_next st \<mapsto> x), ff_next := Suc (ff_next st)\<rparr>)"

definition new_client :: "'h ffi_client \<Rightarrow> (ptr, 'w, 'h) c_call" where
  "new_client x st = Returned (Some (ff_next st),
     st\<lparr>ff_clients := (ff_clients st)(ff_next st \<mapsto> x), ff_next := Suc (ff_next st)\<rparr>)"

definition new_response :: "ffi_response \<Rightarrow> (ptr, 'w, 'h) c_call" where
  "new_response x st = Returned (Some (ff_next st),
     st\<lparr>ff_responses := (ff_responses st)(ff_next st \<mapsto> x), ff_next := Suc (ff_next st)\<rparr>)"

definition new_string :: "string \<Rightarrow> (ptr, 'w, 'h) c_call" where
  "new_string x st = Returned (Some (ff_next st),
     st\<lparr>ff_strings := (ff_strings st)(ff_next st \<mapsto> x), ff_next := Suc (ff_next st)\<rparr>)"

definition l402_string_free :: "ptr \<Rightarrow> (unit, 'w, 'h) c_call" where
  "l402_string_free p st =
     (case p of
        None \<Rightarrow> Returned ((), st)
      | Some a \<Rightarrow> (case ff_strings st a of
          None \<Rightarrow> Undefined
        | Some _ \<Rightarrow> Returned ((), st\<lparr>ff_strings := (ff_strings st)(a := None)\<rparr>)))"

definition l402_mock_server_free :: "ptr \<Rightarrow> (unit, 'w, 'h) c_call" where
  "l402_mock_server_free p st =
     (case p of
        None \<Rightarrow> Returned ((), st)
      | Some a \<Rightarrow> (case ff_servers st a of
          None \<Rightarrow> Undefined
        | Some _ \<Rightarrow> Returned ((), st\<lparr>ff_servers := (ff_servers st)(a := None)\<rparr>)))"

definition l402_client_free :: "ptr \<Rightarrow> (unit, 'w, 'h) c_call" where
  "l402_client_free p st =
     (case p of
        None \<Rightarrow> Returned ((), st)
      | Some a \<Rightarrow> (case ff_clients st a of
          None \<Rightarrow> Undefined
        | Some _ \<Rightarrow> Returned ((), st\<lparr>ff_clients := (ff_clients st)(a := None)\<rparr>)))"

definition l402_response_free :: "ptr \<Rightarrow> (unit, 'w, 'h) c_call" where
  "l402_response_free p st =
     (case p of
        None \<Rightarrow> Returned ((), st)
      | Some a \<Rightarrow> (case ff_responses st a of
          None \<Rightarrow> Undefined
        | Some _ \<Rightarrow> Returned ((), st\<lparr>ff_responses := (ff_responses st)(a := None)\<rparr>)))"

section \<open>Mock server\<close>

text \<open>The configured endpoints, in the order of the array; the first path that is no UTF-8 ends it. A path
  is a C string, or \<open>None\<close> for null, which \<open>CStr::from_ptr\<close> may not be given.\<close>

fun add_endpoints :: "(string \<Rightarrow> string option) \<Rightarrow> (string option \<times> u64) list
    \<Rightarrow> (string \<Rightarrow> endpoint_config option) \<Rightarrow> (string + (string \<Rightarrow> endpoint_config option)) c_result" where
  "add_endpoints utf8 [] builder = Returned (Inr builder)"
| "add_endpoints utf8 ((None, price_sats) # eps) builder = Undefined"
| "add_endpoints utf8 ((Some path, price_sats) # eps) builder =
     (case utf8 path of
        Some e \<Rightarrow> Returned (Inl (''invalid UTF-8 in endpoint path: '' @ e))
      | None \<Rightarrow> add_endpoints utf8 eps (server_endpoint builder path (endpoint_new price_sats)))"

text \<open>\<open>endpoints\<close> is \<open>None\<close> for a null pointer, else the elements that lie in the memory it points
  to; a slice of more elements than that is undefined. \<open>started\<close> is what binding the listener gives.\<close>

definition l402_mock_server_new ::
  "(string \<Rightarrow> string option) \<Rightarrow> string + string \<Rightarrow> (string option \<times> u64) list option \<Rightarrow> nat \<Rightarrow> (ptr, 'w, 'h) c_call" where
  "l402_mock_server_new utf8 started endpoints count st =
     (let st1 = clear_error st in
      if endpoints = None \<and> count > 0 then fail_null ''endpoints pointer is null'' st1
      else
       (let mem = (case endpoints of None \<Rightarrow> [] | Some elements \<Rightarrow> elements) in
        if length mem < count then Undefined
        else
          (case add_endpoints utf8 (take count mem) (\<lambda>_. None) of
             Undefined \<Rightarrow> Undefined
           | Aborted \<Rightarrow> Aborted
           | Returned (Inl e) \<Rightarrow> fail_null e st1
           | Returned (Inr builder) \<Rightarrow>
              (case started of
                 Inl e \<Rightarrow> fail_null (''failed to start mock server: '' @ e) st1
               | Inr addr \<Rightarrow> new_server \<lparr>fm_server = server_start builder,
                    fm_url = c_string (server_url addr)\<rparr> st1))))"

definition l402_mock_server_url :: "ptr \<Rightarrow> (string option, 'w, 'h) c_call" where
  "l402_mock_server_url server st =
     (case server of
        None \<Rightarrow> Returned (None, st)
      | Some a \<Rightarrow> (case ff_servers st a of
          None \<Rightarrow> Undefined
        | Some s \<Rightarrow> Returned (Some (fm_url s), st)))"

section \<open>Client\<close>

definition ffi_config :: "string \<Rightarrow> u64 \<Rightarrow> client_config" where
  "ffi_config version max_fee_sats =
     \<lparr>cfg_max_fee_sats = max_fee_sats, cfg_max_retries = 1, cfg_user_agent = ''l402-ffi/'' @ version\<rparr>"

definition l402_client_new_mock ::
  "(string \<Rightarrow> bool \<Rightarrow> string + 'h) \<Rightarrow> string \<Rightarrow> ptr \<Rightarrow> u64 \<Rightarrow> (ptr, 'w, 'h) c_call" where
  "l402_client_new_mock build_http version server max_fee_sats st =
     (let st1 = clear_error st in
      case server of
        None \<Rightarrow> fail_null ''server pointer is null'' st1
      | Some a \<Rightarrow> (case ff_servers st1 a of
          None \<Rightarrow> Undefined
        | Some s \<Rightarrow>
           (case build build_http True
              (with_config (with_budget (with_token_store (with_ln_backend (builder_new version)
                 (mock_backend (ss_challenges (fm_server s)))) cache_default) unlimited)
                 (ffi_config version max_fee_sats)) of
              Ok client \<Rightarrow> new_client client st1
            | Err e \<Rightarrow> fail_null (''failed to build client: '' @ client_error_display e) st1
            | Panic \<Rightarrow> Aborted)))"

section \<open>Requests\<close>

text \<open>\<open>read_text\<close> reads a response body, \<open>None\<close> if that fails.\<close>

definition ffi_response_of :: "(string \<Rightarrow> string option) \<Rightarrow> l402_response \<Rightarrow> ffi_response" where
  "ffi_response_of read_text resp =
     (let (has_receipt, amount, fee, hash, preimage) =
        (case lr_receipt resp of
           Some r \<Rightarrow> (True, rc_amount_sats r, rc_fee_sats r, c_string (rc_payment_hash r), c_string (rc_preimage r))
         | None \<Rightarrow> (False, 0, 0, [], []));
          body_text = (case read_text (rs_body (lr_inner resp)) of Some t \<Rightarrow> t | None \<Rightarrow> []) in
      \<lparr>fr_status = status resp, fr_paid = lr_paid resp, fr_body = c_string body_text,
       fr_receipt_amount_sats = amount, fr_receipt_fee_sats = fee,
       fr_receipt_payment_hash = hash, fr_receipt_preimage = preimage, fr_has_receipt = has_receipt\<rparr>)"

definition convert_response ::
  "(string \<Rightarrow> string option) \<Rightarrow> (l402_response, client_error) rres \<Rightarrow> (ptr, 'w, 'h) c_call" where
  "convert_response read_text r st =
     (case r of
        Ok resp \<Rightarrow> new_response (ffi_response_of read_text resp) st
      | Err e \<Rightarrow> fail_null (client_error_display e) st
      | Panic \<Rightarrow> Aborted)"

text \<open>Running a request of a live client: its state and the world's move on.\<close>

definition run_client ::
  "(string \<Rightarrow> string option) \<Rightarrow> ('h ffi_client \<Rightarrow> (l402_response, 'w) act) \<Rightarrow> nat \<Rightarrow> 'h ffi_client
   \<Rightarrow> (ptr, 'w, 'h) c_call" where
  "run_client read_text call a c st =
     (case call c \<lparr>sy_ext = ff_world st, sy_cl = bc_state c, sy_log = []\<rparr> of
        (r, s') \<Rightarrow> convert_response read_text r
          (st\<lparr>ff_clients := (ff_clients st)(a \<mapsto> c\<lparr>bc_state := sy_cl s'\<rparr>), ff_world := sy_ext s'\<rparr>))"

definition l402_client_get ::
  "'w env \<Rightarrow> (string \<Rightarrow> string option) \<Rightarrow> (string \<Rightarrow> string option) \<Rightarrow> ptr \<Rightarrow> string option \<Rightarrow> (ptr, 'w, 'h) c_call" where
  "l402_client_get E utf8 read_text client url st =
     (let st1 = clear_error st in
      case (client, url) of
        (Some a, Some u) \<Rightarrow> (case ff_clients st1 a of
            None \<Rightarrow> Undefined
          | Some c \<Rightarrow>
             (case utf8 u of
                Some e \<Rightarrow> fail_null (''invalid UTF-8 in URL: '' @ e) st1
              | None \<Rightarrow> run_client read_text (\<lambda>c. http_get E (bc_limits c) (bc_config c) u) a c st1))
      | _ \<Rightarrow> fail_null ''null pointer argument'' st1)"

definition l402_client_post ::
  "'w env \<Rightarrow> (string \<Rightarrow> string option) \<Rightarrow> (string \<Rightarrow> string option) \<Rightarrow> ptr \<Rightarrow> string option \<Rightarrow> string option
   \<Rightarrow> (ptr, 'w, 'h) c_call" where
  "l402_client_post E utf8 read_text client url body st =
     (let st1 = clear_error st in
      case (client, url) of
        (Some a, Some u) \<Rightarrow> (case ff_clients st1 a of
            None \<Rightarrow> Undefined
          | Some c \<Rightarrow>
             (case utf8 u of
                Some e \<Rightarrow> fail_null (''invalid UTF-8 in URL: '' @ e) st1
              | None \<Rightarrow>
                 (case Option.bind body utf8 of
                    Some e \<Rightarrow> fail_null (''invalid UTF-8 in body: '' @ e) st1
                  | None \<Rightarrow> run_client read_text (\<lambda>c. http_post E (bc_limits c) (bc_config c) u body) a c st1)))
      | _ \<Rightarrow> fail_null ''null pointer argument'' st1)"

section \<open>Accessors\<close>

definition with_response :: "'r \<Rightarrow> (ffi_response \<Rightarrow> 'r) \<Rightarrow> ptr \<Rightarrow> ('r, 'w, 'h) c_call" where
  "with_response fallback f response st =
     (case response of
        None \<Rightarrow> Returned (fallback, st)
      | Some a \<Rightarrow> (case ff_responses st a of None \<Rightarrow> Undefined | Some r \<Rightarrow> Returned (f r, st)))"

definition l402_response_status :: "ptr \<Rightarrow> (u16, 'w, 'h) c_call" where
  "l402_response_status = with_response 0 fr_status"

definition l402_response_paid :: "ptr \<Rightarrow> (bool, 'w, 'h) c_call" where
  "l402_response_paid = with_response False fr_paid"

definition l402_response_body :: "ptr \<Rightarrow> (string option, 'w, 'h) c_call" where
  "l402_response_body = with_response None (\<lambda>r. Some (fr_body r))"

definition l402_response_has_receipt :: "ptr \<Rightarrow> (bool, 'w, 'h) c_call" where
  "l402_response_has_receipt = with_response False fr_has_receipt"

definition l402_response_receipt_amount_sats :: "ptr \<Rightarrow> (u64, 'w, 'h) c_call" where
  "l402_response_receipt_amount_sats = with_response 0 fr_receipt_amount_sats"

definition l402_response_receipt_fee_sats :: "ptr \<Rightarrow> (u64, 'w, 'h) c_call" where
  "l402_response_receipt_fee_sats = with_response 0 fr_receipt_fee_sats"

definition l402_response_receipt_payment_hash :: "ptr \<Rightarrow> (string option, 'w, 'h) c_call" where
  "l402_response_receipt_payment_hash =
     with_response None (\<lambda>r. if fr_has_receipt r then Some (fr_receipt_payment_hash r) else None)"

definition l402_response_receipt_preimage :: "ptr \<Rightarrow> (string option, 'w, 'h) c_call" where
  "l402_response_receipt_preimage =
     with_response None (\<lambda>r. if fr_has_receipt r then Some (fr_receipt_preimage r) else None)"

definition l402_client_total_spent :: "ptr \<Rightarrow> (u64, 'w, 'h) c_call" where
  "l402_client_total_spent client st =
     (case client of
        None \<Rightarrow> Returned (0, st)
      | Some a \<Rightarrow> (case ff_clients st a of
          None \<Rightarrow> Undefined
        | Some c \<Rightarrow> Returned (client_total_spent (bc_state c), st)))"

text \<open>\<open>to_json\<close> is the serializer of \<open>serde_json\<close>.\<close>

definition l402_client_receipts_json :: "(receipt list \<Rightarrow> string + string) \<Rightarrow> ptr \<Rightarrow> (ptr, 'w, 'h) c_call" where
  "l402_client_receipts_json to_json client st =
     (let st1 = clear_error st in
      case client of
        None \<Rightarrow> fail_null ''null client pointer'' st1
      | Some a \<Rightarrow> (case ff_clients st1 a of
          None \<Rightarrow> Undefined
        | Some c \<Rightarrow>
           (case to_json (client_receipts (bc_state c)) of
              Inl e \<Rightarrow> fail_null (''JSON serialization failed: '' @ e) st1
            | Inr json \<Rightarrow>
                if CHR 0x00 \<in> set json
                then fail_null (''JSON contains null byte: nul byte found in provided data at position: ''
                       @ show_nat (length (takeWhile (\<lambda>c. c \<noteq> CHR 0x00) json))) st1
                else new_string json st1)))"

section \<open>Handles\<close>

text \<open>A handle is live while its box is on the heap. Handles are never reused.\<close>

definition live_handle :: "('w, 'h) ffi \<Rightarrow> nat \<Rightarrow> bool" where
  "live_handle st a \<longleftrightarrow> ff_servers st a \<noteq> None \<or> ff_clients st a \<noteq> None \<or> ff_responses st a \<noteq> None
     \<or> ff_strings st a \<noteq> None"

definition heap_ok :: "('w, 'h) ffi \<Rightarrow> bool" where
  "heap_ok st \<longleftrightarrow> (\<forall>a. live_handle st a \<longrightarrow> a < ff_next st)"

definition well_reported :: "('w, 'h) ffi \<Rightarrow> ptr \<Rightarrow> ('w, 'h) ffi \<Rightarrow> bool" where
  "well_reported st p st' \<longleftrightarrow> heap_ok st' \<and> (p = None \<longleftrightarrow> last_error_message st' \<noteq> None)
     \<and> (\<forall>a. live_handle st a \<longrightarrow> live_handle st' a)
     \<and> (\<forall>a. p = Some a \<longrightarrow> \<not> live_handle st a \<and> live_handle st' a)"

text \<open>\<open>settled st st1\<close>: a call has cleared the error and moved on without touching the handles.\<close>

definition same_handles :: "('w, 'h) ffi \<Rightarrow> ('w, 'h) ffi \<Rightarrow> bool" where
  "same_handles st st1 \<longleftrightarrow> live_handle st1 = live_handle st \<and> ff_next st1 = ff_next st \<and> ff_last_error st1 = None"

lemma same_handles_clear [simp]: "same_handles st (clear_error st)"
  by (simp add: same_handles_def clear_error_def live_handle_def fun_eq_iff)

lemma live_set_error [simp]: "live_handle (set_error msg st) = live_handle st"
  by (simp add: set_error_def live_handle_def fun_eq_iff)

lemma fail_null_reported:
  assumes "heap_ok st" and "same_handles st st1" and "fail_null msg st1 = Returned (p, st')"
  shows "well_reported st p st'"
proof -
  have s: "p = None" "st' = set_error msg st1" using assms(3) by (simp_all add: fail_null_def)
  have "ff_next st' = ff_next st" "last_error_message st' \<noteq> None" "live_handle st' = live_handle st"
    using assms(2) s(2) by (simp_all add: same_handles_def) (simp_all add: set_error_def last_error_message_def)
  then show ?thesis using assms(1) s(1) by (simp add: well_reported_def heap_ok_def)
qed

text \<open>What every allocation does.\<close>

definition allocated :: "('w, 'h) ffi \<Rightarrow> ptr \<Rightarrow> ('w, 'h) ffi \<Rightarrow> bool" where
  "allocated st1 p st' \<longleftrightarrow> p = Some (ff_next st1) \<and> ff_next st' = Suc (ff_next st1)
     \<and> ff_last_error st' = ff_last_error st1
     \<and> (\<forall>a. live_handle st' a \<longleftrightarrow> a = ff_next st1 \<or> live_handle st1 a)"

lemma new_object_allocated:
  "new_server x1 st1 = Returned (p, st') \<Longrightarrow> allocated st1 p st'"
  "new_client x2 st1 = Returned (p, st') \<Longrightarrow> allocated st1 p st'"
  "new_response x3 st1 = Returned (p, st') \<Longrightarrow> allocated st1 p st'"
  "new_string x4 st1 = Returned (p, st') \<Longrightarrow> allocated st1 p st'"
  by (auto simp: allocated_def new_server_def new_client_def new_response_def new_string_def live_handle_def
      split: if_splits)

lemma allocated_reported:
  assumes "heap_ok st" and "same_handles st st1" and "allocated st1 p st'"
  shows "well_reported st p st'"
  using assms by (auto simp: well_reported_def heap_ok_def last_error_message_def same_handles_def
      allocated_def less_Suc_eq)

lemmas new_object_reported = allocated_reported [OF _ _ new_object_allocated(1)]
  allocated_reported [OF _ _ new_object_allocated(2)] allocated_reported [OF _ _ new_object_allocated(3)]
  allocated_reported [OF _ _ new_object_allocated(4)]

lemma convert_reported:
  assumes "heap_ok st" and "same_handles st st1" and "convert_response rt r st1 = Returned (p, st')"
  shows "well_reported st p st'"
  using assms(3) fail_null_reported [OF assms(1,2)] new_object_reported(3) [OF assms(1,2)]
  by (cases r) (auto simp: convert_response_def)

lemma same_handles_client:
  assumes "same_handles st st1" and "ff_clients st1 a = Some c"
  shows "same_handles st (st1\<lparr>ff_clients := (ff_clients st1)(a \<mapsto> c'), ff_world := w\<rparr>)"
proof -
  let ?st2 = "st1\<lparr>ff_clients := (ff_clients st1)(a \<mapsto> c'), ff_world := w\<rparr>"
  have "live_handle ?st2 = live_handle st1" using assms(2) by (auto simp: live_handle_def fun_eq_iff)
  then show ?thesis using assms(1) by (simp add: same_handles_def)
qed

lemma run_client_reported:
  assumes "heap_ok st" and "same_handles st st1" and "ff_clients st1 a = Some c"
    and "run_client rt call a c st1 = Returned (p, st')"
  shows "well_reported st p st'"
  using assms(4) convert_reported [OF assms(1) same_handles_client [OF assms(2,3)]]
  by (auto simp: run_client_def split: prod.splits)

lemmas c_call_defs = l402_mock_server_new_def l402_client_new_mock_def l402_client_get_def
  l402_client_post_def l402_client_receipts_json_def

lemma calls_reported:
  assumes "heap_ok st"
  shows "l402_mock_server_new utf8 started eps n st = Returned (p, st') \<Longrightarrow> well_reported st p st'"
    and "l402_client_new_mock build_http version server fee st = Returned (p, st') \<Longrightarrow> well_reported st p st'"
    and "l402_client_get E utf8 rt client url st = Returned (p, st') \<Longrightarrow> well_reported st p st'"
    and "l402_client_post E utf8 rt client url body st = Returned (p, st') \<Longrightarrow> well_reported st p st'"
    and "l402_client_receipts_json to_json client st = Returned (p, st') \<Longrightarrow> well_reported st p st'"
proof -
  note r = fail_null_reported [OF assms same_handles_clear] new_object_reported [OF assms same_handles_clear]
    run_client_reported [OF assms same_handles_clear]
  show "l402_mock_server_new utf8 started eps n st = Returned (p, st') \<Longrightarrow> well_reported st p st'"
    by (auto simp: c_call_defs Let_def intro: r split: if_splits sum.splits c_result.splits)
  show "l402_client_new_mock build_http version server fee st = Returned (p, st') \<Longrightarrow> well_reported st p st'"
    by (auto simp: c_call_defs Let_def intro: r split: option.splits rres.splits)
  show "l402_client_get E utf8 rt client url st = Returned (p, st') \<Longrightarrow> well_reported st p st'"
    by (auto simp: c_call_defs Let_def intro: r split: option.splits)
  show "l402_client_post E utf8 rt client url body st = Returned (p, st') \<Longrightarrow> well_reported st p st'"
    by (auto simp: c_call_defs Let_def intro: r split: option.splits)
  show "l402_client_receipts_json to_json client st = Returned (p, st') \<Longrightarrow> well_reported st p st'"
    by (auto simp: c_call_defs Let_def intro: r split: option.splits sum.splits if_splits)
qed

text \<open>C36. The C interface reports errors and owns its objects as its documentation says: each call that
  creates an object returns null exactly if there is then an error message, a pointer it returns is
  new, and no live object of the caller is lost or freed by it.\<close>

theorem ffi_calls_report:
  assumes "heap_ok st"
    and "call \<in> {l402_mock_server_new utf8 started eps n, l402_client_new_mock build_http version server fee,
      l402_client_get E utf8 rt client url, l402_client_post E utf8 rt client url body,
      l402_client_receipts_json to_json client}"
    and "call st = Returned (p, st')"
  shows "heap_ok st' \<and> (p = None \<longleftrightarrow> last_error_message st' \<noteq> None)
    \<and> (\<forall>a. live_handle st a \<longrightarrow> live_handle st' a)
    \<and> (\<forall>a. p = Some a \<longrightarrow> \<not> live_handle st a \<and> live_handle st' a)"
proof -
  have "well_reported st p st'" using assms(2,3) calls_reported [OF assms(1)] by auto
  then show ?thesis unfolding well_reported_def .
qed

definition ffi_start :: "'w \<Rightarrow> ('w, 'h) ffi" where
  "ffi_start w = \<lparr>ff_last_error = None, ff_servers = (\<lambda>_. None), ff_clients = (\<lambda>_. None),
     ff_responses = (\<lambda>_. None), ff_strings = (\<lambda>_. None), ff_next = 0, ff_world = w\<rparr>"

theorem ffi_calls_report_witness:
  "\<exists>st' :: (unit, unit) ffi. l402_mock_server_new (\<lambda>_. None) (Inr ''127.0.0.1:1'') None 0 (ffi_start ()) = Returned (Some 0, st')
     \<and> last_error_message st' = None \<and> live_handle st' 0"
proof -
  have h: "heap_ok (ffi_start () :: (unit, unit) ffi)"
    by (simp add: heap_ok_def live_handle_def ffi_start_def)
  obtain st' :: "(unit, unit) ffi" where r:
    "l402_mock_server_new (\<lambda>_. None) (Inr ''127.0.0.1:1'') None 0 (ffi_start ()) = Returned (Some 0, st')"
    by (simp add: l402_mock_server_new_def new_server_def clear_error_def ffi_start_def)
  show ?thesis using ffi_calls_report [OF h insertI1 r] r by simp
qed

end
