(* ===== verification/Ffi_Safety.thy ===== *)
theory Ffi_Safety
  imports Ffi
begin

text \<open>
  Programs that use the C interface. A caller keeps a table of the objects it owns, by the pointers
  the calls returned and the free functions take away; it passes only null and pointers it owns of
  the right type. The table then types the heap exactly, so that no call of such a program is
  undefined.
\<close>

section \<open>Calls\<close>

datatype kind = ServerBox | ClientBox | ResponseBox | StringBox

lemma UNIV_kind: "UNIV = {ServerBox, ClientBox, ResponseBox, StringBox}"
  using kind.exhaust by auto

instantiation kind :: enum
begin

definition enum_kind :: "kind list" where
  "enum_kind = [ServerBox, ClientBox, ResponseBox, StringBox]"

definition enum_all_kind :: "(kind \<Rightarrow> bool) \<Rightarrow> bool" where
  "enum_all_kind P \<longleftrightarrow> P ServerBox \<and> P ClientBox \<and> P ResponseBox \<and> P StringBox"

definition enum_ex_kind :: "(kind \<Rightarrow> bool) \<Rightarrow> bool" where
  "enum_ex_kind P \<longleftrightarrow> P ServerBox \<or> P ClientBox \<or> P ResponseBox \<or> P StringBox"

instance
  by standard (auto simp: enum_kind_def enum_all_kind_def enum_ex_kind_def UNIV_kind)

end

datatype c_op =
    MockServerNew "string + string" "(string option \<times> u64) list option" nat
  | MockServerUrl ptr
  | MockServerFree ptr
  | ClientNewMock ptr u64
  | ClientGet ptr "string option"
  | ClientPost ptr "string option" "string option"
  | ClientTotalSpent ptr
  | ClientReceiptsJson ptr
  | ClientFree ptr
  | ResponseStatus ptr
  | ResponsePaid ptr
  | ResponseBody ptr
  | ResponseHasReceipt ptr
  | ResponseReceiptAmountSats ptr
  | ResponseReceiptFeeSats ptr
  | ResponseReceiptPaymentHash ptr
  | ResponseReceiptPreimage ptr
  | ResponseFree ptr
  | StringFree ptr

text \<open>The object each call takes, the kind of the object it creates, and what it frees.\<close>

fun argument :: "c_op \<Rightarrow> kind \<times> ptr" where
  "argument (MockServerNew started eps n) = (ServerBox, None)"
| "argument (MockServerUrl p) = (ServerBox, p)"
| "argument (MockServerFree p) = (ServerBox, p)"
| "argument (ClientNewMock p fee) = (ServerBox, p)"
| "argument (ClientGet p url) = (ClientBox, p)"
| "argument (ClientPost p url body) = (ClientBox, p)"
| "argument (ClientTotalSpent p) = (ClientBox, p)"
| "argument (ClientReceiptsJson p) = (ClientBox, p)"
| "argument (ClientFree p) = (ClientBox, p)"
| "argument (ResponseStatus p) = (ResponseBox, p)"
| "argument (ResponsePaid p) = (ResponseBox, p)"
| "argument (ResponseBody p) = (ResponseBox, p)"
| "argument (ResponseHasReceipt p) = (ResponseBox, p)"
| "argument (ResponseReceiptAmountSats p) = (ResponseBox, p)"
| "argument (ResponseReceiptFeeSats p) = (ResponseBox, p)"
| "argument (ResponseReceiptPaymentHash p) = (ResponseBox, p)"
| "argument (ResponseReceiptPreimage p) = (ResponseBox, p)"
| "argument (ResponseFree p) = (ResponseBox, p)"
| "argument (StringFree p) = (StringBox, p)"

fun creates :: "c_op \<Rightarrow> kind" where
  "creates (MockServerNew started eps n) = ServerBox"
| "creates (ClientNewMock p fee) = ClientBox"
| "creates (ClientGet p url) = ResponseBox"
| "creates (ClientPost p url body) = ResponseBox"
| "creates _ = StringBox"

fun frees :: "c_op \<Rightarrow> ptr" where
  "frees (MockServerFree p) = p"
| "frees (ClientFree p) = p"
| "frees (ResponseFree p) = p"
| "frees (StringFree p) = p"
| "frees _ = None"

text \<open>The calls that create no object return no pointer to own; their results are left out here.\<close>

fun no_object :: "('r \<times> ('w, 'h) ffi) c_result \<Rightarrow> (ptr \<times> ('w, 'h) ffi) c_result" where
  "no_object (Returned (r, st)) = Returned (None, st)"
| "no_object Undefined = Undefined"
| "no_object Aborted = Aborted"

text \<open>What the calls get from the world around them.\<close>

record ('w, 'h) c_env =
  ce_env :: "'w env"
  ce_utf8 :: "string \<Rightarrow> string option"
  ce_read_text :: "string \<Rightarrow> string option"
  ce_to_json :: "receipt list \<Rightarrow> string + string"
  ce_build_http :: "string \<Rightarrow> bool \<Rightarrow> string + 'h"
  ce_version :: string

fun run_op :: "('w, 'h) c_env \<Rightarrow> c_op \<Rightarrow> (ptr, 'w, 'h) c_call" where
  "run_op W (MockServerNew started eps n) st = l402_mock_server_new (ce_utf8 W) started eps n st"
| "run_op W (MockServerUrl p) st = no_object (l402_mock_server_url p st)"
| "run_op W (MockServerFree p) st = no_object (l402_mock_server_free p st)"
| "run_op W (ClientNewMock p fee) st = l402_client_new_mock (ce_build_http W) (ce_version W) p fee st"
| "run_op W (ClientGet p url) st = l402_client_get (ce_env W) (ce_utf8 W) (ce_read_text W) p url st"
| "run_op W (ClientPost p url body) st = l402_client_post (ce_env W) (ce_utf8 W) (ce_read_text W) p url body st"
| "run_op W (ClientTotalSpent p) st = no_object (l402_client_total_spent p st)"
| "run_op W (ClientReceiptsJson p) st = l402_client_receipts_json (ce_to_json W) p st"
| "run_op W (ClientFree p) st = no_object (l402_client_free p st)"
| "run_op W (ResponseStatus p) st = no_object (l402_response_status p st)"
| "run_op W (ResponsePaid p) st = no_object (l402_response_paid p st)"
| "run_op W (ResponseBody p) st = no_object (l402_response_body p st)"
| "run_op W (ResponseHasReceipt p) st = no_object (l402_response_has_receipt p st)"
| "run_op W (ResponseReceiptAmountSats p) st = no_object (l402_response_receipt_amount_sats p st)"
| "run_op W (ResponseReceiptFeeSats p) st = no_object (l402_response_receipt_fee_sats p st)"
| "run_op W (ResponseReceiptPaymentHash p) st = no_object (l402_response_receipt_payment_hash p st)"
| "run_op W (ResponseReceiptPreimage p) st = no_object (l402_response_receipt_preimage p st)"
| "run_op W (ResponseFree p) st = no_object (l402_response_free p st)"
| "run_op W (StringFree p) st = no_object (l402_string_free p st)"

section \<open>The caller\<close>

type_synonym owned = "nat \<Rightarrow> kind option"

text \<open>The documented contract of the endpoint array: null, or at least as many elements as the count says,
  each of these with a path.\<close>

fun array_ok :: "c_op \<Rightarrow> bool" where
  "array_ok (MockServerNew started (Some elements) count) \<longleftrightarrow>
     count \<le> length elements \<and> (\<forall>(path, price) \<in> set (take count elements). path \<noteq> None)"
| "array_ok _ \<longleftrightarrow> True"

definition allowed :: "owned \<Rightarrow> c_op \<Rightarrow> bool" where
  "allowed T op \<longleftrightarrow> array_ok op \<and> (case argument op of (k, p) \<Rightarrow> case p of None \<Rightarrow> True | Some a \<Rightarrow> T a = Some k)"

definition owns_after :: "owned \<Rightarrow> c_op \<Rightarrow> ptr \<Rightarrow> owned" where
  "owns_after T op p =
     (let T1 = (case frees op of None \<Rightarrow> T | Some a \<Rightarrow> T(a := None)) in
      case p of None \<Rightarrow> T1 | Some a \<Rightarrow> T1(a \<mapsto> creates op))"

text \<open>A program: the next call may depend on what the caller owns; it stops at the
  first call its own table forbids.\<close>

fun run_ops :: "('w, 'h) c_env \<Rightarrow> (owned \<Rightarrow> c_op) list \<Rightarrow> owned \<Rightarrow> (owned, 'w, 'h) c_call" where
  "run_ops W [] T st = Returned (T, st)"
| "run_ops W (next # rest) T st =
     (if allowed T (next T)
      then (case run_op W (next T) st of
              Returned (p, st') \<Rightarrow> run_ops W rest (owns_after T (next T) p) st'
            | Undefined \<Rightarrow> Undefined
            | Aborted \<Rightarrow> Aborted)
      else Returned (T, st))"

section \<open>The table types the heap\<close>

fun holds :: "('w, 'h) ffi \<Rightarrow> nat \<Rightarrow> kind \<Rightarrow> bool" where
  "holds st a ServerBox \<longleftrightarrow> ff_servers st a \<noteq> None"
| "holds st a ClientBox \<longleftrightarrow> ff_clients st a \<noteq> None"
| "holds st a ResponseBox \<longleftrightarrow> ff_responses st a \<noteq> None"
| "holds st a StringBox \<longleftrightarrow> ff_strings st a \<noteq> None"

text \<open>The objects at an address.\<close>

definition objects :: "('w, 'h) ffi \<Rightarrow> nat \<Rightarrow> kind list" where
  "objects st a = filter (holds st a) enum_class.enum"

definition typed :: "owned \<Rightarrow> ('w, 'h) ffi \<Rightarrow> bool" where
  "typed T st \<longleftrightarrow> (\<forall>a k. T a = Some k \<longleftrightarrow> holds st a k) \<and> (\<forall>a. T a \<noteq> None \<longrightarrow> a < ff_next st)"

lemma typedD:
  assumes "typed T st"
  shows "T a = Some ServerBox \<Longrightarrow> \<exists>x. ff_servers st a = Some x"
    and "T a = Some ClientBox \<Longrightarrow> \<exists>x. ff_clients st a = Some x"
    and "T a = Some ResponseBox \<Longrightarrow> \<exists>x. ff_responses st a = Some x"
    and "T a = Some StringBox \<Longrightarrow> \<exists>x. ff_strings st a = Some x"
  using assms by (auto simp: typed_def)

lemma typed_holds: "typed T st \<Longrightarrow> holds st a k \<longleftrightarrow> T a = Some k"
  and typed_less: "typed T st \<Longrightarrow> T a = Some k \<Longrightarrow> a < ff_next st"
  by (auto simp: typed_def)

lemma typed_objects: "typed T st \<Longrightarrow> objects st a = (case T a of None \<Rightarrow> [] | Some k \<Rightarrow> [k])"
  by (cases "T a"; cases "the (T a)")
    (simp_all add: objects_def enum_kind_def typed_holds del: holds.simps)

lemma typed_same:
  assumes "typed T st" and "\<And>a k. holds st' a k = holds st a k" and "ff_next st' = ff_next st"
  shows "typed T st'"
  using assms by (simp add: typed_def)

lemma typed_added:
  assumes "typed T st" and "\<And>a k'. holds st' a k' \<longleftrightarrow> (a = ff_next st \<and> k' = k) \<or> holds st a k'"
    and "ff_next st' = Suc (ff_next st)"
  shows "typed (T(ff_next st \<mapsto> k)) st'"
proof -
  have "T (ff_next st) \<noteq> Some k'" for k' using typed_less [OF assms(1)] by blast
  then show ?thesis using typed_less [OF assms(1)]
    by (auto simp: typed_def assms(2,3) typed_holds [OF assms(1)] intro: less_SucI)
qed

lemma typed_removed:
  assumes "typed T st" and "\<And>a' k'. holds st' a' k' \<longleftrightarrow> \<not> (a' = a \<and> k' = k) \<and> holds st a' k'"
    and "T a = Some k" and "ff_next st' = ff_next st"
  shows "typed (T(a := None)) st'"
  using assms(3) typed_less [OF assms(1)] by (auto simp: typed_def assms(2,4) typed_holds [OF assms(1)])

lemma holds_other [simp]:
  "holds (st\<lparr>ff_last_error := e\<rparr>) a k = holds st a k"
  "holds (st\<lparr>ff_world := w\<rparr>) a k = holds st a k"
  "holds (st\<lparr>ff_next := n\<rparr>) a k = holds st a k"
  by (cases k; simp)+

lemma holds_update [simp]:
  "holds (st\<lparr>ff_servers := f\<rparr>) a k = (if k = ServerBox then f a \<noteq> None else holds st a k)"
  "holds (st\<lparr>ff_clients := g\<rparr>) a k = (if k = ClientBox then g a \<noteq> None else holds st a k)"
  "holds (st\<lparr>ff_responses := h\<rparr>) a k = (if k = ResponseBox then h a \<noteq> None else holds st a k)"
  "holds (st\<lparr>ff_strings := i\<rparr>) a k = (if k = StringBox then i a \<noteq> None else holds st a k)"
  by (cases k; simp)+

lemma typed_errors [simp]: "typed T (set_error msg st) = typed T st" "typed T (clear_error st) = typed T st"
  by (simp_all add: typed_def set_error_def clear_error_def)

lemma typed_client:
  "typed T st \<Longrightarrow> ff_clients st a = Some c
    \<Longrightarrow> typed T (st\<lparr>ff_clients := (ff_clients st)(a \<mapsto> c'), ff_world := w\<rparr>)"
  by (rule typed_same [of T st]) auto

text \<open>A result is well typed if it is defined and its state is typed by the caller's new table.\<close>

fun result_ok :: "owned \<Rightarrow> kind \<Rightarrow> (ptr \<times> ('w, 'h) ffi) c_result \<Rightarrow> bool" where
  "result_ok T k (Returned (p, st)) = typed (case p of None \<Rightarrow> T | Some a \<Rightarrow> T(a \<mapsto> k)) st"
| "result_ok T k Undefined = False"
| "result_ok T k Aborted = True"

lemma fail_null_ok: "typed T st \<Longrightarrow> result_ok T k (fail_null msg st)"
  by (simp add: fail_null_def)

lemma new_object_ok:
  assumes "typed T st"
  shows "result_ok T ServerBox (new_server x1 st)" and "result_ok T ClientBox (new_client x2 st)"
    and "result_ok T ResponseBox (new_response x3 st)" and "result_ok T StringBox (new_string x4 st)"
  by (auto simp: new_server_def new_client_def new_response_def new_string_def
      intro!: typed_added [OF assms] split: if_splits)

lemma run_client_ok:
  assumes "typed T st" and "ff_clients st a = Some c"
  shows "result_ok T ResponseBox (run_client rt call a c st)"
  using new_object_ok(3) [OF typed_client [OF assms]] fail_null_ok [OF typed_client [OF assms]]
  by (auto simp: run_client_def convert_response_def split: prod.splits rres.splits)

lemmas typing = fail_null_ok new_object_ok run_client_ok

lemma add_endpoints_defined:
  "\<forall>(path, price) \<in> set eps. path \<noteq> None \<Longrightarrow> \<exists>r. add_endpoints utf8 eps builder = Returned r"
  by (induction utf8 eps builder rule: add_endpoints.induct) (auto split: option.split)

text \<open>Each call on a typed heap.\<close>

lemma creating_ok:
  assumes t: "typed T st"
  shows "allowed T (MockServerNew started eps n) \<Longrightarrow> result_ok T ServerBox (l402_mock_server_new utf8 started eps n st)"
    and "allowed T (ClientNewMock p fee) \<Longrightarrow> result_ok T ClientBox (l402_client_new_mock bh v p fee st)"
    and "allowed T (ClientGet p url) \<Longrightarrow> result_ok T ResponseBox (l402_client_get E utf8 rt p url st)"
    and "allowed T (ClientPost p url body) \<Longrightarrow> result_ok T ResponseBox (l402_client_post E utf8 rt p url body st)"
    and "allowed T (ClientReceiptsJson p) \<Longrightarrow> result_ok T StringBox (l402_client_receipts_json tj p st)"
proof -
  have c: "typed T (clear_error st)" using t by simp
  show "result_ok T ServerBox (l402_mock_server_new utf8 started eps n st)" if a: "allowed T (MockServerNew started eps n)"
  proof (cases eps)
    case None
    then show ?thesis by (auto simp: l402_mock_server_new_def Let_def typing t split: sum.split)
  next
    case (Some elements)
    then have l: "\<not> length elements < n" and "\<forall>(path, price) \<in> set (take n elements). path \<noteq> None"
      using a by (auto simp: allowed_def)
    from add_endpoints_defined [OF this(2)] obtain r where "add_endpoints utf8 (take n elements) (\<lambda>_. None) = Returned r" by blast
    then show ?thesis using l by (auto simp: l402_mock_server_new_def Some Let_def typing t split: sum.split)
  qed
  show "allowed T (ClientNewMock p fee) \<Longrightarrow> result_ok T ClientBox (l402_client_new_mock bh v p fee st)"
    by (auto dest: typedD [OF c] simp: l402_client_new_mock_def Let_def allowed_def typing t split: option.splits rres.splits)
  show "allowed T (ClientGet p url) \<Longrightarrow> result_ok T ResponseBox (l402_client_get E utf8 rt p url st)"
    by (auto dest: typedD [OF c] simp: l402_client_get_def Let_def allowed_def typing t split: option.splits)
  show "allowed T (ClientPost p url body) \<Longrightarrow> result_ok T ResponseBox (l402_client_post E utf8 rt p url body st)"
    by (auto dest: typedD [OF c] simp: l402_client_post_def Let_def allowed_def typing t split: option.splits)
  show "allowed T (ClientReceiptsJson p) \<Longrightarrow> result_ok T StringBox (l402_client_receipts_json tj p st)"
    by (auto dest: typedD [OF c] simp: l402_client_receipts_json_def Let_def allowed_def typing t
        split: option.splits sum.splits)
qed

lemma reading_ok:
  assumes t: "typed T st"
  shows "allowed T (ResponseStatus p) \<Longrightarrow> result_ok T k (no_object (with_response d f p st))"
    and "allowed T (MockServerUrl p) \<Longrightarrow> result_ok T k (no_object (l402_mock_server_url p st))"
    and "allowed T (ClientTotalSpent p) \<Longrightarrow> result_ok T k (no_object (l402_client_total_spent p st))"
  using t
  by (auto simp: allowed_def with_response_def l402_mock_server_url_def l402_client_total_spent_def
      split: option.splits dest: typedD [OF t])

lemma freeing_ok:
  assumes t: "typed T st"
  shows "allowed T (MockServerFree p) \<Longrightarrow>
      result_ok (case p of None \<Rightarrow> T | Some a \<Rightarrow> T(a := None)) k (no_object (l402_mock_server_free p st))"
    and "allowed T (ClientFree p) \<Longrightarrow>
      result_ok (case p of None \<Rightarrow> T | Some a \<Rightarrow> T(a := None)) k (no_object (l402_client_free p st))"
    and "allowed T (ResponseFree p) \<Longrightarrow>
      result_ok (case p of None \<Rightarrow> T | Some a \<Rightarrow> T(a := None)) k (no_object (l402_response_free p st))"
    and "allowed T (StringFree p) \<Longrightarrow>
      result_ok (case p of None \<Rightarrow> T | Some a \<Rightarrow> T(a := None)) k (no_object (l402_string_free p st))"
  using t
  by (auto simp: allowed_def owns_after_def l402_mock_server_free_def l402_client_free_def l402_response_free_def
      l402_string_free_def split: option.splits if_splits intro!: typed_removed [OF t] dest: typedD [OF t])

lemma run_op_ok:
  assumes t: "typed T st" and a: "allowed T op"
  shows "result_ok (owns_after T op None) (creates op) (run_op W op st)"
  using a
  by (cases op) (simp_all add: creating_ok [OF t] reading_ok [OF t] freeing_ok [OF t] allowed_def owns_after_def l402_response_status_def l402_response_paid_def
      l402_response_body_def l402_response_has_receipt_def l402_response_receipt_amount_sats_def
      l402_response_receipt_fee_sats_def l402_response_receipt_payment_hash_def
      l402_response_receipt_preimage_def)

lemma owns_after_some: "owns_after T op p = (case p of None \<Rightarrow> owns_after T op None
    | Some a \<Rightarrow> (owns_after T op None)(a \<mapsto> creates op))"
  by (simp add: owns_after_def split: option.splits)

lemma run_ops_typed:
  "typed T st \<Longrightarrow> run_ops W ops T st \<noteq> Undefined
    \<and> (\<forall>T' st'. run_ops W ops T st = Returned (T', st') \<longrightarrow> typed T' st')"
proof (induction ops arbitrary: T st)
  case (Cons nxt rest)
  show ?case
  proof (cases "run_op W (nxt T) st")
    case (Returned r)
    obtain p st1 where r: "r = (p, st1)" by (cases r)
    show ?thesis
    proof (cases "allowed T (nxt T)")
      case True
      have "typed (owns_after T (nxt T) p) st1"
        using run_op_ok [OF Cons.prems True, of W] Returned r owns_after_some [of T "nxt T" p] by simp
      then show ?thesis using Cons.IH True Returned r by simp
    qed (use Cons.prems in simp)
  next
    case Undefined
    then show ?thesis using run_op_ok [OF Cons.prems, of "nxt T" W] Cons.prems by auto
  qed (use Cons.prems in simp)
qed simp

section \<open>Property\<close>

text \<open>C35. The C interface is type safe: a program that keeps the documented contract never runs into
  undefined behaviour, however it chooses its calls. It passes only null and pointers that calls
  returned to it and that it has not freed, each at its type; valid C strings or null; and as array of endpoints null, or
  one of at least as many elements as it says, with their paths. At its end the objects on the heap
  are exactly those it owns, at most one at an address, so that a program that frees all it owns leaks
  nothing.\<close>

theorem c_interface_type_safe:
  "run_ops W ops (\<lambda>_. None) (ffi_start w) \<noteq> Undefined
  \<and> (\<forall>T st. run_ops W ops (\<lambda>_. None) (ffi_start w) = Returned (T, st) \<longrightarrow>
       (\<forall>a. objects st a = (case T a of None \<Rightarrow> [] | Some k \<Rightarrow> [k])))"
proof -
  have "\<not> holds (ffi_start w :: ('a, 'b) ffi) a k" for a k by (cases k) (simp_all add: ffi_start_def)
  then have "typed (\<lambda>_. None) (ffi_start w :: ('a, 'b) ffi)" by (simp add: typed_def)
  from run_ops_typed [OF this, of W ops] show ?thesis using typed_objects by blast
qed

text \<open>A program that starts a server with an endpoint, asks for its URL and frees it.\<close>

definition sample_c_env :: "(unit, unit) c_env" where
  "sample_c_env = \<lparr>ce_env = sample_env, ce_utf8 = (\<lambda>_. None), ce_read_text = Some,
     ce_to_json = (\<lambda>_. Inr ''[]''), ce_build_http = (\<lambda>_ _. Inr ()), ce_version = ''0.6.0''\<rparr>"

definition sample_program :: "(owned \<Rightarrow> c_op) list" where
  "sample_program = [\<lambda>T. MockServerNew (Inr ''127.0.0.1:1'') (Some [(Some ''/a'', 5), (None, 0)]) 1,
     \<lambda>T. MockServerUrl (Some 0), \<lambda>T. MockServerFree (Some 0)]"

theorem c_interface_type_safe_witness:
  "\<exists>T st. run_ops sample_c_env sample_program (\<lambda>_. None) (ffi_start ()) = Returned (T, st) \<and> objects st 0 = []"
proof -
  obtain T st where r: "run_ops sample_c_env sample_program (\<lambda>_. None) (ffi_start ()) = Returned (T, st)" "T = (\<lambda>_. None)"
    by (auto simp: sample_program_def sample_c_env_def allowed_def owns_after_def l402_mock_server_new_def new_server_def
        clear_error_def l402_mock_server_url_def l402_mock_server_free_def ffi_start_def Let_def fun_upd_idem)
  have "objects st 0 = []" using c_interface_type_safe [of sample_c_env sample_program "()"] r by auto
  then show ?thesis using r by auto
qed

text \<open>The contract of the array is needed.\<close>

lemma long_count_undefined:
  "length elements < count \<Longrightarrow> l402_mock_server_new utf8 started (Some elements) count st = Undefined"
  by (simp add: l402_mock_server_new_def Let_def)

end
