(* ===== verification/Wasm.thy ===== *)
theory Wasm
  imports Client_Props Lnd Cln Swissknife Token_Cache
begin

text \<open>
  \<open>crates/l402-wasm\<close>: the JavaScript interface. Its types copy those of the core; every error becomes
  a \<open>JsError\<close> with a text. The client is the core client over LND REST or SwissKnife with the
  in-memory store.
\<close>

type_synonym js_error = string

section \<open>Receipts and budgets\<close>

record wasm_receipt =
  wr_timestamp :: u64
  wr_amount_sats :: u64
  wr_fee_sats :: u64
  wr_response_status :: u16
  wr_latency_ms :: u64
  wr_endpoint :: string
  wr_payment_hash :: string
  wr_preimage :: string

definition wasm_receipt_of :: "receipt \<Rightarrow> wasm_receipt" where
  "wasm_receipt_of r = \<lparr>wr_timestamp = rc_timestamp r, wr_amount_sats = rc_amount_sats r,
     wr_fee_sats = rc_fee_sats r, wr_response_status = rc_response_status r,
     wr_latency_ms = rc_latency_ms r, wr_endpoint = rc_endpoint r,
     wr_payment_hash = rc_payment_hash r, wr_preimage = rc_preimage r\<rparr>"

text \<open>Unlike the core's, this sum is not saturating.\<close>

definition wasm_total_cost_sats :: "wasm_receipt \<Rightarrow> (u64, js_error) rres" where
  "wasm_total_cost_sats r = add_u64 (wr_amount_sats r) (wr_fee_sats r)"

record wasm_budget_config =
  wb_per_request_max :: u64
  wb_hourly_max :: u64
  wb_daily_max :: u64
  wb_total_max :: u64

definition wasm_unlimited :: wasm_budget_config where
  "wasm_unlimited = \<lparr>wb_per_request_max = 0, wb_hourly_max = 0, wb_daily_max = 0, wb_total_max = 0\<rparr>"

definition to_opt :: "u64 \<Rightarrow> u64 option" where
  "to_opt v = (if v = 0 then None else Some v)"

definition budget_of_wasm :: "wasm_budget_config \<Rightarrow> budget" where
  "budget_of_wasm config = Budget (to_opt (wb_per_request_max config)) (to_opt (wb_hourly_max config))
     (to_opt (wb_daily_max config)) (to_opt (wb_total_max config)) (\<lambda>_. None)"

section \<open>The client\<close>

definition wasm_config :: "string \<Rightarrow> u64 \<Rightarrow> client_config" where
  "wasm_config version max_fee_sats = (config_default version)\<lparr>cfg_max_fee_sats := max_fee_sats\<rparr>"

definition wasm_build ::
  "(string \<Rightarrow> bool \<Rightarrow> string + 'h) \<Rightarrow> string \<Rightarrow> 'b \<Rightarrow> wasm_budget_config \<Rightarrow> u64
   \<Rightarrow> (('b, cache_inner, 'h) built_client, client_error) rres" where
  "wasm_build build_http version backend budget max_fee_sats =
     build build_http False
       (with_config (with_budget (with_token_store (with_ln_backend (builder_new version) backend) cache_default)
          (budget_of_wasm budget)) (wasm_config version max_fee_sats))"

definition wasm_with_lnd_rest ::
  "host \<Rightarrow> (string \<Rightarrow> bool \<Rightarrow> string + 'h) \<Rightarrow> string \<Rightarrow> string \<Rightarrow> string \<Rightarrow> wasm_budget_config \<Rightarrow> u64
   \<Rightarrow> ((lnd_rest, cache_inner, 'h) built_client, js_error) rres" where
  "wasm_with_lnd_rest h build_http version url macaroon budget max_fee_sats =
     rbind (map_err (\<lambda>e. ''failed to create LND backend: '' @ lnd_error_display e)
             (lnd_rest_new h url macaroon)) (\<lambda>backend.
     map_err (\<lambda>e. ''failed to build L402Client: '' @ client_error_display e)
       (wasm_build build_http version backend budget max_fee_sats))"

definition wasm_with_swissknife ::
  "(string \<Rightarrow> bool \<Rightarrow> string + 'h) \<Rightarrow> string \<Rightarrow> string \<Rightarrow> string \<Rightarrow> wasm_budget_config \<Rightarrow> u64
   \<Rightarrow> ((swissknife, cache_inner, 'h) built_client, js_error) rres" where
  "wasm_with_swissknife build_http version url api_key budget max_fee_sats =
     map_err (\<lambda>e. ''failed to build L402Client: '' @ client_error_display e)
       (wasm_build build_http version (swissknife_new url api_key) budget max_fee_sats)"

definition wasm_with_swissknife_wallet ::
  "(string \<Rightarrow> bool \<Rightarrow> string + 'h) \<Rightarrow> string \<Rightarrow> string \<Rightarrow> string \<Rightarrow> string \<Rightarrow> wasm_budget_config \<Rightarrow> u64
   \<Rightarrow> ((swissknife, cache_inner, 'h) built_client, js_error) rres" where
  "wasm_with_swissknife_wallet build_http version url api_key wallet_id budget max_fee_sats =
     rbind (map_err swissknife_error_display (with_wallet wallet_id (swissknife_new url api_key))) (\<lambda>backend.
     map_err client_error_display (wasm_build build_http version backend budget max_fee_sats))"

record wasm_response =
  wp_status :: u16
  wp_paid :: bool
  wp_cached_token :: bool
  wp_body :: string
  wp_receipt :: "wasm_receipt option"

text \<open>\<open>read_text\<close> reads the body; its failure makes an error of the whole response.\<close>

definition to_wasm_response ::
  "(string \<Rightarrow> string + string) \<Rightarrow> l402_response \<Rightarrow> (wasm_response, js_error) rres" where
  "to_wasm_response read_text response =
     rbind (map_err client_error_display (response_text read_text response)) (\<lambda>body.
     Ok \<lparr>wp_status = status response, wp_paid = lr_paid response,
         wp_cached_token = lr_cached_token response, wp_body = body,
         wp_receipt = map_option wasm_receipt_of (lr_receipt response)\<rparr>)"

definition wasm_run ::
  "(string \<Rightarrow> string + string) \<Rightarrow> (l402_response, 'w) act \<Rightarrow> 'w sys
   \<Rightarrow> (wasm_response, js_error) rres \<times> 'w sys" where
  "wasm_run read_text call s =
     (case call s of (r, s') \<Rightarrow> (rbind (map_err client_error_display r) (to_wasm_response read_text), s'))"

definition wasm_get ::
  "'w env \<Rightarrow> (string \<Rightarrow> string + string) \<Rightarrow> budget \<Rightarrow> client_config \<Rightarrow> string \<Rightarrow> 'w sys
   \<Rightarrow> (wasm_response, js_error) rres \<times> 'w sys" where
  "wasm_get E read_text limits cfg url = wasm_run read_text (http_get E limits cfg url)"

definition wasm_post ::
  "'w env \<Rightarrow> (string \<Rightarrow> string + string) \<Rightarrow> budget \<Rightarrow> client_config \<Rightarrow> string \<Rightarrow> string option \<Rightarrow> 'w sys
   \<Rightarrow> (wasm_response, js_error) rres \<times> 'w sys" where
  "wasm_post E read_text limits cfg url body = wasm_run read_text (http_post E limits cfg url body)"

definition wasm_receipts :: "client_state \<Rightarrow> wasm_receipt list" where
  "wasm_receipts cl = map wasm_receipt_of (client_receipts cl)"

section \<open>Backends\<close>

record wasm_payment_result =
  wy_preimage :: string
  wy_payment_hash :: string
  wy_amount_sats :: u64
  wy_fee_sats :: u64

definition wasm_payment_of :: "payment_result \<Rightarrow> wasm_payment_result" where
  "wasm_payment_of p = \<lparr>wy_preimage = pr_preimage p, wy_payment_hash = pr_payment_hash p,
     wy_amount_sats = pr_amount_sats p, wy_fee_sats = pr_fee_sats p\<rparr>"

definition wasm_payment_total :: "wasm_payment_result \<Rightarrow> (u64, js_error) rres" where
  "wasm_payment_total p = add_u64 (wy_amount_sats p) (wy_fee_sats p)"

record wasm_node_info =
  wn_pubkey :: string
  wn_alias :: string
  wn_num_active_channels :: u32

definition wasm_info_of :: "node_info \<Rightarrow> wasm_node_info" where
  "wasm_info_of i = \<lparr>wn_pubkey = ni_pubkey i, wn_alias = ni_alias i,
     wn_num_active_channels = ni_num_active_channels i\<rparr>"

definition wasm_result :: "('a \<Rightarrow> 'b) \<Rightarrow> ('a, client_error) rres \<Rightarrow> ('b, js_error) rres" where
  "wasm_result f r = rbind (map_err client_error_display r) (\<lambda>x. Ok (f x))"

definition wasm_lnd_pay_invoice ::
  "codec \<Rightarrow> update_parser \<Rightarrow> lnd_rest \<Rightarrow> (http_call \<Rightarrow> http_reply) \<Rightarrow> string \<Rightarrow> u64
   \<Rightarrow> (wasm_payment_result, js_error) rres" where
  "wasm_lnd_pay_invoice C parse b remote bolt11 max_fee_sats =
     wasm_result wasm_payment_of (fst (lnd_rest_pay_invoice C parse b remote bolt11 max_fee_sats))"

definition wasm_cln_new :: "host \<Rightarrow> string \<Rightarrow> string \<Rightarrow> (cln_rest, js_error) rres" where
  "wasm_cln_new h url rune =
     map_err (\<lambda>e. ''failed to create CLN backend: '' @ cln_error_display e) (cln_rest_new h url rune)"

definition wasm_cln_pay_invoice ::
  "(string \<Rightarrow> string + cln_pay_response) \<Rightarrow> cln_rest \<Rightarrow> (http_call \<Rightarrow> http_reply) \<Rightarrow> string \<Rightarrow> u64
   \<Rightarrow> (wasm_payment_result, js_error) rres" where
  "wasm_cln_pay_invoice parse b remote bolt11 max_fee_sats =
     wasm_result wasm_payment_of (fst (cln_rest_pay_invoice parse b remote bolt11 max_fee_sats))"

definition wasm_swissknife_pay_invoice ::
  "(http_call \<Rightarrow> http_reply) \<Rightarrow> string \<Rightarrow> u64 \<Rightarrow> (wasm_payment_result, js_error) rres" where
  "wasm_swissknife_pay_invoice remote bolt11 max_fee_sats =
     wasm_result wasm_payment_of (fst (swissknife_pay_invoice remote bolt11 max_fee_sats))"

section \<open>Properties\<close>

lemma wasm_total_exact:
  "wasm_total_cost_sats (wasm_receipt_of r) = Ok t \<Longrightarrow> t = total_cost_sats r"
  by (auto simp: wasm_total_cost_sats_def wasm_receipt_of_def total_cost_sats_def saturating_add_def add_u64_def
      split: if_splits)

end
