(* ===== verification/Python.thy ===== *)
theory Python
  imports Client_Props Lnd Cln Swissknife Token_Cache
begin

text \<open>
  \<open>crates/l402-python/src/lib.rs\<close>: the Python interface. A \<open>PyErr\<close> is one of two exceptions with a
  text; the classes wrap the values of the core, so that a wrapped value is that value. Blocking on
  the runtime is running the call.
\<close>

datatype py_err = PyRuntimeError string | PyValueError string

text \<open>An error of a backend under a heading, as most wrappers report it.\<close>

definition py_runtime :: "string \<Rightarrow> ('e \<Rightarrow> string) \<Rightarrow> ('a, 'e) rres \<Rightarrow> ('a, py_err) rres" where
  "py_runtime what display r = map_err (\<lambda>e. PyRuntimeError (what @ display e)) r"

section \<open>Budget\<close>

definition py_budget_new ::
  "u64 option \<Rightarrow> u64 option \<Rightarrow> u64 option \<Rightarrow> u64 option \<Rightarrow> (string \<Rightarrow> budget option) option \<Rightarrow> budget" where
  "py_budget_new per_request hourly daily all_time domains =
     Budget per_request hourly daily all_time (opt_default (\<lambda>_. None) domains)"

definition py_budget_unlimited :: budget where
  "py_budget_unlimited = unlimited"

fun fmt_opt :: "u64 option \<Rightarrow> string" where
  "fmt_opt (Some n) = show_u64 n"
| "fmt_opt None = ''None''"

definition py_budget_repr :: "budget \<Rightarrow> string" where
  "py_budget_repr b = ''Budget(per_request_max='' @ fmt_opt (per_request_max b) @ '', hourly_max=''
     @ fmt_opt (hourly_max b) @ '', daily_max='' @ fmt_opt (daily_max b) @ '', total_max=''
     @ fmt_opt (total_max b) @ '')''"

section \<open>Receipts and results\<close>

definition py_receipt_total_cost_sats :: "receipt \<Rightarrow> u64" where
  "py_receipt_total_cost_sats r = total_cost_sats r"

definition py_receipt_repr :: "receipt \<Rightarrow> string" where
  "py_receipt_repr r = ''Receipt(endpoint='' @ [CHR 0x27] @ rc_endpoint r @ [CHR 0x27] @ '', amount_sats=''
     @ show_u64 (rc_amount_sats r) @ '', fee_sats='' @ show_u64 (rc_fee_sats r) @ '', status=''
     @ show_u16 (rc_response_status r) @ '')''"

definition py_receipt_to_json :: "(receipt \<Rightarrow> string + string) \<Rightarrow> receipt \<Rightarrow> (string, py_err) rres" where
  "py_receipt_to_json to_json r =
     (case to_json r of
        Inl e \<Rightarrow> Err (PyRuntimeError (''serialization error: '' @ e))
      | Inr json \<Rightarrow> Ok json)"

text \<open>Unlike the receipt's, this sum is not saturating.\<close>

definition py_payment_total_cost_sats :: "payment_result \<Rightarrow> (u64, py_err) rres" where
  "py_payment_total_cost_sats p = add_u64 (pr_amount_sats p) (pr_fee_sats p)"

definition py_payment_repr :: "payment_result \<Rightarrow> string" where
  "py_payment_repr p = ''PaymentResult(amount_sats='' @ show_u64 (pr_amount_sats p) @ '', fee_sats=''
     @ show_u64 (pr_fee_sats p) @ '', hash='' @ [CHR 0x27] @ pr_payment_hash p @ [CHR 0x27] @ '')''"

definition py_node_info_repr :: "node_info \<Rightarrow> string" where
  "py_node_info_repr i = ''NodeInfo(alias='' @ [CHR 0x27] @ ni_alias i @ [CHR 0x27] @ '', pubkey=''
     @ [CHR 0x27] @ ni_pubkey i @ [CHR 0x27] @ '', channels='' @ show_nat (unat (ni_num_active_channels i)) @ '')''"

section \<open>Backends\<close>

definition py_lnd_rest_new :: "host \<Rightarrow> string \<Rightarrow> string \<Rightarrow> string option \<Rightarrow> (lnd_rest, py_err) rres" where
  "py_lnd_rest_new h url macaroon ca_pem =
     py_runtime ''failed to create LND backend: '' lnd_error_display
       (case ca_pem of Some pem \<Rightarrow> lnd_rest_with_ca_pem h url macaroon pem | None \<Rightarrow> lnd_rest_new h url macaroon)"

definition py_lnd_rest_pay_invoice ::
  "codec \<Rightarrow> update_parser \<Rightarrow> lnd_rest \<Rightarrow> (http_call \<Rightarrow> http_reply) \<Rightarrow> string \<Rightarrow> u64 \<Rightarrow> (payment_result, py_err) rres" where
  "py_lnd_rest_pay_invoice C parse b remote bolt11 max_fee_sats =
     py_runtime ''payment failed: '' client_error_display
       (fst (lnd_rest_pay_invoice C parse b remote bolt11 max_fee_sats))"

definition py_lnd_rest_get_balance ::
  "(string \<Rightarrow> string + string option option) \<Rightarrow> lnd_rest \<Rightarrow> (http_call \<Rightarrow> http_reply) \<Rightarrow> (u64, py_err) rres" where
  "py_lnd_rest_get_balance parse b remote =
     py_runtime ''get_balance failed: '' client_error_display (lnd_rest_get_balance parse b remote)"

definition py_lnd_rest_get_info ::
  "(string \<Rightarrow> string + lnd_info) \<Rightarrow> lnd_rest \<Rightarrow> (http_call \<Rightarrow> http_reply) \<Rightarrow> (node_info, py_err) rres" where
  "py_lnd_rest_get_info parse b remote =
     py_runtime ''get_info failed: '' client_error_display (lnd_rest_get_info parse b remote)"

definition py_lnd_grpc_new ::
  "codec \<Rightarrow> host \<Rightarrow> channel_host \<Rightarrow> string \<Rightarrow> string \<Rightarrow> string \<Rightarrow> (lnd_grpc, py_err) rres" where
  "py_lnd_grpc_new C h net address tls_cert_path macaroon_path =
     py_runtime ''failed to connect to LND gRPC: '' lnd_error_display
       (lnd_grpc_connect C h net address tls_cert_path macaroon_path)"

definition py_lnd_grpc_pay_invoice ::
  "(string \<Rightarrow> string option) \<Rightarrow> (string \<Rightarrow> string) \<Rightarrow> lnd_grpc
   \<Rightarrow> (string \<times> send_payment_request \<Rightarrow> grpc_stream) \<Rightarrow> string \<Rightarrow> u64 \<Rightarrow> (payment_result, py_err) rres" where
  "py_lnd_grpc_pay_invoice to_metadata internal b remote bolt11 max_fee_sats =
     py_runtime ''payment failed: '' client_error_display
       (fst (lnd_grpc_pay_invoice to_metadata internal b remote bolt11 max_fee_sats))"

definition py_lnd_grpc_get_balance ::
  "(string \<Rightarrow> string option) \<Rightarrow> (string \<Rightarrow> string) \<Rightarrow> lnd_grpc \<Rightarrow> (string \<Rightarrow> string + u64 option)
   \<Rightarrow> (u64, py_err) rres" where
  "py_lnd_grpc_get_balance to_metadata internal b remote =
     py_runtime ''get_balance failed: '' client_error_display (lnd_grpc_get_balance to_metadata internal b remote)"

definition py_lnd_grpc_get_info ::
  "(string \<Rightarrow> string option) \<Rightarrow> (string \<Rightarrow> string) \<Rightarrow> lnd_grpc
   \<Rightarrow> (string \<Rightarrow> string + (string \<times> string \<times> u32)) \<Rightarrow> (node_info, py_err) rres" where
  "py_lnd_grpc_get_info to_metadata internal b remote =
     py_runtime ''get_info failed: '' client_error_display (lnd_grpc_get_info to_metadata internal b remote)"

definition py_cln_rest_new :: "host \<Rightarrow> string \<Rightarrow> string \<Rightarrow> string option \<Rightarrow> (cln_rest, py_err) rres" where
  "py_cln_rest_new h url rune ca_pem =
     py_runtime ''failed to create CLN backend: '' cln_error_display
       (case ca_pem of Some pem \<Rightarrow> cln_rest_with_ca_pem h url rune pem | None \<Rightarrow> cln_rest_new h url rune)"

definition py_cln_rest_pay_invoice ::
  "(string \<Rightarrow> string + cln_pay_response) \<Rightarrow> cln_rest \<Rightarrow> (http_call \<Rightarrow> http_reply) \<Rightarrow> string \<Rightarrow> u64
   \<Rightarrow> (payment_result, py_err) rres" where
  "py_cln_rest_pay_invoice parse b remote bolt11 max_fee_sats =
     py_runtime ''payment failed: '' client_error_display
       (fst (cln_rest_pay_invoice parse b remote bolt11 max_fee_sats))"

definition py_cln_rest_get_balance ::
  "(string \<Rightarrow> string + cln_msat_value option list) \<Rightarrow> cln_rest \<Rightarrow> (http_call \<Rightarrow> http_reply) \<Rightarrow> (u64, py_err) rres" where
  "py_cln_rest_get_balance parse b remote =
     py_runtime ''get_balance failed: '' client_error_display (cln_rest_get_balance parse b remote)"

definition py_cln_rest_get_info ::
  "(string \<Rightarrow> string + cln_info) \<Rightarrow> cln_rest \<Rightarrow> (http_call \<Rightarrow> http_reply) \<Rightarrow> (node_info, py_err) rres" where
  "py_cln_rest_get_info parse b remote =
     py_runtime ''get_info failed: '' client_error_display (cln_rest_get_info parse b remote)"

definition py_cln_grpc_new ::
  "host \<Rightarrow> (string \<Rightarrow> string option) \<Rightarrow> (string \<Rightarrow> string \<times> string \<times> string \<Rightarrow> string option)
   \<Rightarrow> string \<Rightarrow> string \<Rightarrow> string \<Rightarrow> string \<Rightarrow> (cln_grpc, py_err) rres" where
  "py_cln_grpc_new h from_shared connect address ca_cert_path client_cert_path client_key_path =
     py_runtime ''failed to connect to CLN gRPC: '' cln_error_display
       (cln_grpc_connect h from_shared connect address ca_cert_path client_cert_path client_key_path)"

definition py_cln_grpc_pay_invoice ::
  "codec \<Rightarrow> (xpay_request \<Rightarrow> string + xpay_response) \<Rightarrow> string \<Rightarrow> u64 \<Rightarrow> (payment_result, py_err) rres" where
  "py_cln_grpc_pay_invoice C remote bolt11 max_fee_sats =
     py_runtime ''payment failed: '' client_error_display (fst (cln_grpc_pay_invoice C remote bolt11 max_fee_sats))"

definition py_cln_grpc_get_balance :: "string + u64 option list \<Rightarrow> (u64, py_err) rres" where
  "py_cln_grpc_get_balance answer =
     py_runtime ''get_balance failed: '' client_error_display (cln_grpc_get_balance answer)"

definition py_cln_grpc_get_info :: "codec \<Rightarrow> string + (string \<times> string \<times> u32) \<Rightarrow> (node_info, py_err) rres" where
  "py_cln_grpc_get_info C answer =
     py_runtime ''get_info failed: '' client_error_display (cln_grpc_get_info C answer)"

definition py_swissknife_new :: "string \<Rightarrow> string \<Rightarrow> string option \<Rightarrow> (swissknife, py_err) rres" where
  "py_swissknife_new url api_key wallet_id =
     (case wallet_id of
        None \<Rightarrow> Ok (swissknife_new url api_key)
      | Some w \<Rightarrow> map_err (\<lambda>e. PyValueError (swissknife_error_display e))
          (with_wallet w (swissknife_new url api_key)))"

definition py_swissknife_pay_invoice ::
  "(http_call \<Rightarrow> http_reply) \<Rightarrow> string \<Rightarrow> u64 \<Rightarrow> (payment_result, py_err) rres" where
  "py_swissknife_pay_invoice remote bolt11 max_fee_sats =
     py_runtime ''payment failed: '' client_error_display (fst (swissknife_pay_invoice remote bolt11 max_fee_sats))"

definition py_swissknife_get_balance ::
  "(string \<Rightarrow> bool) \<Rightarrow> (string \<Rightarrow> string + string option) \<Rightarrow> (string \<Rightarrow> string + 64 word)
   \<Rightarrow> swissknife \<Rightarrow> (http_call \<Rightarrow> http_reply) \<Rightarrow> (u64, py_err) rres" where
  "py_swissknife_get_balance valid_header parse_reason parse b remote =
     py_runtime ''get_balance failed: '' client_error_display
       (swissknife_get_balance valid_header parse_reason parse b remote)"

definition py_swissknife_get_info ::
  "(string \<Rightarrow> bool) \<Rightarrow> (string \<Rightarrow> string + string option) \<Rightarrow> (string \<Rightarrow> string + (string \<times> string))
   \<Rightarrow> swissknife \<Rightarrow> (http_call \<Rightarrow> http_reply) \<Rightarrow> (node_info, py_err) rres" where
  "py_swissknife_get_info valid_header parse_reason parse b remote =
     py_runtime ''get_info failed: '' client_error_display
       (swissknife_get_info valid_header parse_reason parse b remote)"

section \<open>Client\<close>

definition py_build_client ::
  "(string \<Rightarrow> bool \<Rightarrow> string + 'h) \<Rightarrow> string \<Rightarrow> string \<Rightarrow> 'b \<Rightarrow> budget option \<Rightarrow> u64
   \<Rightarrow> (('b, cache_inner, 'h) built_client, py_err) rres" where
  "py_build_client build_http core_version version backend budget max_fee_sats =
     (let config = \<lparr>cfg_max_fee_sats = max_fee_sats, cfg_max_retries = 1,
                   cfg_user_agent = ''l402-python/'' @ version\<rparr> in
      py_runtime ''failed to build L402Client: '' client_error_display
        (build build_http True
          (with_config (with_budget (with_token_store (with_ln_backend (builder_new core_version) backend)
             cache_default) (opt_default unlimited budget)) config)))"

definition py_with_lnd_rest ::
  "host \<Rightarrow> (string \<Rightarrow> bool \<Rightarrow> string + 'h) \<Rightarrow> string \<Rightarrow> string \<Rightarrow> string \<Rightarrow> string \<Rightarrow> budget option \<Rightarrow> u64 \<Rightarrow> string option
   \<Rightarrow> ((lnd_rest, cache_inner, 'h) built_client, py_err) rres" where
  "py_with_lnd_rest h build_http cv v url macaroon budget max_fee_sats ca_pem =
     rbind (py_lnd_rest_new h url macaroon ca_pem) (\<lambda>backend.
     py_build_client build_http cv v backend budget max_fee_sats)"

definition py_with_lnd_grpc ::
  "codec \<Rightarrow> host \<Rightarrow> channel_host \<Rightarrow> (string \<Rightarrow> bool \<Rightarrow> string + 'h) \<Rightarrow> string \<Rightarrow> string \<Rightarrow> string \<Rightarrow> string \<Rightarrow> string
   \<Rightarrow> budget option \<Rightarrow> u64 \<Rightarrow> ((lnd_grpc, cache_inner, 'h) built_client, py_err) rres" where
  "py_with_lnd_grpc C h net build_http cv v address tls_cert_path macaroon_path budget max_fee_sats =
     rbind (py_lnd_grpc_new C h net address tls_cert_path macaroon_path) (\<lambda>backend.
     py_build_client build_http cv v backend budget max_fee_sats)"

definition py_with_cln_rest ::
  "host \<Rightarrow> (string \<Rightarrow> bool \<Rightarrow> string + 'h) \<Rightarrow> string \<Rightarrow> string \<Rightarrow> string \<Rightarrow> string \<Rightarrow> budget option \<Rightarrow> u64 \<Rightarrow> string option
   \<Rightarrow> ((cln_rest, cache_inner, 'h) built_client, py_err) rres" where
  "py_with_cln_rest h build_http cv v url rune budget max_fee_sats ca_pem =
     rbind (py_cln_rest_new h url rune ca_pem) (\<lambda>backend.
     py_build_client build_http cv v backend budget max_fee_sats)"

definition py_with_cln_grpc ::
  "host \<Rightarrow> (string \<Rightarrow> string option) \<Rightarrow> (string \<Rightarrow> string \<times> string \<times> string \<Rightarrow> string option)
   \<Rightarrow> (string \<Rightarrow> bool \<Rightarrow> string + 'h) \<Rightarrow> string \<Rightarrow> string \<Rightarrow> string \<Rightarrow> string \<Rightarrow> string \<Rightarrow> string
   \<Rightarrow> budget option \<Rightarrow> u64 \<Rightarrow> ((cln_grpc, cache_inner, 'h) built_client, py_err) rres" where
  "py_with_cln_grpc h from_shared connect build_http cv v address ca_cert client_cert client_key budget
       max_fee_sats =
     rbind (py_cln_grpc_new h from_shared connect address ca_cert client_cert client_key) (\<lambda>backend.
     py_build_client build_http cv v backend budget max_fee_sats)"

definition py_with_swissknife ::
  "(string \<Rightarrow> bool \<Rightarrow> string + 'h) \<Rightarrow> string \<Rightarrow> string \<Rightarrow> string \<Rightarrow> string \<Rightarrow> budget option \<Rightarrow> u64 \<Rightarrow> string option
   \<Rightarrow> ((swissknife, cache_inner, 'h) built_client, py_err) rres" where
  "py_with_swissknife build_http cv v url api_key budget max_fee_sats wallet_id =
     rbind (py_swissknife_new url api_key wallet_id) (\<lambda>backend.
     py_build_client build_http cv v backend budget max_fee_sats)"

section \<open>Responses and errors\<close>

definition map_client_error :: "client_error \<Rightarrow> py_err" where
  "map_client_error err =
     (case err of
        BudgetExceeded _ \<Rightarrow> PyValueError (''BudgetExceeded: '' @ client_error_display err)
      | PaymentFailed _ \<Rightarrow> PyRuntimeError (''PaymentFailed: '' @ client_error_display err)
      | MissingChallenge \<Rightarrow> PyRuntimeError (''MissingChallenge: '' @ client_error_display err)
      | _ \<Rightarrow> PyRuntimeError (client_error_display err))"

record py_response =
  pp_status :: u16
  pp_paid :: bool
  pp_cached_token :: bool
  pp_receipt :: "receipt option"
  pp_body :: string
  pp_headers :: "string \<Rightarrow> string option"

text \<open>A header map is collected into a dictionary: a later value of the same name replaces an earlier
  one; \<open>to_str\<close> fails for values that are not visible ASCII.\<close>

definition py_headers :: "(string \<Rightarrow> string option) \<Rightarrow> (string \<times> string) list \<Rightarrow> string \<Rightarrow> string option" where
  "py_headers to_str headers = foldl (\<lambda>m (k, v). m(k \<mapsto> opt_default [] (to_str v))) (\<lambda>_. None) headers"

definition py_convert_response ::
  "(http_response \<Rightarrow> (string \<times> string) list) \<Rightarrow> (string \<Rightarrow> string option) \<Rightarrow> (string \<Rightarrow> string option)
   \<Rightarrow> (l402_response, client_error) rres \<Rightarrow> (py_response, py_err) rres" where
  "py_convert_response headers to_str read_text r =
     (case r of
        Ok resp \<Rightarrow> Ok \<lparr>pp_status = status resp, pp_paid = lr_paid resp,
          pp_cached_token = lr_cached_token resp, pp_receipt = lr_receipt resp,
          pp_body = opt_default [] (read_text (rs_body (lr_inner resp))),
          pp_headers = py_headers to_str (headers (lr_inner resp))\<rparr>
      | Err e \<Rightarrow> Err (map_client_error e)
      | Panic \<Rightarrow> Panic)"

fun show_bool :: "bool \<Rightarrow> string" where
  "show_bool True = ''true''"
| "show_bool False = ''false''"

definition py_response_repr :: "py_response \<Rightarrow> string" where
  "py_response_repr r = ''L402Response(status='' @ show_u16 (pp_status r) @ '', paid=''
     @ show_bool (pp_paid r) @ '', cached_token='' @ show_bool (pp_cached_token r) @ '')''"

definition py_get ::
  "'w env \<Rightarrow> (http_response \<Rightarrow> (string \<times> string) list) \<Rightarrow> (string \<Rightarrow> string option) \<Rightarrow> (string \<Rightarrow> string option)
   \<Rightarrow> budget \<Rightarrow> client_config \<Rightarrow> string \<Rightarrow> 'w sys \<Rightarrow> (py_response, py_err) rres \<times> 'w sys" where
  "py_get E headers to_str read_text limits cfg url s =
     (case http_get E limits cfg url s of (r, s') \<Rightarrow> (py_convert_response headers to_str read_text r, s'))"

definition py_post ::
  "'w env \<Rightarrow> (http_response \<Rightarrow> (string \<times> string) list) \<Rightarrow> (string \<Rightarrow> string option) \<Rightarrow> (string \<Rightarrow> string option)
   \<Rightarrow> budget \<Rightarrow> client_config \<Rightarrow> string \<Rightarrow> string option \<Rightarrow> 'w sys \<Rightarrow> (py_response, py_err) rres \<times> 'w sys" where
  "py_post E headers to_str read_text limits cfg url body s =
     (case http_post E limits cfg url body s of (r, s') \<Rightarrow> (py_convert_response headers to_str read_text r, s'))"

definition py_receipts :: "client_state \<Rightarrow> receipt list" where
  "py_receipts cl = client_receipts cl"

definition py_total_spent :: "client_state \<Rightarrow> u64" where
  "py_total_spent cl = client_total_spent cl"

section \<open>Facts\<close>

text \<open>The dictionary keeps the last value of each name.\<close>

lemma py_headers_last: "py_headers to_str (hs @ [(k, v)]) k = Some (opt_default [] (to_str v))"
  by (simp add: py_headers_def)

lemma py_headers_other: "k' \<noteq> k \<Longrightarrow> py_headers to_str (hs @ [(k, v)]) k' = py_headers to_str hs k'"
  by (simp add: py_headers_def)

text \<open>The exception class tells budget refusals from everything else.\<close>

lemma map_client_error_budget:
  "(\<exists>m. map_client_error e = PyValueError m) \<longleftrightarrow> (\<exists>reason. e = BudgetExceeded reason)"
  by (cases e) (simp_all add: map_client_error_def)

end
