(* ===== verification/Bindings.thy ===== *)
theory Bindings
  imports Ffi Wasm Python
begin

text \<open>
  The three language interfaces over the same core call. Each runs the call of \<open>Client.thy\<close> once and
  copies its result; \<open>read\<close> is the reader of a response body, which all three use.
\<close>

definition readable :: "(string \<Rightarrow> string + string) \<Rightarrow> string \<Rightarrow> string option" where
  "readable read body = (case read body of Inl _ \<Rightarrow> None | Inr t \<Rightarrow> Some t)"

section \<open>One call, three interfaces\<close>

text \<open>A GET, or a POST with an optional body, of the core and of each interface.\<close>

datatype verb = Get | Post "string option"

fun core_call :: "'w env \<Rightarrow> budget \<Rightarrow> client_config \<Rightarrow> verb \<Rightarrow> string \<Rightarrow> (l402_response, 'w) act" where
  "core_call E limits cfg Get u = http_get E limits cfg u"
| "core_call E limits cfg (Post body) u = http_post E limits cfg u body"

fun c_call_of :: "'w env \<Rightarrow> (string \<Rightarrow> string option) \<Rightarrow> (string \<Rightarrow> string option) \<Rightarrow> verb \<Rightarrow> ptr \<Rightarrow> string \<Rightarrow> (ptr, 'w, 'h) c_call" where
  "c_call_of E utf8 rt Get p u = l402_client_get E utf8 rt p (Some u)"
| "c_call_of E utf8 rt (Post body) p u = l402_client_post E utf8 rt p (Some u) body"

fun wasm_call_of where
  "wasm_call_of E read limits cfg Get u = wasm_get E read limits cfg u"
| "wasm_call_of E read limits cfg (Post body) u = wasm_post E read limits cfg u body"

fun py_call_of where
  "py_call_of E hs to_str rt limits cfg Get u = py_get E hs to_str rt limits cfg u"
| "py_call_of E hs to_str rt limits cfg (Post body) u = py_post E hs to_str rt limits cfg u body"

text \<open>The texts of a call are valid UTF-8, which the C interface checks and the other two are given.\<close>

fun texts_valid :: "(string \<Rightarrow> string option) \<Rightarrow> verb \<Rightarrow> string \<Rightarrow> bool" where
  "texts_valid utf8 Get u \<longleftrightarrow> utf8 u = None"
| "texts_valid utf8 (Post body) u \<longleftrightarrow> utf8 u = None \<and> Option.bind body utf8 = None"

section \<open>What an interface reports of a response\<close>

text \<open>Through the accessors of the C interface.\<close>

definition c_reports :: "('w, 'h) ffi \<Rightarrow> ptr \<Rightarrow> l402_response \<Rightarrow> string \<Rightarrow> bool" where
  "c_reports st p resp body \<longleftrightarrow>
     l402_response_status p st = Returned (status resp, st)
   \<and> l402_response_paid p st = Returned (lr_paid resp, st)
   \<and> l402_response_body p st = Returned (Some (c_string body), st)
   \<and> l402_response_has_receipt p st = Returned (lr_receipt resp \<noteq> None, st)
   \<and> l402_response_receipt_amount_sats p st =
       Returned ((case lr_receipt resp of None \<Rightarrow> 0 | Some r \<Rightarrow> rc_amount_sats r), st)
   \<and> l402_response_receipt_fee_sats p st =
       Returned ((case lr_receipt resp of None \<Rightarrow> 0 | Some r \<Rightarrow> rc_fee_sats r), st)
   \<and> l402_response_receipt_payment_hash p st =
       Returned (map_option (\<lambda>r. c_string (rc_payment_hash r)) (lr_receipt resp), st)
   \<and> l402_response_receipt_preimage p st =
       Returned (map_option (\<lambda>r. c_string (rc_preimage r)) (lr_receipt resp), st)"

definition wasm_reports :: "wasm_response \<Rightarrow> l402_response \<Rightarrow> string \<Rightarrow> bool" where
  "wasm_reports w resp body \<longleftrightarrow> wp_status w = status resp \<and> wp_paid w = lr_paid resp
   \<and> wp_cached_token w = lr_cached_token resp \<and> wp_body w = body
   \<and> wp_receipt w = map_option wasm_receipt_of (lr_receipt resp)"

definition py_reports :: "py_response \<Rightarrow> l402_response \<Rightarrow> string \<Rightarrow> bool" where
  "py_reports y resp body \<longleftrightarrow> pp_status y = status resp \<and> pp_paid y = lr_paid resp
   \<and> pp_cached_token y = lr_cached_token resp \<and> pp_body y = body \<and> pp_receipt y = lr_receipt resp"

text \<open>A call of a live client through the C interface.\<close>

lemma c_call_run:
  assumes "ff_clients st a = Some c" and "texts_valid utf8 v u"
  shows "c_call_of E utf8 rt v (Some a) u st =
    run_client rt (\<lambda>c. core_call E (bc_limits c) (bc_config c) v u) a c (clear_error st)"
  using assms by (cases v) (simp_all add: l402_client_get_def l402_client_post_def clear_error_def)

lemma wasm_call_run: "wasm_call_of E read limits cfg v u = wasm_run read (core_call E limits cfg v u)"
  by (cases v) (simp_all add: wasm_get_def wasm_post_def)

lemma py_call_run:
  "py_call_of E hs to_str rt limits cfg v u s =
     (case core_call E limits cfg v u s of (r, s') \<Rightarrow> (py_convert_response hs to_str rt r, s'))"
  by (cases v) (simp_all add: py_get_def py_post_def)

text \<open>The state a call leaves: the world and the client are those of the core.\<close>

definition left_by :: "('w, 'h) ffi \<Rightarrow> nat \<Rightarrow> 'w sys \<Rightarrow> bool" where
  "left_by st a s \<longleftrightarrow> ff_world st = sy_ext s \<and> map_option bc_state (ff_clients st a) = Some (sy_cl s)"

lemma c_reports_ok:
  assumes "ff_responses st p = Some (ffi_response_of rt resp)"
  shows "c_reports st (Some p) resp (opt_default [] (rt (rs_body (lr_inner resp))))"
  using assms
  by (cases "lr_receipt resp"; cases "rt (rs_body (lr_inner resp))")
    (simp_all add: c_reports_def l402_response_status_def l402_response_paid_def l402_response_body_def
      l402_response_has_receipt_def l402_response_receipt_amount_sats_def l402_response_receipt_fee_sats_def
      l402_response_receipt_payment_hash_def l402_response_receipt_preimage_def with_response_def ffi_response_of_def)

lemma run_client_Ok:
  assumes "call c \<lparr>sy_ext = ff_world st, sy_cl = bc_state c, sy_log = []\<rparr> = (Ok resp, s')"
    and "ff_clients st a = Some c"
  shows "\<exists>p st'. run_client rt call a c (clear_error st) = Returned (Some p, st') \<and> left_by st' a s'
    \<and> c_reports st' (Some p) resp (opt_default [] (rt (rs_body (lr_inner resp))))"
proof -
  obtain st' where "run_client rt call a c (clear_error st) = Returned (Some (ff_next st), st')"
    "ff_responses st' (ff_next st) = Some (ffi_response_of rt resp)" "left_by st' a s'"
    using assms by (simp add: run_client_def clear_error_def convert_response_def new_response_def left_by_def)
  then show ?thesis using c_reports_ok by blast
qed

lemma run_client_Err:
  assumes "call c \<lparr>sy_ext = ff_world st, sy_cl = bc_state c, sy_log = []\<rparr> = (Err e, s')"
    and "ff_clients st a = Some c"
  shows "\<exists>st'. run_client rt call a c (clear_error st) = Returned (None, st') \<and> left_by st' a s'
    \<and> last_error_message st' = Some (c_string (client_error_display e))"
  using assms
  by (simp add: run_client_def clear_error_def convert_response_def fail_null_def set_error_def last_error_message_def
      left_by_def)

section \<open>Properties\<close>

text \<open>C37. The C, JavaScript and Python interfaces report the same request, GET or POST, alike: run on the
  same client they leave it and the world in the same state. If the core returns a response, C and
  Python report its status, payment flag, body and receipt, with an empty body if the body cannot be
  read; JavaScript reports the same if the body can be read, and else an error in place of the whole response. If
  the core returns an error, all three do: C null with its text, JavaScript its text, Python the
  exception made of it. The C interface cuts a string that contains NUL to the empty one, and the texts of the call must be UTF-8.\<close>

theorem bindings_agree:
  assumes "core_call E (bc_limits c) (bc_config c) v u
      \<lparr>sy_ext = ff_world st, sy_cl = bc_state c, sy_log = []\<rparr> = (r, s')"
    and "ff_clients st a = Some c" and "texts_valid utf8 v u"
  shows "case r of
      Ok resp \<Rightarrow> (\<exists>p st' y.
          c_call_of E utf8 (readable read) v (Some a) u st = Returned (Some p, st') \<and> left_by st' a s'
        \<and> c_reports st' (Some p) resp (opt_default [] (readable read (rs_body (lr_inner resp))))
        \<and> py_call_of E hs to_str (readable read) (bc_limits c) (bc_config c) v u
            \<lparr>sy_ext = ff_world st, sy_cl = bc_state c, sy_log = []\<rparr> = (Ok y, s')
        \<and> py_reports y resp (opt_default [] (readable read (rs_body (lr_inner resp))))
        \<and> (case read (rs_body (lr_inner resp)) of
             Inl e \<Rightarrow> wasm_call_of E read (bc_limits c) (bc_config c) v u
               \<lparr>sy_ext = ff_world st, sy_cl = bc_state c, sy_log = []\<rparr> = (Err (''HTTP error: '' @ e), s')
           | Inr t \<Rightarrow> (\<exists>w. wasm_call_of E read (bc_limits c) (bc_config c) v u
               \<lparr>sy_ext = ff_world st, sy_cl = bc_state c, sy_log = []\<rparr> = (Ok w, s') \<and> wasm_reports w resp t)))
    | Err e \<Rightarrow> (\<exists>st'.
          c_call_of E utf8 (readable read) v (Some a) u st = Returned (None, st') \<and> left_by st' a s'
        \<and> last_error_message st' = Some (c_string (client_error_display e))
        \<and> py_call_of E hs to_str (readable read) (bc_limits c) (bc_config c) v u
            \<lparr>sy_ext = ff_world st, sy_cl = bc_state c, sy_log = []\<rparr> = (Err (map_client_error e), s')
        \<and> wasm_call_of E read (bc_limits c) (bc_config c) v u
            \<lparr>sy_ext = ff_world st, sy_cl = bc_state c, sy_log = []\<rparr> = (Err (client_error_display e), s'))
    | Panic \<Rightarrow> c_call_of E utf8 (readable read) v (Some a) u st = Aborted"
proof (cases r)
  case (Ok resp)
  let ?call = "\<lambda>c. core_call E (bc_limits c) (bc_config c) v u"
  obtain p st' where c: "c_call_of E utf8 (readable read) v (Some a) u st = Returned (Some p, st')" "left_by st' a s'"
    "c_reports st' (Some p) resp (opt_default [] (readable read (rs_body (lr_inner resp))))"
    using run_client_Ok [of ?call c st resp s' a "readable read"] assms(1,2) c_call_run [OF assms(2,3), of E "readable read"] Ok
    by auto
  obtain y where y: "py_call_of E hs to_str (readable read) (bc_limits c) (bc_config c) v u
      \<lparr>sy_ext = ff_world st, sy_cl = bc_state c, sy_log = []\<rparr> = (Ok y, s')"
    "py_reports y resp (opt_default [] (readable read (rs_body (lr_inner resp))))"
    using assms(1) Ok by (simp add: py_call_run py_convert_response_def py_reports_def)
  have "case read (rs_body (lr_inner resp)) of
      Inl e \<Rightarrow> wasm_call_of E read (bc_limits c) (bc_config c) v u
        \<lparr>sy_ext = ff_world st, sy_cl = bc_state c, sy_log = []\<rparr> = (Err (''HTTP error: '' @ e), s')
    | Inr t \<Rightarrow> (\<exists>w. wasm_call_of E read (bc_limits c) (bc_config c) v u
        \<lparr>sy_ext = ff_world st, sy_cl = bc_state c, sy_log = []\<rparr> = (Ok w, s') \<and> wasm_reports w resp t)"
    using assms(1) Ok
    by (simp add: wasm_call_run wasm_run_def to_wasm_response_def response_text_def wasm_reports_def split: sum.split)
  then show ?thesis using c y unfolding Ok rres.case by blast
next
  case (Err e)
  let ?call = "\<lambda>c. core_call E (bc_limits c) (bc_config c) v u"
  show ?thesis
    using run_client_Err [of ?call c st e s' a "readable read"] assms(1,2) c_call_run [OF assms(2,3), of E "readable read"] Err
    by (simp add: py_call_run py_convert_response_def wasm_call_run wasm_run_def)
next
  case Panic
  then show ?thesis using assms(1) c_call_run [OF assms(2,3), of E "readable read"] assms(2)
    by (simp add: run_client_def clear_error_def convert_response_def)
qed

text \<open>An instance: a server that answers at once.\<close>

definition plain_env :: "unit env" where
  "plain_env = sample_env\<lparr>e_send := \<lambda>w rq. (Inr \<lparr>rs_status = 200, rs_origin = ''o'',
     rs_www_authenticate = None, rs_body = ''data''\<rparr>, w)\<rparr>"

definition plain_client :: "unit ffi_client" where
  "plain_client = \<lparr>bc_ln_backend = mock_backend [], bc_token_store = cache_default, bc_limits = unlimited,
     bc_config = sample_config, bc_http_client = (), bc_state = client_start\<rparr>"

definition plain_ffi :: "(unit, unit) ffi" where
  "plain_ffi = (ffi_start ())\<lparr>ff_clients := [0 \<mapsto> plain_client], ff_next := 1\<rparr>"

theorem bindings_agree_witness:
  "\<exists>p st' w s'. l402_client_post plain_env (\<lambda>_. None) (readable Inr) (Some 0) (Some ''u'') (Some ''b'') plain_ffi = Returned (Some p, st')
     \<and> l402_response_status (Some p) st' = Returned (200, st')
     \<and> wasm_post plain_env Inr unlimited sample_config ''u'' (Some ''b'')
         \<lparr>sy_ext = (), sy_cl = client_start, sy_log = []\<rparr> = (Ok w, s') \<and> wp_body w = ''data''"
proof -
  let ?r = "\<lparr>lr_inner = \<lparr>rs_status = 200, rs_origin = ''o'', rs_www_authenticate = None, rs_body = ''data''\<rparr>,
     lr_paid = False, lr_cached_token = False, lr_receipt = None\<rparr>"
  have c: "bc_limits plain_client = unlimited" "bc_config plain_client = sample_config" "bc_state plain_client = client_start"
    "ff_world plain_ffi = ()" "ff_clients plain_ffi 0 = Some plain_client"
    by (simp_all add: plain_client_def plain_ffi_def ffi_start_def)
  have "\<exists>s'. core_call plain_env unlimited sample_config (Post (Some ''b'')) ''u''
      \<lparr>sy_ext = (), sy_cl = client_start, sy_log = []\<rparr> = (Ok ?r, s')"
    by (simp add: http_post_def request_def Let_def bind_act_def find_token_def client_start_def
        store_get_def plain_env_def sample_env_def try_cached_def send_request_def send_checked_def ret_def
        PAYMENT_REQUIRED_def log_call_def)
  then obtain s' where r: "core_call plain_env (bc_limits plain_client) (bc_config plain_client) (Post (Some ''b'')) ''u''
      \<lparr>sy_ext = ff_world plain_ffi, sy_cl = bc_state plain_client, sy_log = []\<rparr> = (Ok ?r, s')" unfolding c ..
  show ?thesis
    using bindings_agree [OF r c(5), of "\<lambda>_. None" Inr "\<lambda>_. []" Some] unfolding c
    by (auto simp: c_reports_def wasm_reports_def status_def)
qed

end
