(* ===== verification/Spec2Isabelle.thy ===== *)
theory Spec2Isabelle
  imports Client_Calls Client_Books Client_Panic Client_Proofs Client_Runs Mock Ffi_Safety Bindings
begin

text \<open>
  Verification development of the L402 SDK: a Rust workspace whose client answers HTTP 402 with a
  Lightning payment. Paths below are under \<open>src/crates\<close>.

  \<^bold>\<open>The program.\<close> A request (\<open>l402-core/src/client.rs\<close>) is sent plainly, or with a credential the
  client has. If the server answers 402, the client reads the challenge of the header
  \<open>WWW-Authenticate\<close> (\<open>l402-proto\<close>), decodes the amount of its BOLT11 invoice, reserves amount and
  routing fee in the budget (\<open>budget.rs\<close>), lets a backend pay, books the payment and a receipt,
  keeps macaroon and preimage in a token store, and retries with them. Backends and stores are
  behind the traits of \<open>l402-proto/src/port.rs\<close>; the backends are LND and CLN (REST and gRPC), NWC
  and SwissKnife, the stores an in-memory FIFO and SQLite. \<open>l402-mock\<close> is a server and a backend for
  tests. C, JavaScript and Python reach the client through \<open>l402-ffi\<close>, \<open>l402-wasm\<close>, \<open>l402-python\<close>.

  \<^bold>\<open>Theories.\<close>
  \<^item> \<open>L402_Prelude\<close>, \<open>Rust_Str\<close>: words with Rust's checked and saturating operations, the result type
    \<open>rres\<close> (\<open>Ok\<close>, \<open>Err\<close>, \<open>Panic\<close>), strings as UTF-8 bytes with the operations of \<open>str\<close>.
  \<^item> \<open>Proto_Types\<close> (\<open>error.rs\<close>, \<open>client_error.rs\<close>, \<open>port.rs\<close>): errors with their texts, the records of
    the ports, and the contracts of a token store: the locale \<open>confining_store\<close> with the two contracts
    that give it, \<open>token_store\<close> of a store in memory, which may evict, and \<open>timed_store\<close> of one that outlives its
    process, whose calls differ in their conditions (the time, a failing engine).
  \<^item> \<open>Bolt11\<close>, \<open>Challenge\<close> (\<open>bolt11.rs\<close>; \<open>challenge.rs\<close>, \<open>token.rs\<close>): the amount decoder, exact on every
    well-formed invoice and sound on every string; the parser of challenges, with its round trip
    and soundness; tokens in the \<open>Authorization\<close> header.
  \<^item> \<open>Receipt\<close>, \<open>Token_Cache\<close> (\<open>receipt.rs\<close>, \<open>cache.rs\<close>): receipts, and the in-memory store, a refinement of
    a bounded FIFO queue.
  \<^item> \<open>Budget\<close> (\<open>budget.rs\<close>): the tracker. \<open>budget_step\<close> is its step relation with a clock that does not
    run backwards and an observer who records what was settled; \<open>budget_inv\<close> its invariant, from
    which follow the limits, the exact answers of \<open>reserve_at\<close>, and the absence of panics.
  \<^item> \<open>Client\<close>, \<open>Client_Props\<close> (\<open>client.rs\<close>): builder and request. \<open>env\<close> is what the client calls,
    \<open>sys\<close> its state, the state of the world and a log of the calls; each block of code under one
    lock is a definition. The lemmas say which calls a request makes and what it leaves in the books
    on every path; \<open>Client_Calls\<close> bounds its calls by a pattern, in their order.
  \<^item> \<open>Client_Life\<close>: any number of requests one after another (\<open>client_life\<close>). The receipts are the entries
    of the tracker, so that every limit of the budget holds of the receipts. \<open>Client_Panic\<close>: no request
    of such a life panics. \<open>Client_Proofs\<close>: its receipts repeat the answers of the backend, so that they
    are proofs of payment for the backends that have one.
  \<^item> \<open>Client_Concurrent\<close>: concurrent calls as interleaved blocks (\<open>conc_step\<close>), with an invariant
    (\<open>conc_inv\<close>) that every block keeps. The locks are the atomicity of the blocks; waiting for one is not modelled, so that no
    theorem says that a call gets it.
    \<open>Client_Books\<close>: what is settled and in flight together, against the total limit.
  \<^item> \<open>Sqlite_Store\<close> (\<open>l402-sqlite\<close>): statements as functions on rows, migration, time to live. A call
    has its own clock and its own failure of the engine (\<open>sq_call\<close>); without a time to live the store
    interprets \<open>timed_store\<close> and refines a map. \<open>Client_Stores\<close> puts a store of that contract under the
    client: the world sets the conditions of each call (\<open>over_store\<close>).
  \<^item> \<open>Client_Tokens\<close>: concurrent requests as far as credentials go. A \<open>block\<close> of a task is what runs under
    one lock, one call of the store or one exchange with the server; \<open>token_run\<close>, and \<open>timed_run\<close> over a store
    of varying conditions, interleave them and may drop a future between any two. Credentials stay with the URL they were issued for, one that was
    paid for is not lost, and a late refusal of an old one is the exception the code makes.
  \<^item> \<open>Client_Runs\<close>: a request of \<open>Client\<close> is a run of the blocks of \<open>Client_Tokens\<close>, and its payment a run
    of the steps of \<open>Client_Concurrent\<close>; so what holds of every interleaving holds of the code.
  \<^item> \<open>Backend_Port\<close>: the host functions a backend uses, and the locale \<open>ln_backend\<close>: a refusal it
    reports as certain is confirmed by the node. \<open>Lnd\<close>, \<open>Cln\<close>, \<open>Nwc\<close>, \<open>Swissknife\<close> model the crates and
    interpret it; \<open>Backends\<close> puts each of them under the client, and says what a success stands for.
  \<^item> \<open>Mock\<close> (\<open>l402-mock\<close>): server and backend, and the end-to-end run of the client against them.
  \<^item> \<open>Ffi\<close>, \<open>Ffi_Safety\<close> (\<open>l402-ffi\<close>): the C functions over a heap of boxes with undefined behaviour as
    a result, and the discipline of ownership, with the documented contract of
    the endpoint array, that excludes it. \<open>Wasm\<close>, \<open>Python\<close>: the other interfaces;
    \<open>Bindings\<close> compares the three.

  \<^bold>\<open>Reading the theorems.\<close> Everything that is not under \<open>src\<close> is an argument: HTTP, the nodes' answers,
  JSON, base64, hex, SHA-256, TLS, URL parsing, clocks, random bytes. Their laws, where needed, are
  named hypotheses (\<open>crypto_ok\<close>, \<open>clock_forward\<close>, \<open>ports_return\<close>) with an instance.
  \<open>Panic\<close> is an unchecked overflow in a build with overflow checks, an index out of range, or a clock
  before the epoch; a theorem that excludes it also holds of a build that wraps. Loops of the code are
  structural recursions over their input, so that no fuel occurs; the request itself has no loop, and
  \<open>request_call_order\<close> bounds its calls. In \<open>Client_Concurrent\<close> a future may be dropped while it
  waits for the backend, taking a lock never waits, and the blocks of one task run in the order of
  the code.

  \<^bold>\<open>Not modelled.\<close> The message types and stubs that prost and tonic generate (\<open>l402-lnd/src/gen\<close>,
  \<open>l402-cln/src/gen\<close>), apart from two enumerations; the crate roots, which only re-export; the Go
  wrapper and the TypeScript and Python packages; examples, demos, tests and fuzz targets; getters of
  the interfaces that only read a field; Python's \<open>json()\<close>, which calls Python. The poisoning of a lock
  after a panic in another thread is modelled in the SQLite store only.
\<close>

end
